theory Spec2Isabelle
  imports Main "HOL-Library.Sublist"
begin

chapter \<open>FileTransferApp: the receiving side of the transfer protocol\<close>

text \<open>
  A shallow embedding of the receiving side of the transfer engine:
  \<^item> \<^verbatim>\<open>transfer_core/helpers.py\<close>: \<^verbatim>\<open>read_header_from_socket\<close>;
  \<^item> \<^verbatim>\<open>utils.py\<close>: \<^verbatim>\<open>sanitize_filename_part\<close>, \<^verbatim>\<open>sanitize_path\<close>;
  \<^item> \<^verbatim>\<open>transfer_core/handshake.py\<close>: \<^verbatim>\<open>perform_folder_handshake_server\<close>;
  \<^item> \<^verbatim>\<open>transfer_core/folder_handler.py\<close>: \<^verbatim>\<open>handle_client_folder_transfer\<close>;
  \<^item> \<^verbatim>\<open>transfer_core/single_file_handler.py\<close>: \<^verbatim>\<open>handle_client_connection\<close>;
  \<^item> \<^verbatim>\<open>transfer_core/server.py\<close>: the protocol detection of \<^verbatim>\<open>run_tcp_server_task\<close>.

  Conventions. Python \<^verbatim>\<open>bytes\<close> are lists of \<^typ>\<open>char\<close> (8-bit values), Python
  \<^verbatim>\<open>str\<close> are lists of code points (\<^typ>\<open>nat\<close>), Python integers are \<^typ>\<open>int\<close>.
  An exception is a value of type \<open>exn\<close>; a function that may raise returns
  \<open>exn + 'a\<close> with \<open>Inl\<close> for the raised exception. Everything outside the
  program (the socket, the cancel event, the clock, the file system) is a field of
  the record \<open>world\<close>, passed in and returned updated. The GUI callbacks only display
  text and are left out.
\<close>

section \<open>Definitions\<close>

subsection \<open>Bytes, strings and exceptions\<close>

type_synonym bytes = "char list"
type_synonym str = "nat list"

text \<open>A \<^verbatim>\<open>str\<close> literal: the code points of an ASCII string.\<close>

definition ustr :: "string \<Rightarrow> str" where
  "ustr s = map of_char s"

text \<open>
  The exception classes the handlers distinguish. \<open>SocketTimeout\<close> and
  \<open>ConnectionResetError\<close> are subclasses of \<open>OSError\<close> in Python;
  \<open>UnicodeError\<close> is a subclass of \<open>ValueError\<close> and is merged with it.
  \<open>GenericException\<close> is a plain \<^verbatim>\<open>Exception(...)\<close>. \<open>IndexError\<close>, \<open>OverflowError\<close>
  and \<open>ZeroDivisionError\<close> are what \<^verbatim>\<open>utils.format_bytes\<close> can raise; only a clause
  \<^verbatim>\<open>except Exception\<close> catches them.
\<close>

datatype exn =
    SocketTimeout
  | ConnectionResetError
  | OSError
  | ValueError
  | RuntimeError
  | CancelledError
  | GenericException
  | IndexError
  | OverflowError
  | ZeroDivisionError

definition is_OSError :: "exn \<Rightarrow> bool" where
  "is_OSError e \<longleftrightarrow> e = SocketTimeout \<or> e = ConnectionResetError \<or> e = OSError"

subsection \<open>config.py\<close>

definition BUFFER_SIZE_FOR_HEADER :: int where
  "BUFFER_SIZE_FOR_HEADER = 2048"

definition HEADER_SEPARATOR :: char where
  "HEADER_SEPARATOR = CHR ''|''"

definition FOLDER_PROTOCOL_PREFIX :: str where
  "FOLDER_PROTOCOL_PREFIX = ustr ''FDR_V1''"

definition FOLDER_HEADER_TYPE_FOLDER :: str where
  "FOLDER_HEADER_TYPE_FOLDER = ustr ''FOLDER''"

definition FOLDER_HEADER_TYPE_FILE :: str where
  "FOLDER_HEADER_TYPE_FILE = ustr ''FILE''"

definition FOLDER_HEADER_TYPE_END_TRANSFER :: str where
  "FOLDER_HEADER_TYPE_END_TRANSFER = ustr ''END_TRANSFER''"

definition FOLDER_HEADER_TYPE_TOTAL_INFO :: str where
  "FOLDER_HEADER_TYPE_TOTAL_INFO = ustr ''TOTAL_INFO''"

definition TOTAL_INFO_COUNT_SIZE_SEPARATOR :: nat where
  "TOTAL_INFO_COUNT_SIZE_SEPARATOR = of_char CHR '',''"

definition HANDSHAKE_REQUEST_SIGNAL :: bytes where
  "HANDSHAKE_REQUEST_SIGNAL = ''IS_TRANSFER_COMPLETE?''"

definition HANDSHAKE_COMPLETE_OK_SIGNAL :: bytes where
  "HANDSHAKE_COMPLETE_OK_SIGNAL = ''TRANSFER_COMPLETE_OK''"

definition HANDSHAKE_ERROR_SIGNAL :: bytes where
  "HANDSHAKE_ERROR_SIGNAL = ''TRANSFER_ERROR''"

definition TEST_FILE_SIZE :: int where
  "TEST_FILE_SIZE = 100 * 1024 * 1024"

subsection \<open>The codec \<^verbatim>\<open>utf-8\<close>\<close>

text \<open>
  \<^verbatim>\<open>bytes.decode('utf-8')\<close> and \<^verbatim>\<open>str.encode('utf-8')\<close> in strict mode: overlong forms,
  surrogates and code points above \<open>0x10FFFF\<close> are refused (\<open>None\<close> stands for
  \<open>UnicodeDecodeError\<close> and \<open>UnicodeEncodeError\<close>).
\<close>

definition cont :: "char \<Rightarrow> bool" where
  "cont c \<longleftrightarrow> (128::nat) \<le> of_char c \<and> (of_char c :: nat) < 192"

fun utf8_decode :: "bytes \<Rightarrow> str option" where
  "utf8_decode [] = Some []"
| "utf8_decode (c # cs) =
     (let b0 = of_char c :: nat in
      if b0 < 128 then map_option ((#) b0) (utf8_decode cs)
      else if 194 \<le> b0 \<and> b0 < 224 then
        (case cs of
           c1 # r \<Rightarrow>
             if cont c1
             then map_option ((#) ((b0 - 192) * 64 + (of_char c1 - 128))) (utf8_decode r)
             else None
         | _ \<Rightarrow> None)
      else if 224 \<le> b0 \<and> b0 < 240 then
        (case cs of
           c1 # c2 # r \<Rightarrow>
             (let cp = (b0 - 224) * 4096 + (of_char c1 - 128) * 64 + (of_char c2 - 128) in
              if cont c1 \<and> cont c2 \<and> 2048 \<le> cp \<and> \<not> (55296 \<le> cp \<and> cp < 57344)
              then map_option ((#) cp) (utf8_decode r)
              else None)
         | _ \<Rightarrow> None)
      else if 240 \<le> b0 \<and> b0 < 245 then
        (case cs of
           c1 # c2 # c3 # r \<Rightarrow>
             (let cp = (b0 - 240) * 262144 + (of_char c1 - 128) * 4096
                       + (of_char c2 - 128) * 64 + (of_char c3 - 128) in
              if cont c1 \<and> cont c2 \<and> cont c3 \<and> 65536 \<le> cp \<and> cp < 1114112
              then map_option ((#) cp) (utf8_decode r)
              else None)
         | _ \<Rightarrow> None)
      else None)"

definition encode_cp :: "nat \<Rightarrow> bytes option" where
  "encode_cp cp =
     (if cp < 128 then Some [char_of cp]
      else if cp < 2048 then Some [char_of (192 + cp div 64), char_of (128 + cp mod 64)]
      else if 55296 \<le> cp \<and> cp < 57344 then None
      else if cp < 65536 then
        Some [char_of (224 + cp div 4096), char_of (128 + cp div 64 mod 64),
              char_of (128 + cp mod 64)]
      else if cp < 1114112 then
        Some [char_of (240 + cp div 262144), char_of (128 + cp div 4096 mod 64),
              char_of (128 + cp div 64 mod 64), char_of (128 + cp mod 64)]
      else None)"

fun utf8_encode :: "str \<Rightarrow> bytes option" where
  "utf8_encode [] = Some []"
| "utf8_encode (cp # s) =
     (case encode_cp cp of
        None \<Rightarrow> None
      | Some b \<Rightarrow> (case utf8_encode s of None \<Rightarrow> None | Some bs \<Rightarrow> Some (b @ bs)))"

subsection \<open>The world outside the program\<close>

text \<open>
  What the peer's bytes look like when they reach \<^verbatim>\<open>socket.recv\<close>: a queue of events.
  \<open>Chunk b\<close> is a segment \<open>b\<close> that has arrived; \<open>RecvTimeout\<close> is a read that ends in
  \<^verbatim>\<open>socket.timeout\<close>; \<open>RecvFail\<close> is a read that ends in another socket error. The
  empty queue is a peer that has closed the connection (\<^verbatim>\<open>recv\<close> returns \<^verbatim>\<open>b""\<close>).
\<close>

datatype recv_ev = Chunk bytes | RecvTimeout | RecvFail

text \<open>
  \<^item> \<open>sock_in\<close>: the events still to be read from the socket;
  \<^item> \<open>recv_log\<close>: the sizes \<open>n\<close> of the calls \<^verbatim>\<open>recv(n)\<close> made so far, oldest first;
  \<^item> \<open>sock_out\<close>: what \<^verbatim>\<open>sendall\<close> has sent, oldest first;
  \<^item> \<open>sock_closed\<close>: the program has closed the socket;
  \<^item> \<open>send_q\<close>: the outcome of each coming \<^verbatim>\<open>sendall\<close> (\<open>False\<close>: it raises);
  \<^item> \<open>cancel_q\<close>: the answer of each coming \<^verbatim>\<open>cancel_event.is_set()\<close>;
  \<^item> \<open>deadline_q\<close>: the answer of each coming test \<^verbatim>\<open>time.time() - start_time < timeout\<close>;
  \<^item> \<open>now\<close>: the value of \<^verbatim>\<open>int(time.time())\<close>, used in fallback names only;
  \<^item> \<open>cwd\<close>: the working directory, an absolute path;
  \<^item> \<open>dirs\<close>, \<open>files\<close>: the directories and the regular files (with their content),
    by absolute path. File operations fail only for the reasons written in their
    definitions (no permissions, no full disk, no symbolic links).
  An exhausted queue of answers answers "not set", "in time" and "sent".
\<close>

record world =
  sock_in :: "recv_ev list"
  recv_log :: "nat list"
  sock_out :: "bytes list"
  sock_closed :: bool
  send_q :: "bool list"
  cancel_q :: "bool list"
  deadline_q :: "bool list"
  now :: int
  cwd :: str
  dirs :: "str set"
  files :: "str \<rightharpoonup> bytes"

text \<open>\<^verbatim>\<open>sock.recv(n)\<close> on the queue (for \<open>n > 0\<close>): at most \<open>n\<close> bytes of the first segment.\<close>

fun recv :: "nat \<Rightarrow> recv_ev list \<Rightarrow> (exn + bytes) \<times> recv_ev list" where
  "recv n [] = (Inr [], [])"
| "recv n (Chunk b # q) =
     (if length b \<le> n then (Inr b, q) else (Inr (take n b), Chunk (drop n b) # q))"
| "recv n (RecvTimeout # q) = (Inl SocketTimeout, q)"
| "recv n (RecvFail # q) = (Inl OSError, q)"

definition sock_recv :: "nat \<Rightarrow> world \<Rightarrow> (exn + bytes) \<times> world" where
  "sock_recv n w =
     (case recv n (sock_in w) of (r, q) \<Rightarrow> (r, w\<lparr>sock_in := q, recv_log := recv_log w @ [n]\<rparr>))"

text \<open>\<^verbatim>\<open>cancel_event.is_set()\<close>.\<close>

definition is_set :: "world \<Rightarrow> bool \<times> world" where
  "is_set w = (case cancel_q w of [] \<Rightarrow> (False, w) | c # cs \<Rightarrow> (c, w\<lparr>cancel_q := cs\<rparr>))"

text \<open>The loop test \<^verbatim>\<open>time.time() - start_time < timeout\<close>.\<close>

definition in_time :: "world \<Rightarrow> bool \<times> world" where
  "in_time w = (case deadline_q w of [] \<Rightarrow> (True, w) | d # ds \<Rightarrow> (d, w\<lparr>deadline_q := ds\<rparr>))"

text \<open>\<^verbatim>\<open>sock.sendall(data)\<close>: \<open>True\<close> when the data was sent, \<open>False\<close> when it raised.\<close>

definition sendall :: "bytes \<Rightarrow> world \<Rightarrow> bool \<times> world" where
  "sendall d w =
     (case send_q w of
        [] \<Rightarrow> (True, w\<lparr>sock_out := sock_out w @ [d]\<rparr>)
      | True # ss \<Rightarrow> (True, w\<lparr>send_q := ss, sock_out := sock_out w @ [d]\<rparr>)
      | False # ss \<Rightarrow> (False, w\<lparr>send_q := ss\<rparr>))"

text \<open>The bytes that are still in the socket, and the size of the queue (a termination measure).\<close>

fun pending :: "recv_ev list \<Rightarrow> bytes" where
  "pending [] = []"
| "pending (Chunk b # q) = b @ pending q"
| "pending (_ # q) = pending q"

fun weight :: "recv_ev list \<Rightarrow> nat" where
  "weight [] = 0"
| "weight (Chunk b # q) = Suc (length b) + weight q"
| "weight (_ # q) = Suc (weight q)"

subsection \<open>helpers.py: \<^verbatim>\<open>read_header_from_socket\<close>\<close>

text \<open>\<^verbatim>\<open>bytes.find\<close> of a one-byte pattern: the first index, or \<open>-1\<close>.\<close>

fun bfind :: "bytes \<Rightarrow> char \<Rightarrow> int" where
  "bfind [] c = -1"
| "bfind (x # xs) c = (if x = c then 0 else (let r = bfind xs c in if r = -1 then -1 else r + 1))"

text \<open>
  The two places where the separator has been found: slice the buffer, decode the
  header. \<^verbatim>\<open>len(header_sep_bytes)\<close> is 1.
\<close>

definition extract_header :: "bytes \<Rightarrow> int \<Rightarrow> world \<Rightarrow> (exn + str \<times> bytes) \<times> world" where
  "extract_header header_buffer separator_index w =
     (let header_bytes = take (nat separator_index) header_buffer;
          remaining_buffer = drop (nat (separator_index + 1)) header_buffer
      in case utf8_decode header_bytes of
           Some decoded_header \<Rightarrow> (Inr (decoded_header, remaining_buffer), w)
         | None \<Rightarrow> (Inl ValueError, w))"

text \<open>
  The \<^verbatim>\<open>while\<close> loop. The \<^verbatim>\<open>ValueError\<close> of a full buffer is raised inside the
  \<^verbatim>\<open>try\<close> whose last handler turns every exception but \<^verbatim>\<open>socket.timeout\<close> into a plain
  \<^verbatim>\<open>Exception\<close>.
\<close>

function read_header_loop :: "int \<Rightarrow> bytes \<Rightarrow> world \<Rightarrow> (exn + str \<times> bytes) \<times> world" where
  "read_header_loop max_buffer header_buffer w =
     (case in_time w of
        (False, w1) \<Rightarrow> (Inl SocketTimeout, w1)
      | (True, w1) \<Rightarrow>
         (case is_set w1 of
            (True, w2) \<Rightarrow> (Inl CancelledError, w2)
          | (False, w2) \<Rightarrow>
             (let chunk_size_to_read =
                    (if length header_buffer = 0 then min BUFFER_SIZE_FOR_HEADER max_buffer
                     else min 4096 (max_buffer - int (length header_buffer)))
              in if chunk_size_to_read \<le> 0 then (Inl GenericException, w2)
                 else
                   (case sock_recv (nat chunk_size_to_read) w2 of
                      (Inl e, w3) \<Rightarrow>
                        if e = SocketTimeout then read_header_loop max_buffer header_buffer w3
                        else (Inl GenericException, w3)
                    | (Inr chunk, w3) \<Rightarrow>
                        if chunk = [] then
                          (if length header_buffer = 0 then (Inl ConnectionResetError, w3)
                           else (Inl ValueError, w3))
                        else
                          (let header_buffer' = header_buffer @ chunk;
                               separator_index = bfind header_buffer' HEADER_SEPARATOR
                           in if separator_index \<noteq> -1
                              then extract_header header_buffer' separator_index w3
                              else if int (length header_buffer') > max_buffer
                              then (Inl ValueError, w3)
                              else read_header_loop max_buffer header_buffer' w3)))))"
  by pat_completeness auto
termination
proof (relation "measure (\<lambda>(m, b, w). weight (sock_in w))", goal_cases)
  case 1
  show ?case by simp
next
  case (2 max_buffer header_buffer w x1 w1 x2 w2 csz r w3 e)
  have s: "sock_in w2 = sock_in w"
    using 2(1,2,3,4) by (auto simp: in_time_def is_set_def split: list.splits)
  from 2 obtain q where q: "recv (nat csz) (sock_in w) = (Inl SocketTimeout, q)" "sock_in w3 = q"
    by (auto simp: s sock_recv_def split: prod.splits)
  from q(1) have "weight q < weight (sock_in w)"
    by (cases "(nat csz, sock_in w)" rule: recv.cases) (auto split: if_splits)
  then show ?case using q(2) by simp
next
  case (3 max_buffer header_buffer w x1 w1 x2 w2 csz r w3 chunk hb' idx)
  have s: "sock_in w2 = sock_in w"
    using 3(1,2,3,4) by (auto simp: in_time_def is_set_def split: list.splits)
  from 3 obtain q where q: "recv (nat csz) (sock_in w) = (Inr chunk, q)" "sock_in w3 = q"
      "chunk \<noteq> []" "0 < nat csz"
    by (auto simp: s sock_recv_def split: prod.splits)
  from q(1,3,4) have "weight q < weight (sock_in w)"
    by (cases "(nat csz, sock_in w)" rule: recv.cases) (auto split: if_splits)
  then show ?case using q(2) by simp
qed

declare read_header_loop.simps [simp del]

text \<open>
  \<^verbatim>\<open>read_header_from_socket(sock, gui_callbacks, cancel_event, initial_buffer, timeout,
  max_buffer)\<close>. The parameter \<^verbatim>\<open>timeout\<close> is the deadline that \<open>deadline_q\<close> answers
  for. Every caller leaves \<^verbatim>\<open>max_buffer\<close> at its default.
\<close>

definition read_header_from_socket ::
  "world \<Rightarrow> bytes \<Rightarrow> int \<Rightarrow> (exn + str \<times> bytes) \<times> world" where
  "read_header_from_socket w initial_buffer max_buffer =
     (let header_buffer = initial_buffer;
          separator_index = bfind header_buffer HEADER_SEPARATOR
      in if separator_index \<noteq> -1 then extract_header header_buffer separator_index w
         else read_header_loop max_buffer header_buffer w)"

definition max_buffer_default :: int where
  "max_buffer_default = BUFFER_SIZE_FOR_HEADER * 4"

definition read_header :: "world \<Rightarrow> bytes \<Rightarrow> (exn + str \<times> bytes) \<times> world" where
  "read_header w initial_buffer = read_header_from_socket w initial_buffer max_buffer_default"

subsection \<open>Python built-ins on \<^verbatim>\<open>str\<close> and \<^verbatim>\<open>bytes\<close>\<close>

text \<open>
  What the interpreter brings and the repository does not define: the Unicode class
  behind the pattern \<^verbatim>\<open>\w\<close> (\<^verbatim>\<open>str.isalnum\<close>), the parser \<^verbatim>\<open>int(s)\<close> (\<open>None\<close>:
  \<^verbatim>\<open>ValueError\<close>), and the floating-point value
  \<^verbatim>\<open>int(math.floor(math.log(n, 1024)))\<close> for an integer \<open>n > 0\<close>. They are parameters
  of the handlers; every property below holds for any value of them.
\<close>

record pyrt =
  isalnum :: "nat \<Rightarrow> bool"
  py_int :: "str \<Rightarrow> int option"
  floor_log_1024 :: "int \<Rightarrow> int"

subsection \<open>utils.py: \<^verbatim>\<open>format_bytes\<close>\<close>

text \<open>
  \<^verbatim>\<open>utils.format_bytes(byte_count)\<close> builds a string for a status message; only whether
  it raises matters here (\<open>None\<close>: it returns). For \<open>byte_count > 0\<close> and
  \<open>i = int(math.floor(math.log(byte_count, 1024)))\<close> it evaluates
  \<^item> \<^verbatim>\<open>p = math.pow(1024, i)\<close>, an \<^verbatim>\<open>OverflowError\<close> from \<open>i = 103\<close> on, and \<open>0.0\<close> up to
    \<open>i = -108\<close>;
  \<^item> \<^verbatim>\<open>round(byte_count / p, 2)\<close>, a \<^verbatim>\<open>ZeroDivisionError\<close> when \<open>p\<close> is \<open>0.0\<close> and an
    \<^verbatim>\<open>OverflowError\<close> when \<open>byte_count\<close> is too large for a \<^verbatim>\<open>float\<close>;
  \<^item> \<^verbatim>\<open>size_name[i]\<close> for a tuple of 9 names, an \<^verbatim>\<open>IndexError\<close> unless \<open>-9 \<le> i \<le> 8\<close>.
\<close>

definition format_bytes :: "pyrt \<Rightarrow> int \<Rightarrow> exn option" where
  "format_bytes rt byte_count =
     (if byte_count < 0 then None
      else if byte_count = 0 then None
      else
        (let i = floor_log_1024 rt byte_count
         in if 103 \<le> i then Some OverflowError
            else if i \<le> - 108 then Some ZeroDivisionError
            else if 2 ^ 1024 - 2 ^ 970 \<le> byte_count then Some OverflowError
            else if 9 \<le> i \<or> i < - 9 then Some IndexError
            else None))"

definition SLASH :: nat where "SLASH = 47"
definition DOT :: nat where "DOT = 46"
definition UNDERSCORE :: nat where "UNDERSCORE = 95"

text \<open>\<^verbatim>\<open>str.isspace\<close> of one character, which is also the pattern \<^verbatim>\<open>\s\<close>.\<close>

definition isspace :: "nat \<Rightarrow> bool" where
  "isspace c \<longleftrightarrow>
     (9 \<le> c \<and> c \<le> 13) \<or> (28 \<le> c \<and> c \<le> 32) \<or> c = 133 \<or> c = 160 \<or> c = 5760
     \<or> (8192 \<le> c \<and> c \<le> 8202) \<or> c = 8232 \<or> c = 8233 \<or> c = 8239 \<or> c = 8287 \<or> c = 12288"

text \<open>The ASCII white space that \<^verbatim>\<open>bytes.strip()\<close> removes.\<close>

definition bspace :: "char \<Rightarrow> bool" where
  "bspace c \<longleftrightarrow> c \<in> set [CHR '' '', CHR 0x09, CHR 0x0A, CHR 0x0B, CHR 0x0C, CHR 0x0D]"

definition rstrip_while :: "('a \<Rightarrow> bool) \<Rightarrow> 'a list \<Rightarrow> 'a list" where
  "rstrip_while P s = rev (dropWhile P (rev s))"

definition strip_while :: "('a \<Rightarrow> bool) \<Rightarrow> 'a list \<Rightarrow> 'a list" where
  "strip_while P s = rstrip_while P (dropWhile P s)"

text \<open>\<^verbatim>\<open>s.split(c)\<close> and \<^verbatim>\<open>c.join(parts)\<close>.\<close>

fun split_on :: "'a \<Rightarrow> 'a list \<Rightarrow> 'a list list" where
  "split_on c [] = [[]]"
| "split_on c (x # xs) =
     (if x = c then [] # split_on c xs
      else (case split_on c xs of s # ss \<Rightarrow> (x # s) # ss | [] \<Rightarrow> [[x]]))"

fun join_with :: "'a \<Rightarrow> 'a list list \<Rightarrow> 'a list" where
  "join_with c [] = []"
| "join_with c [x] = x"
| "join_with c (x # y # ys) = x @ c # join_with c (y # ys)"

text \<open>\<^verbatim>\<open>s.rfind(c)\<close>: the last index of \<open>c\<close>, or \<open>-1\<close>.\<close>

definition rfind :: "'a list \<Rightarrow> 'a \<Rightarrow> int" where
  "rfind s c = (if c \<in> set s then int (length s) - 1 - int (length (takeWhile (\<lambda>x. x \<noteq> c) (rev s)))
                else -1)"

text \<open>\<^verbatim>\<open>str(n)\<close> for an integer.\<close>

fun digits :: "nat \<Rightarrow> str" where
  "digits n = (if n < 10 then [48 + n] else digits (n div 10) @ [48 + n mod 10])"

declare digits.simps [simp del]

definition str_of_int :: "int \<Rightarrow> str" where
  "str_of_int i = (if i < 0 then 45 # digits (nat (- i)) else digits (nat i))"

subsection \<open>\<^verbatim>\<open>os.path\<close> on a POSIX system\<close>

text \<open>
  The model fixes a POSIX system: \<^verbatim>\<open>os.path\<close> is \<^verbatim>\<open>posixpath\<close>, \<^verbatim>\<open>os.sep\<close> is \<^verbatim>\<open>/\<close>,
  \<^verbatim>\<open>normcase\<close> is the identity and \<^verbatim>\<open>sys.platform\<close> is not \<^verbatim>\<open>win32\<close>.
\<close>

definition dot :: str where "dot = [DOT]"
definition dotdot :: str where "dotdot = [DOT, DOT]"

text \<open>The loop of \<^verbatim>\<open>normpath\<close> over the components, \<open>new_comps\<close> being built.\<close>

fun norm_comps :: "nat \<Rightarrow> str list \<Rightarrow> str list \<Rightarrow> str list" where
  "norm_comps initial_slashes [] new_comps = new_comps"
| "norm_comps initial_slashes (cmp # comps) new_comps =
     (if cmp = [] \<or> cmp = dot then norm_comps initial_slashes comps new_comps
      else if cmp \<noteq> dotdot \<or> (initial_slashes = 0 \<and> new_comps = [])
              \<or> (new_comps \<noteq> [] \<and> last new_comps = dotdot)
      then norm_comps initial_slashes comps (new_comps @ [cmp])
      else if new_comps \<noteq> [] then norm_comps initial_slashes comps (butlast new_comps)
      else norm_comps initial_slashes comps new_comps)"

definition normpath :: "str \<Rightarrow> str" where
  "normpath path =
     (if path = [] then dot
      else
        (let initial_slashes =
               (if prefix [SLASH] path
                then (if prefix [SLASH, SLASH] path \<and> \<not> prefix [SLASH, SLASH, SLASH] path
                      then 2 else 1)
                else 0);
             comps = norm_comps initial_slashes (split_on SLASH path) [];
             path' = join_with SLASH comps;
             path'' = (if initial_slashes \<noteq> 0 then replicate initial_slashes SLASH @ path'
                       else path')
         in if path'' = [] then dot else path''))"

definition isabs :: "str \<Rightarrow> bool" where
  "isabs s \<longleftrightarrow> prefix [SLASH] s"

text \<open>\<^verbatim>\<open>os.path.join(a, *p)\<close>.\<close>

fun path_join :: "str \<Rightarrow> str list \<Rightarrow> str" where
  "path_join path [] = path"
| "path_join path (b # p) =
     (if prefix [SLASH] b then path_join b p
      else if path = [] \<or> suffix [SLASH] path then path_join (path @ b) p
      else path_join (path @ SLASH # b) p)"

definition abspath :: "world \<Rightarrow> str \<Rightarrow> str" where
  "abspath w path = normpath (if isabs path then path else path_join (cwd w) [path])"

definition basename :: "str \<Rightarrow> str" where
  "basename p = drop (nat (rfind p SLASH + 1)) p"

definition dirname :: "str \<Rightarrow> str" where
  "dirname p =
     (let head = take (nat (rfind p SLASH + 1)) p
      in if head \<noteq> [] \<and> head \<noteq> replicate (length head) SLASH
         then rstrip_while (\<lambda>c. c = SLASH) head else head)"

text \<open>
  \<^verbatim>\<open>os.path.splitext\<close>: the extension starts at the last dot of the last component,
  unless only dots come before it in that component.
\<close>

definition splitext :: "str \<Rightarrow> str \<times> str" where
  "splitext p =
     (let sepIndex = rfind p SLASH; dotIndex = rfind p DOT
      in if dotIndex > sepIndex
            \<and> (\<exists>c \<in> set (take (nat (dotIndex - (sepIndex + 1))) (drop (nat (sepIndex + 1)) p)).
                  c \<noteq> DOT)
         then (take (nat dotIndex) p, drop (nat dotIndex) p)
         else (p, []))"

text \<open>
  \<^verbatim>\<open>os.path.commonpath([a, b])\<close>. The library takes the longest common prefix of the
  smaller and the larger of the two component lists, which is their longest common
  prefix.
\<close>

definition path_comps :: "str \<Rightarrow> str list" where
  "path_comps p = filter (\<lambda>c. c \<noteq> [] \<and> c \<noteq> dot) (split_on SLASH p)"

fun common_prefix :: "'a list \<Rightarrow> 'a list \<Rightarrow> 'a list" where
  "common_prefix (x # xs) (y # ys) = (if x = y then x # common_prefix xs ys else [])"
| "common_prefix _ _ = []"

definition commonpath :: "str \<Rightarrow> str \<Rightarrow> exn + str" where
  "commonpath a b =
     (if isabs a \<noteq> isabs b then Inl ValueError
      else
        (let common = common_prefix (path_comps a) (path_comps b);
             pre = (if isabs a then [SLASH] else [])
         in Inr (pre @ join_with SLASH common)))"

subsection \<open>The file system\<close>

definition path_exists :: "world \<Rightarrow> str \<Rightarrow> bool" where
  "path_exists w p \<longleftrightarrow> p \<in> dirs w \<or> files w p \<noteq> None"

definition isdir :: "world \<Rightarrow> str \<Rightarrow> bool" where
  "isdir w p \<longleftrightarrow> p \<in> dirs w"

text \<open>The absolute path \<open>p\<close> and the directories above it, the root apart.\<close>

definition chain :: "str \<Rightarrow> str list" where
  "chain p = map (\<lambda>cs. SLASH # join_with SLASH cs) (tl (prefixes (path_comps p)))"

text \<open>
  \<^verbatim>\<open>os.makedirs(p, exist_ok=True)\<close>: raises when \<open>p\<close> or a directory above it is a regular
  file.
\<close>

definition makedirs :: "str \<Rightarrow> world \<Rightarrow> exn + world" where
  "makedirs p w =
     (if \<exists>a \<in> set (chain p). files w a \<noteq> None then Inl OSError
      else Inr (w\<lparr>dirs := dirs w \<union> set (chain p)\<rparr>))"

text \<open>
  \<^verbatim>\<open>open(p, "wb")\<close>: creates the file or empties it; raises when \<open>p\<close> is a directory or
  the directory of \<open>p\<close> does not exist. The handle is the path.
\<close>

definition open_wb :: "str \<Rightarrow> world \<Rightarrow> exn + world" where
  "open_wb p w =
     (if p \<in> dirs w \<or> dirname p \<notin> dirs w then Inl OSError
      else Inr (w\<lparr>files := (files w)(p \<mapsto> [])\<rparr>))"

text \<open>\<^verbatim>\<open>handle.write(data)\<close> appends to the file.\<close>

definition file_write :: "str \<Rightarrow> bytes \<Rightarrow> world \<Rightarrow> world" where
  "file_write p data w =
     w\<lparr>files := (files w)(p \<mapsto> (case files w p of None \<Rightarrow> data | Some old \<Rightarrow> old @ data))\<rparr>"

text \<open>\<^verbatim>\<open>os.remove(p)\<close>; in both handlers a failure is caught and only logged.\<close>

definition remove_file :: "str \<Rightarrow> world \<Rightarrow> world" where
  "remove_file p w = w\<lparr>files := (files w)(p := None)\<rparr>"

text \<open>
  The \<^verbatim>\<open>while os.path.exists(final_file_path)\<close> loop of both handlers, which appends a
  counter to the name until the name is free.
\<close>

function unique_path :: "world \<Rightarrow> str \<Rightarrow> str \<Rightarrow> nat \<Rightarrow> str \<Rightarrow> exn + str" where
  "unique_path w original_base ext counter final_file_path =
     (if path_exists w final_file_path
      then (let final_file_path' = original_base @ UNDERSCORE # digits counter @ ext;
                counter' = counter + 1
            in if counter' > 10000 then Inl ValueError
               else unique_path w original_base ext counter' final_file_path')
      else Inr final_file_path)"
  by pat_completeness auto
termination
  by (relation "measure (\<lambda>(w, b, e, counter, f). 10001 - counter)") auto

declare unique_path.simps [simp del]

subsection \<open>utils.py: \<^verbatim>\<open>sanitize_filename_part\<close> and \<^verbatim>\<open>sanitize_path\<close>\<close>

text \<open>
  The class \<^verbatim>\<open>[^\w\s\.-_]\<close>: inside the brackets \<^verbatim>\<open>\.-_\<close> is the range from the dot
  (46) to the underscore (95).
\<close>

definition kept :: "pyrt \<Rightarrow> nat \<Rightarrow> bool" where
  "kept rt c \<longleftrightarrow> isalnum rt c \<or> c = UNDERSCORE \<or> isspace c \<or> (DOT \<le> c \<and> c \<le> UNDERSCORE)"

definition sanitize_filename_part :: "pyrt \<Rightarrow> str \<Rightarrow> exn + str" where
  "sanitize_filename_part rt part =
     (if part = [] then Inr []
      else if part = dot \<or> part = dotdot then Inl ValueError
      else
        (let s1 = map (\<lambda>c. if kept rt c then c else UNDERSCORE) part;
             s2 = map (\<lambda>c. if c = 32 then UNDERSCORE else c) s1;
             s3 = dropWhile (\<lambda>c. c = DOT) s2;
             sanitized_part = rstrip_while (\<lambda>c. isspace c \<or> c = DOT) s3
         in if sanitized_part = [] then Inl ValueError else Inr sanitized_part))"

text \<open>The \<^verbatim>\<open>for i, part in enumerate(parts_protocol)\<close> loop; \<open>n\<close> is \<^verbatim>\<open>len(parts_protocol)\<close>.\<close>

fun sanitize_parts :: "pyrt \<Rightarrow> nat \<Rightarrow> str list \<Rightarrow> exn + str list" where
  "sanitize_parts rt n [] = Inr []"
| "sanitize_parts rt n (part # ps) =
     (if ps = [] \<and> part = [] \<and> n > 1 then Inr [[]]
      else if part = dot \<or> part = dotdot then Inl ValueError
      else if part = [] then sanitize_parts rt n ps
      else
        (case sanitize_filename_part rt part of
           Inl e \<Rightarrow> Inl ValueError
         | Inr sanitized_name \<Rightarrow>
             (case sanitize_parts rt n ps of
                Inl e \<Rightarrow> Inl e
              | Inr rest \<Rightarrow> Inr (sanitized_name # rest))))"

definition base_like :: "str \<Rightarrow> bool" where
  "base_like relative_path \<longleftrightarrow> strip_while isspace relative_path \<in> {[], dot, [SLASH]}"

text \<open>
  Every exception of step 1 (the base directory) is raised again as \<^verbatim>\<open>ValueError\<close>;
  so is every exception of the later steps.
\<close>

definition sanitize_path :: "pyrt \<Rightarrow> str \<Rightarrow> str \<Rightarrow> world \<Rightarrow> (exn + str) \<times> world" where
  "sanitize_path rt base_dir relative_path w =
     (if base_dir = [] then (Inl ValueError, w)
      else
        (let base_dir_abs = abspath w base_dir
         in case (if \<not> path_exists w base_dir_abs then makedirs base_dir_abs w else Inr w) of
              Inl e \<Rightarrow> (Inl ValueError, w)
            | Inr w1 \<Rightarrow>
               (let parts_protocol = split_on SLASH relative_path
                in case sanitize_parts rt (length parts_protocol) parts_protocol of
                     Inl e \<Rightarrow> (Inl ValueError, w1)
                   | Inr sanitized_parts_local \<Rightarrow>
                      if sanitized_parts_local = [] \<and> \<not> base_like relative_path
                      then (Inl ValueError, w1)
                      else
                        (let full_path = path_join base_dir_abs sanitized_parts_local;
                             normalized_full_path = normpath full_path;
                             base_dir_abs_norm = normpath base_dir_abs
                         in case commonpath base_dir_abs_norm normalized_full_path of
                              Inl e \<Rightarrow> (Inl ValueError, w1)
                            | Inr common_path \<Rightarrow>
                               if common_path \<noteq> base_dir_abs_norm then (Inl ValueError, w1)
                               else if \<not> base_like relative_path
                                       \<and> normalized_full_path = base_dir_abs_norm
                               then (Inl ValueError, w1)
                               else (Inr normalized_full_path, w1)))))"

subsection \<open>handshake.py: \<^verbatim>\<open>perform_folder_handshake_server\<close>\<close>

text \<open>
  The function only sends: \<^verbatim>\<open>HANDSHAKE_COMPLETE_OK_SIGNAL\<close> when \<open>verification_result\<close>
  holds, \<^verbatim>\<open>HANDSHAKE_ERROR_SIGNAL\<close> otherwise. An exception of \<^verbatim>\<open>sendall\<close> is caught and
  not raised again. It does not read from the socket.
\<close>

definition perform_folder_handshake_server :: "bool \<Rightarrow> world \<Rightarrow> world" where
  "perform_folder_handshake_server verification_result w =
     (if verification_result
      then snd (sendall HANDSHAKE_COMPLETE_OK_SIGNAL w)
      else snd (sendall HANDSHAKE_ERROR_SIGNAL w))"

subsection \<open>folder_handler.py: \<^verbatim>\<open>handle_client_folder_transfer\<close>\<close>

datatype rstate =
    STATE_WAITING_FOR_ROOT_FOLDER_HEADER
  | STATE_WAITING_FOR_TOTAL_INFO_HEADER
  | STATE_WAITING_FOR_ITEM_HEADER
  | STATE_RECEIVING_FILE_DATA
  | STATE_WAITING_FOR_HANDSHAKE_REQUEST
  | STATE_HANDSHAKE_COMPLETE

text \<open>
  The local variables of the handler. \<open>current_file_handle\<close> is the path the open
  handle writes to.
\<close>

record fstate =
  current_save_dir :: "str option"
  session_root_name :: "str option"
  received_files_base_abs :: "str option"
  received_bytes_total :: int
  items_received_count :: int
  total_expected_items :: "int option"
  total_expected_size :: "int option"
  current_file_bytes_expected :: int
  current_file_bytes_received :: int
  current_file_handle :: "str option"
  current_file_path :: "str option"
  current_item_path_protocol :: str
  is_cancelled :: bool
  transfer_success :: bool
  received_buffer :: bytes
  current_state :: rstate

definition initial_fstate :: "bytes \<Rightarrow> fstate" where
  "initial_fstate initial_buffer =
     \<lparr>current_save_dir = None, session_root_name = None, received_files_base_abs = None,
      received_bytes_total = 0, items_received_count = 0,
      total_expected_items = None, total_expected_size = None,
      current_file_bytes_expected = 0, current_file_bytes_received = 0,
      current_file_handle = None, current_file_path = None,
      current_item_path_protocol = ustr ''N/A'',
      is_cancelled = False, transfer_success = False,
      received_buffer = initial_buffer,
      current_state = STATE_WAITING_FOR_ROOT_FOLDER_HEADER\<rparr>"

text \<open>
  A piece of the handler returns the exception it raised, if any, with the variables
  and the world as they are at that moment.
\<close>

type_synonym fres = "exn option \<times> fstate \<times> world"

definition close_current_file :: "fstate \<Rightarrow> fstate" where
  "close_current_file s =
     (if current_file_handle s \<noteq> None
      then s\<lparr>current_file_handle := None, current_file_path := None\<rparr>
      else s)"

text \<open>
  \<^verbatim>\<open>segment, received_buffer = read_header_from_socket(..., initial_buffer=received_buffer)\<close>.
\<close>

definition next_header :: "fstate \<Rightarrow> world \<Rightarrow> (exn + str) \<times> fstate \<times> world" where
  "next_header s w =
     (case read_header w (received_buffer s) of
        (Inl e, w') \<Rightarrow> (Inl e, s, w')
      | (Inr (segment, buf), w') \<Rightarrow> (Inr segment, s\<lparr>received_buffer := buf\<rparr>, w'))"

text \<open>
  \<^verbatim>\<open>header_prefix_segment.encode('utf-8').strip() == config.HANDSHAKE_REQUEST_SIGNAL.strip()\<close>
\<close>

definition is_handshake_request :: "str \<Rightarrow> exn + bool" where
  "is_handshake_request header_prefix_segment =
     (case utf8_encode header_prefix_segment of
        None \<Rightarrow> Inl ValueError
      | Some b \<Rightarrow> Inr (strip_while bspace b = strip_while bspace HANDSHAKE_REQUEST_SIGNAL))"

definition slashes :: "str \<Rightarrow> str" where
  "slashes s = map (\<lambda>c. if c = 92 then SLASH else c) s"

text \<open>The first part that is neither empty nor \<^verbatim>\<open>.\<close> nor \<^verbatim>\<open>..\<close>, or the empty string.\<close>

definition first_name :: "str list \<Rightarrow> str" where
  "first_name parts =
     (case filter (\<lambda>part. part \<noteq> [] \<and> part \<noteq> dot \<and> part \<noteq> dotdot) parts of
        [] \<Rightarrow> []
      | part # _ \<Rightarrow> part)"

text \<open>State \<^verbatim>\<open>WAITING_FOR_ROOT_FOLDER_HEADER\<close>, from the root name on.\<close>

definition prepare_session_root :: "pyrt \<Rightarrow> str \<Rightarrow> fstate \<Rightarrow> world \<Rightarrow> fres" where
  "prepare_session_root rt first_item_path_raw s w =
     (let normalized_client_root_path_str = slashes (normpath first_item_path_raw);
          found = first_name (split_on SLASH normalized_client_root_path_str);
          root_folder_name_for_session =
            (if found = [] then ustr ''received_folder_'' @ str_of_int (now w) else found);
          sanitized_root_name =
            (case sanitize_filename_part rt root_folder_name_for_session of
               Inr n \<Rightarrow>
                 if n = []
                 then ustr ''received_folder_'' @ str_of_int (now w) @ ustr ''_sanitized_fallback''
                 else n
             | Inl e \<Rightarrow>
                 ustr ''received_folder_'' @ str_of_int (now w) @ ustr ''_sanitization_error'')
      in case received_files_base_abs s of
           None \<Rightarrow> (Some ValueError, s, w)
         | Some base \<Rightarrow>
            (case sanitize_path rt base (sanitized_root_name @ [SLASH]) w of
               (Inl e, w1) \<Rightarrow> (Some ValueError, s, w1)
             | (Inr dir, w1) \<Rightarrow>
                (let s1 = s\<lparr>current_save_dir := Some dir\<rparr>
                 in case (if \<not> path_exists w1 dir then makedirs dir w1 else Inr w1) of
                      Inl e \<Rightarrow> (Some ValueError, s1, w1)
                    | Inr w2 \<Rightarrow>
                       (None,
                        s1\<lparr>session_root_name := Some sanitized_root_name,
                           items_received_count := items_received_count s1 + 1,
                           current_state := STATE_WAITING_FOR_TOTAL_INFO_HEADER\<rparr>,
                        w2))))"

definition root_folder_header :: "pyrt \<Rightarrow> fstate \<Rightarrow> world \<Rightarrow> fres" where
  "root_folder_header rt s w =
     (case next_header s w of
        (Inl e, s1, w1) \<Rightarrow> (Some e, s1, w1)
      | (Inr header_prefix_segment, s1, w1) \<Rightarrow>
         (case is_handshake_request header_prefix_segment of
            Inl e \<Rightarrow> (Some e, s1, w1)
          | Inr True \<Rightarrow>
              (Some ValueError,
               s1\<lparr>received_buffer := HANDSHAKE_REQUEST_SIGNAL @ received_buffer s1\<rparr>, w1)
          | Inr False \<Rightarrow>
              if header_prefix_segment \<noteq> FOLDER_PROTOCOL_PREFIX then (Some ValueError, s1, w1)
              else
                (case next_header s1 w1 of
                   (Inl e, s2, w2) \<Rightarrow> (Some e, s2, w2)
                 | (Inr header_type_segment, s2, w2) \<Rightarrow>
                    (case next_header s2 w2 of
                       (Inl e, s3, w3) \<Rightarrow> (Some e, s3, w3)
                     | (Inr header_path_segment, s3, w3) \<Rightarrow>
                        (let s4 = s3\<lparr>current_item_path_protocol := header_path_segment\<rparr>
                         in if header_type_segment \<noteq> FOLDER_HEADER_TYPE_FOLDER
                            then (Some ValueError, s4, w3)
                            else prepare_session_root rt header_path_segment s4 w3)))))"

text \<open>
  State \<^verbatim>\<open>WAITING_FOR_TOTAL_INFO_HEADER\<close>: the data segment \<^verbatim>\<open>count,size\<close>. Once both
  totals are assigned, the size is formatted for two messages (the same call twice);
  what \<^verbatim>\<open>format_bytes\<close> raises is no \<^verbatim>\<open>ValueError\<close> and passes the \<^verbatim>\<open>except\<close> clause.
\<close>

definition parse_total_info :: "pyrt \<Rightarrow> str \<Rightarrow> exn + int \<times> int" where
  "parse_total_info rt header_data_segment =
     (case split_on TOTAL_INFO_COUNT_SIZE_SEPARATOR header_data_segment of
        [a, b] \<Rightarrow>
          (case py_int rt a of
             None \<Rightarrow> Inl ValueError
           | Some parsed_count \<Rightarrow>
              (case py_int rt b of
                 None \<Rightarrow> Inl ValueError
               | Some parsed_size \<Rightarrow>
                  if parsed_count < 0 \<or> parsed_size < 0 then Inl ValueError
                  else Inr (parsed_count, parsed_size)))
      | _ \<Rightarrow> Inl ValueError)"

definition total_info_header :: "pyrt \<Rightarrow> fstate \<Rightarrow> world \<Rightarrow> fres" where
  "total_info_header rt s w =
     (case next_header s w of
        (Inl e, s1, w1) \<Rightarrow> (Some e, s1, w1)
      | (Inr header_prefix_segment, s1, w1) \<Rightarrow>
         (case is_handshake_request header_prefix_segment of
            Inl e \<Rightarrow> (Some e, s1, w1)
          | Inr True \<Rightarrow>
              (None,
               s1\<lparr>received_buffer := HANDSHAKE_REQUEST_SIGNAL @ received_buffer s1,
                  current_state := STATE_WAITING_FOR_HANDSHAKE_REQUEST\<rparr>, w1)
          | Inr False \<Rightarrow>
              if header_prefix_segment \<noteq> FOLDER_PROTOCOL_PREFIX then (Some ValueError, s1, w1)
              else
                (case next_header s1 w1 of
                   (Inl e, s2, w2) \<Rightarrow> (Some e, s2, w2)
                 | (Inr header_type_segment, s2, w2) \<Rightarrow>
                    if header_type_segment = FOLDER_HEADER_TYPE_TOTAL_INFO then
                      (case next_header s2 w2 of
                         (Inl e, s3, w3) \<Rightarrow> (Some e, s3, w3)
                       | (Inr header_data_segment, s3, w3) \<Rightarrow>
                          (case parse_total_info rt header_data_segment of
                             Inl e \<Rightarrow> (Some ValueError, s3, w3)
                           | Inr (parsed_count, parsed_size) \<Rightarrow>
                              (let s4 = s3\<lparr>total_expected_items := Some parsed_count,
                                           total_expected_size := Some parsed_size\<rparr>
                               in case format_bytes rt parsed_size of
                                    Some e \<Rightarrow> (Some e, s4, w3)
                                  | None \<Rightarrow>
                                     (None,
                                      s4\<lparr>current_state := STATE_WAITING_FOR_ITEM_HEADER\<rparr>,
                                      w3))))
                    else if header_type_segment \<in> set [FOLDER_HEADER_TYPE_FOLDER,
                              FOLDER_HEADER_TYPE_FILE, FOLDER_HEADER_TYPE_END_TRANSFER] then
                      (case (utf8_encode header_prefix_segment, utf8_encode header_type_segment) of
                         (Some p, Some t) \<Rightarrow>
                           (None,
                            s2\<lparr>received_buffer :=
                                 p @ [HEADER_SEPARATOR] @ t @ [HEADER_SEPARATOR] @ received_buffer s2,
                               current_state := STATE_WAITING_FOR_ITEM_HEADER,
                               total_expected_items := Some (- 1),
                               total_expected_size := Some (- 1)\<rparr>, w2)
                       | _ \<Rightarrow> (Some ValueError, s2, w2))
                    else (Some ValueError, s2, w2))))"

text \<open>The count and size verification of the \<^verbatim>\<open>END_TRANSFER\<close> branch.\<close>

definition verification_passed :: "fstate \<Rightarrow> bool" where
  "verification_passed s =
     (case (total_expected_items s, total_expected_size s) of
        (Some expected_items, Some expected_size) \<Rightarrow>
          if (expected_items < 0 \<or> expected_size < 0)
             \<or> (items_received_count s \<noteq> expected_items
                 \<or> received_bytes_total s \<noteq> expected_size)
          then False else True
      | _ \<Rightarrow> False)"

text \<open>
  The \<^verbatim>\<open>END_TRANSFER\<close> branch. When the verification fails although both totals are
  known, the two byte counts are formatted for the status messages, which can raise;
  \<open>transfer_success\<close> is assigned after that.
\<close>

definition end_transfer :: "pyrt \<Rightarrow> fstate \<Rightarrow> world \<Rightarrow> fres" where
  "end_transfer rt s w =
     (let s1 = (close_current_file s)\<lparr>current_state := STATE_WAITING_FOR_HANDSHAKE_REQUEST\<rparr>
      in case (if verification_passed s1 then None
               else
                 (case (total_expected_items s1, total_expected_size s1) of
                    (Some expected_items, Some expected_size) \<Rightarrow>
                      if expected_items \<ge> 0 \<and> expected_size \<ge> 0 then
                        (case format_bytes rt (received_bytes_total s1) of
                           Some e \<Rightarrow> Some e
                         | None \<Rightarrow> format_bytes rt expected_size)
                      else None
                  | _ \<Rightarrow> None)) of
           Some e \<Rightarrow> (Some e, s1, w)
         | None \<Rightarrow> (None, s1\<lparr>transfer_success := verification_passed s1\<rparr>, w))"

text \<open>
  The path of an item relative to the session root; \<^verbatim>\<open>ValueError\<close> when the item is not
  under the root. \<open>None\<close> for \<open>session_root_name\<close> would be a \<^verbatim>\<open>TypeError\<close>.
\<close>

definition relative_to_session_root :: "fstate \<Rightarrow> exn + str" where
  "relative_to_session_root s =
     (case session_root_name s of
        None \<Rightarrow> Inl GenericException
      | Some root \<Rightarrow>
         (let normalized_item_path = slashes (normpath (current_item_path_protocol s));
              normalized_session_root_name_clean =
                rstrip_while (\<lambda>c. c = SLASH) (slashes (normpath root));
              normalized_session_root_path_protocol_style =
                normalized_session_root_name_clean @ [SLASH]
          in if prefix normalized_session_root_path_protocol_style normalized_item_path
             then Inr (drop (length normalized_session_root_path_protocol_style)
                         normalized_item_path)
             else if normalized_item_path = normalized_session_root_name_clean then Inr []
             else Inl ValueError))"

text \<open>A \<^verbatim>\<open>FOLDER\<close> item.\<close>

definition folder_item :: "pyrt \<Rightarrow> str \<Rightarrow> fstate \<Rightarrow> world \<Rightarrow> fres" where
  "folder_item rt path_relative_to_session_root s w =
     (let path_for_sanitization =
            (if path_relative_to_session_root \<noteq> []
                \<and> \<not> suffix [SLASH] path_relative_to_session_root
             then path_relative_to_session_root @ [SLASH]
             else path_relative_to_session_root)
      in case (current_save_dir s, session_root_name s) of
           (Some dir, Some root) \<Rightarrow>
            (case sanitize_path rt dir path_for_sanitization w of
               (Inl e, w1) \<Rightarrow> (Some ValueError, s, w1)
             | (Inr sanitized_full_path, w1) \<Rightarrow>
                if normpath sanitized_full_path = normpath dir
                   \<and> strip_while isspace (current_item_path_protocol s)
                       \<noteq> strip_while isspace (root @ [SLASH])
                then (Some ValueError, s, w1)
                else
                  (case makedirs sanitized_full_path w1 of
                     Inl e \<Rightarrow> (Some ValueError, s, w1)
                   | Inr w2 \<Rightarrow>
                      (None, s\<lparr>items_received_count := items_received_count s + 1\<rparr>, w2)))
         | _ \<Rightarrow> (Some ValueError, s, w))"

text \<open>
  A \<^verbatim>\<open>FILE\<close> item, from the destination path on; the size has been read and checked.
  Exceptions of this part are raised again as \<^verbatim>\<open>ValueError\<close>, except the one of the
  empty file, which is a plain \<^verbatim>\<open>Exception\<close>, and what \<^verbatim>\<open>format_bytes\<close> raises in the
  message that follows \<^verbatim>\<open>open\<close> for a file that is not empty.
\<close>

definition prepare_file :: "pyrt \<Rightarrow> str \<Rightarrow> int \<Rightarrow> fstate \<Rightarrow> world \<Rightarrow> fres" where
  "prepare_file rt path_for_sanitization current_file_size s w =
     (case current_save_dir s of
        None \<Rightarrow> (Some ValueError, s, w)
      | Some dir \<Rightarrow>
         (case sanitize_path rt dir path_for_sanitization w of
            (Inl e, w1) \<Rightarrow> (Some ValueError, s, w1)
          | (Inr sanitized_full_path, w1) \<Rightarrow>
             if normpath sanitized_full_path = normpath dir then (Some ValueError, s, w1)
             else
               (let parent_dir = dirname sanitized_full_path
                in case (if parent_dir \<noteq> [] \<and> \<not> path_exists w1 parent_dir
                         then makedirs parent_dir w1 else Inr w1) of
                     Inl e \<Rightarrow> (Some ValueError, s, w1)
                   | Inr w2 \<Rightarrow>
                      if isdir w2 sanitized_full_path then (Some ValueError, s, w2)
                      else
                        (case (case splitext sanitized_full_path of
                                 (base, ext) \<Rightarrow> unique_path w2 base ext 1 sanitized_full_path) of
                           Inl e \<Rightarrow> (Some ValueError, s, w2)
                         | Inr final_file_path \<Rightarrow>
                            (let s1 = close_current_file
                                        (s\<lparr>current_file_path := Some final_file_path\<rparr>)
                             in case current_file_path s1 of
                                  None \<Rightarrow> (Some GenericException, s1, w2)
                                | Some p \<Rightarrow>
                                   if isdir w2 p then (Some ValueError, s1, w2)
                                   else if current_file_size = 0 then
                                     (case open_wb p w2 of
                                        Inl e \<Rightarrow> (Some GenericException, s1, w2)
                                      | Inr w3 \<Rightarrow>
                                         (None,
                                          s1\<lparr>items_received_count := items_received_count s1 + 1,
                                             current_state := STATE_WAITING_FOR_ITEM_HEADER\<rparr>,
                                          w3))
                                   else
                                     (case open_wb p w2 of
                                        Inl e \<Rightarrow> (Some ValueError, s1, w2)
                                      | Inr w3 \<Rightarrow>
                                         (let s2 = s1\<lparr>current_file_handle := Some p\<rparr>
                                          in case format_bytes rt current_file_size of
                                               Some e \<Rightarrow> (Some e, s2, w3)
                                             | None \<Rightarrow>
                                                (None,
                                                 s2\<lparr>current_state := STATE_RECEIVING_FILE_DATA,
                                                    items_received_count :=
                                                      items_received_count s2 + 1\<rparr>,
                                                 w3))))))))"

text \<open>
  The size segment of a \<^verbatim>\<open>FILE\<close> header. A size above the limit is formatted for a
  warning before the \<^verbatim>\<open>ValueError\<close> is raised.
\<close>

definition parse_size :: "pyrt \<Rightarrow> str \<Rightarrow> exn + int" where
  "parse_size rt seg =
     (case py_int rt seg of
        None \<Rightarrow> Inl ValueError
      | Some item_size \<Rightarrow>
         if item_size < 0 then Inl ValueError
         else if item_size > TEST_FILE_SIZE * 10000 then
           (case format_bytes rt item_size of Some e \<Rightarrow> Inl e | None \<Rightarrow> Inl ValueError)
         else Inr item_size)"

definition file_item :: "pyrt \<Rightarrow> str \<Rightarrow> fstate \<Rightarrow> world \<Rightarrow> fres" where
  "file_item rt path_relative_to_session_root s w =
     (let path_for_sanitization =
            (if suffix [SLASH] path_relative_to_session_root
             then rstrip_while (\<lambda>c. c = SLASH) path_relative_to_session_root
             else path_relative_to_session_root)
      in if path_for_sanitization = [] then (Some ValueError, s, w)
         else
           (case next_header s w of
              (Inl e, s1, w1) \<Rightarrow> (Some e, s1, w1)
            | (Inr header_size_segment, s1, w1) \<Rightarrow>
               (case parse_size rt header_size_segment of
                  Inl e \<Rightarrow> (Some e, s1, w1)
                | Inr item_size \<Rightarrow>
                   prepare_file rt path_for_sanitization item_size
                     (s1\<lparr>current_file_bytes_received := 0,
                         current_file_bytes_expected := item_size\<rparr>) w1)))"

text \<open>
  State \<^verbatim>\<open>WAITING_FOR_ITEM_HEADER\<close>. A type segment that is none of \<^verbatim>\<open>END_TRANSFER\<close>,
  \<^verbatim>\<open>FOLDER\<close>, \<^verbatim>\<open>FILE\<close> falls through the \<^verbatim>\<open>if\<close>/\<^verbatim>\<open>elif\<close> and changes nothing else.
\<close>

definition item_header :: "pyrt \<Rightarrow> fstate \<Rightarrow> world \<Rightarrow> fres" where
  "item_header rt s w =
     (case next_header s w of
        (Inl e, s1, w1) \<Rightarrow> (Some e, s1, w1)
      | (Inr header_prefix_segment, s1, w1) \<Rightarrow>
         (case is_handshake_request header_prefix_segment of
            Inl e \<Rightarrow> (Some e, s1, w1)
          | Inr True \<Rightarrow>
              (None, s1\<lparr>current_state := STATE_WAITING_FOR_HANDSHAKE_REQUEST\<rparr>, w1)
          | Inr False \<Rightarrow>
              if header_prefix_segment \<noteq> FOLDER_PROTOCOL_PREFIX then (Some ValueError, s1, w1)
              else
                (case next_header s1 w1 of
                   (Inl e, s2, w2) \<Rightarrow> (Some e, s2, w2)
                 | (Inr header_type_segment, s2, w2) \<Rightarrow>
                    if header_type_segment = FOLDER_HEADER_TYPE_END_TRANSFER
                    then end_transfer rt s2 w2
                    else if header_type_segment \<in> set [FOLDER_HEADER_TYPE_FOLDER,
                              FOLDER_HEADER_TYPE_FILE] then
                      (case next_header s2 w2 of
                         (Inl e, s3, w3) \<Rightarrow> (Some e, s3, w3)
                       | (Inr header_path_segment, s3, w3) \<Rightarrow>
                          (let s4 = s3\<lparr>current_item_path_protocol := header_path_segment\<rparr>
                           in case relative_to_session_root s4 of
                                Inl e \<Rightarrow> (Some e, s4, w3)
                              | Inr path_relative_to_session_root \<Rightarrow>
                                 if header_type_segment = FOLDER_HEADER_TYPE_FOLDER
                                 then folder_item rt path_relative_to_session_root s4 w3
                                 else file_item rt path_relative_to_session_root s4 w3))
                    else (None, s2, w2))))"

text \<open>
  State \<^verbatim>\<open>RECEIVING_FILE_DATA\<close>, step 1 of one round of the inner loop: write what the
  carry-over buffer holds for the current file. A missing handle would be an
  \<^verbatim>\<open>AttributeError\<close>, raised again as a plain \<^verbatim>\<open>Exception\<close>.
\<close>

definition drain_buffer :: "fstate \<Rightarrow> world \<Rightarrow> fres" where
  "drain_buffer s w =
     (let bytes_needed_for_file = current_file_bytes_expected s - current_file_bytes_received s;
          bytes_available_in_buffer = int (length (received_buffer s));
          bytes_to_process_from_buffer = min bytes_available_in_buffer bytes_needed_for_file
      in if bytes_available_in_buffer > 0 \<and> bytes_to_process_from_buffer > 0 then
           (case current_file_handle s of
              None \<Rightarrow> (Some GenericException, s, w)
            | Some h \<Rightarrow>
               (None,
                s\<lparr>current_file_bytes_received :=
                     current_file_bytes_received s + bytes_to_process_from_buffer,
                   received_bytes_total := received_bytes_total s + bytes_to_process_from_buffer,
                   received_buffer := drop (nat bytes_to_process_from_buffer) (received_buffer s)\<rparr>,
                file_write h (take (nat bytes_to_process_from_buffer) (received_buffer s)) w))
         else (None, s, w))"

text \<open>
  The inner loop \<^verbatim>\<open>while current_file_bytes_received < current_file_bytes_expected\<close>.
  The size of the read is computed from \<open>bytes_needed_for_file\<close> as it was before step
  1. With \<open>receive_buffer_size \<le> 0\<close> and an empty buffer the loop reads nothing and
  goes round for ever unless the cancel event is set: the function is partial, \<open>None\<close>
  is a run that does not end.
\<close>

partial_function (option) receive_file_data :: "int \<Rightarrow> fstate \<Rightarrow> world \<Rightarrow> fres option" where
  "receive_file_data receive_buffer_size s w =
     (if \<not> current_file_bytes_received s < current_file_bytes_expected s then Some (None, s, w)
      else
        (case is_set w of
           (cancelled, w1) \<Rightarrow>
            if cancelled then Some (None, s\<lparr>is_cancelled := True\<rparr>, w1)
            else
            (let bytes_needed_for_file =
                   current_file_bytes_expected s - current_file_bytes_received s;
                 bytes_available_in_buffer = int (length (received_buffer s))
             in case drain_buffer s w1 of
                  (Some e, s1, w2) \<Rightarrow> Some (Some e, s1, w2)
                | (None, s1, w2) \<Rightarrow>
                   if bytes_available_in_buffer > 0
                      \<and> current_file_bytes_received s1 = current_file_bytes_expected s1
                   then Some (None, s1, w2)
                   else if current_file_bytes_received s1 < current_file_bytes_expected s1 then
                     (let bytes_to_read_from_socket =
                            max 0 (min receive_buffer_size bytes_needed_for_file)
                      in if bytes_to_read_from_socket > 0 then
                           (case sock_recv (nat bytes_to_read_from_socket) w2 of
                              (Inl e, w3) \<Rightarrow>
                                if e = SocketTimeout
                                then receive_file_data receive_buffer_size s1 w3
                                else Some (Some GenericException, s1, w3)
                            | (Inr chunk, w3) \<Rightarrow>
                                if chunk = [] then
                                  (if current_file_bytes_received s1
                                        < current_file_bytes_expected s1
                                   then Some (Some ConnectionResetError, s1, w3)
                                   else Some (None, s1, w3))
                                else receive_file_data receive_buffer_size
                                       (s1\<lparr>received_buffer := received_buffer s1 @ chunk\<rparr>) w3)
                         else receive_file_data receive_buffer_size s1 w2)
                   else receive_file_data receive_buffer_size s1 w2)))"

declare receive_file_data.simps [code]

text \<open>The whole state \<^verbatim>\<open>RECEIVING_FILE_DATA\<close>: the inner loop and the test after it.\<close>

definition receiving_file_data :: "int \<Rightarrow> fstate \<Rightarrow> world \<Rightarrow> fres option" where
  "receiving_file_data receive_buffer_size s w =
     (case receive_file_data receive_buffer_size s w of
        None \<Rightarrow> None
      | Some (Some e, s1, w1) \<Rightarrow> Some (Some e, s1, w1)
      | Some (None, s1, w1) \<Rightarrow>
         if current_file_bytes_received s1 = current_file_bytes_expected s1
         then Some (None,
                    (close_current_file s1)\<lparr>current_state := STATE_WAITING_FOR_ITEM_HEADER\<rparr>, w1)
         else Some (None, s1, w1))"

text \<open>
  State \<^verbatim>\<open>WAITING_FOR_HANDSHAKE_REQUEST\<close>: the response is sent at once, with
  \<open>transfer_success\<close> as the verification result; nothing is read.
\<close>

definition handshake_state :: "fstate \<Rightarrow> world \<Rightarrow> fres" where
  "handshake_state s w =
     (None, s\<lparr>current_state := STATE_HANDSHAKE_COMPLETE\<rparr>,
      perform_folder_handshake_server (transfer_success s) w)"

text \<open>
  The \<^verbatim>\<open>try\<close> block of one round of the main loop: the \<^verbatim>\<open>if\<close>/\<^verbatim>\<open>elif\<close> chain over
  \<open>current_state\<close>. The state \<^verbatim>\<open>RECEIVING_FILE_DATA\<close> without an open handle matches no
  branch.
\<close>

definition loop_body :: "pyrt \<Rightarrow> int \<Rightarrow> fstate \<Rightarrow> world \<Rightarrow> fres option" where
  "loop_body rt receive_buffer_size s w =
     (case current_state s of
        STATE_WAITING_FOR_ROOT_FOLDER_HEADER \<Rightarrow> Some (root_folder_header rt s w)
      | STATE_WAITING_FOR_TOTAL_INFO_HEADER \<Rightarrow> Some (total_info_header rt s w)
      | STATE_WAITING_FOR_ITEM_HEADER \<Rightarrow> Some (item_header rt s w)
      | STATE_RECEIVING_FILE_DATA \<Rightarrow>
          if current_file_handle s \<noteq> None then receiving_file_data receive_buffer_size s w
          else Some (None, s, w)
      | STATE_WAITING_FOR_HANDSHAKE_REQUEST \<Rightarrow> Some (handshake_state s w)
      | STATE_HANDSHAKE_COMPLETE \<Rightarrow> Some (None, s, w))"

text \<open>
  The main loop \<^verbatim>\<open>while not cancel_transfer_event.is_set() and current_state !=
  STATE_HANDSHAKE_COMPLETE\<close>, with the \<^verbatim>\<open>except\<close> clause of its body, which closes the
  current file, sets \<open>is_cancelled\<close> and raises the exception again.
\<close>

partial_function (option) main_loop :: "pyrt \<Rightarrow> int \<Rightarrow> fstate \<Rightarrow> world \<Rightarrow> fres option" where
  "main_loop rt receive_buffer_size s w =
     (case is_set w of
        (cancelled, w1) \<Rightarrow>
         if cancelled then Some (None, s, w1)
         else if current_state s = STATE_HANDSHAKE_COMPLETE then Some (None, s, w1)
         else
           (case loop_body rt receive_buffer_size s w1 of
              None \<Rightarrow> None
            | Some (Some e, s1, w2) \<Rightarrow>
               Some (Some e,
                     (let s2 = close_current_file s1
                      in if e \<noteq> CancelledError then s2\<lparr>is_cancelled := True\<rparr> else s2),
                     w2)
            | Some (None, s1, w2) \<Rightarrow> main_loop rt receive_buffer_size s1 w2))"

declare main_loop.simps [code]

text \<open>The \<^verbatim>\<open>finally\<close> block: close the file, remove an incomplete file, close the socket.\<close>

definition folder_finally :: "fstate \<Rightarrow> world \<Rightarrow> fstate \<times> world" where
  "folder_finally s w =
     (let s1 = close_current_file s;
          w1 = (case current_file_path s1 of
                  None \<Rightarrow> w
                | Some p \<Rightarrow>
                   if \<not> transfer_success s1 \<and> path_exists w p
                      \<and> current_file_bytes_expected s1 > 0
                      \<and> current_file_bytes_received s1 < current_file_bytes_expected s1
                   then remove_file p w else w)
      in (s1, w1\<lparr>sock_closed := True\<rparr>))"

text \<open>
  \<^verbatim>\<open>handle_client_folder_transfer(client_socket, address, gui_callbacks,
  cancel_transfer_event, receive_buffer_size, initial_buffer)\<close>: the final variables and
  the final world, or \<open>None\<close> when the handler does not return.
\<close>

definition handle_client_folder_transfer ::
  "pyrt \<Rightarrow> int \<Rightarrow> bytes \<Rightarrow> world \<Rightarrow> (fstate \<times> world) option" where
  "handle_client_folder_transfer rt receive_buffer_size initial_buffer w =
     (let base = abspath w (ustr ''received_folders'');
          s0 = (initial_fstate initial_buffer)\<lparr>received_files_base_abs := Some base\<rparr>
      in case (if \<not> path_exists w base then makedirs base w else Inr w) of
           Inl e \<Rightarrow> Some (folder_finally (s0\<lparr>is_cancelled := True\<rparr>) w)
         | Inr w1 \<Rightarrow>
            (case main_loop rt receive_buffer_size s0 w1 of
               None \<Rightarrow> None
             | Some (None, s1, w2) \<Rightarrow>
                (case is_set w2 of
                   (True, w3) \<Rightarrow>
                     Some (folder_finally (s1\<lparr>is_cancelled := True, transfer_success := False\<rparr>) w3)
                 | (False, w3) \<Rightarrow>
                     if current_state s1 = STATE_HANDSHAKE_COMPLETE
                     then Some (folder_finally s1 w3)
                     else Some (folder_finally (s1\<lparr>transfer_success := False\<rparr>) w3))
             | Some (Some e, s1, w2) \<Rightarrow>
                (let s2 = (if e \<noteq> CancelledError \<and> \<not> is_cancelled (close_current_file s1)
                           then (close_current_file s1)\<lparr>is_cancelled := True\<rparr>
                           else close_current_file s1);
                     w3 = (if e = CancelledError then snd (is_set w2) else w2)
                 in Some (folder_finally (s2\<lparr>transfer_success := False\<rparr>) w3))))"

subsection \<open>single_file_handler.py: \<^verbatim>\<open>handle_client_connection\<close>\<close>

text \<open>
  The local variables of the handler. \<open>file_handle\<close> is the path the open handle writes
  to. The two flags carry a suffix, their names being fields of \<open>fstate\<close> already.
\<close>

record sstate =
  filesize :: int
  filename_from_header :: str
  current_buffer_size_from_header :: int
  received_bytes :: int
  is_cancelled_sf :: bool
  transfer_success_sf :: bool
  file_handle :: "str option"
  file_path :: "str option"
  current_remaining_buffer :: bytes

definition initial_sstate :: "bytes \<Rightarrow> sstate" where
  "initial_sstate initial_buffer =
     \<lparr>filesize = 0, filename_from_header = ustr ''N/A'',
      current_buffer_size_from_header = 4096, received_bytes = 0,
      is_cancelled_sf = False, transfer_success_sf = False,
      file_handle = None, file_path = None,
      current_remaining_buffer = initial_buffer\<rparr>"

text \<open>
  The third header part: \<^verbatim>\<open>int(header_part3)\<close>, with the default 4096 when it raises or
  the value is not positive.
\<close>

definition buffer_size_hint :: "pyrt \<Rightarrow> str \<Rightarrow> int" where
  "buffer_size_hint rt header_part3 =
     (case py_int rt header_part3 of
        None \<Rightarrow> 4096
      | Some n \<Rightarrow> if n \<le> 0 then 4096 else n)"

text \<open>
  The three header parts \<^verbatim>\<open>filename|filesize|buffersize|\<close>. A size above the limit is
  formatted for a warning before the \<^verbatim>\<open>ValueError\<close> is raised.
\<close>

definition read_single_file_header :: "pyrt \<Rightarrow> sstate \<Rightarrow> world \<Rightarrow> exn option \<times> sstate \<times> world" where
  "read_single_file_header rt s w =
     (case read_header w (current_remaining_buffer s) of
        (Inl e, w1) \<Rightarrow> (Some e, s, w1)
      | (Inr (header_part1, buf1), w1) \<Rightarrow>
         (let s1 = s\<lparr>current_remaining_buffer := buf1, filename_from_header := header_part1\<rparr>
          in case read_header w1 buf1 of
               (Inl e, w2) \<Rightarrow> (Some e, s1, w2)
             | (Inr (header_part2, buf2), w2) \<Rightarrow>
                (let s2 = s1\<lparr>current_remaining_buffer := buf2\<rparr>
                 in case py_int rt header_part2 of
                      None \<Rightarrow> (Some ValueError, s2, w2)
                    | Some n \<Rightarrow>
                       (let s3 = s2\<lparr>filesize := n\<rparr>
                        in if n < 0 then (Some ValueError, s3, w2)
                           else if n > TEST_FILE_SIZE * 10000 then
                             (case format_bytes rt n of
                                Some e \<Rightarrow> (Some e, s3, w2)
                              | None \<Rightarrow> (Some ValueError, s3, w2))
                           else
                             (case read_header w2 buf2 of
                                (Inl e, w3) \<Rightarrow> (Some e, s3, w3)
                              | (Inr (header_part3, buf3), w3) \<Rightarrow>
                                 (None,
                                  s3\<lparr>current_remaining_buffer := buf3,
                                     current_buffer_size_from_header :=
                                       buffer_size_hint rt header_part3\<rparr>,
                                  w3))))))"

text \<open>
  The destination path: the base directory \<^verbatim>\<open>received_files\<close>, the sanitized base name,
  and a counter when the name is taken.
\<close>

definition prepare_destination :: "pyrt \<Rightarrow> sstate \<Rightarrow> world \<Rightarrow> (exn + str) \<times> world" where
  "prepare_destination rt s w =
     (let save_filename_raw = basename (filename_from_header s);
          received_files_base_abs = abspath w (ustr ''received_files'')
      in case (if \<not> path_exists w received_files_base_abs
               then makedirs received_files_base_abs w else Inr w) of
           Inl e \<Rightarrow> (Inl OSError, w)
         | Inr w1 \<Rightarrow>
            (case sanitize_path rt received_files_base_abs save_filename_raw w1 of
               (Inl e, w2) \<Rightarrow> (Inl e, w2)
             | (Inr file_path_base, w2) \<Rightarrow>
                (case splitext file_path_base of
                   (base, ext) \<Rightarrow> (unique_path w2 base ext 1 file_path_base, w2))))"

text \<open>
  The receive loop \<^verbatim>\<open>while received_bytes < filesize\<close>. Every exception inside it sets
  \<open>is_cancelled\<close> and leaves the loop; a missing handle would make the write raise.
\<close>

function receive_loop :: "int \<Rightarrow> sstate \<Rightarrow> world \<Rightarrow> sstate \<times> world" where
  "receive_loop recv_buffer_size_for_loop s w =
     (if \<not> received_bytes s < filesize s then (s, w)
      else
        (case is_set w of
           (True, w1) \<Rightarrow> (s\<lparr>is_cancelled_sf := True\<rparr>, w1)
         | (False, w1) \<Rightarrow>
            (let bytes_to_read_now = min recv_buffer_size_for_loop (filesize s - received_bytes s)
             in if bytes_to_read_now \<le> 0 then (s, w1)
                else
                  (case sock_recv (nat bytes_to_read_now) w1 of
                     (Inl e, w2) \<Rightarrow>
                       if e = SocketTimeout then receive_loop recv_buffer_size_for_loop s w2
                       else (s\<lparr>is_cancelled_sf := True\<rparr>, w2)
                   | (Inr bytes_read_chunk, w2) \<Rightarrow>
                       if bytes_read_chunk = [] then (s\<lparr>is_cancelled_sf := True\<rparr>, w2)
                       else
                         (case file_handle s of
                            None \<Rightarrow> (s\<lparr>is_cancelled_sf := True\<rparr>, w2)
                          | Some h \<Rightarrow>
                             receive_loop recv_buffer_size_for_loop
                               (s\<lparr>received_bytes :=
                                    received_bytes s + int (length bytes_read_chunk)\<rparr>)
                               (file_write h bytes_read_chunk w2))))))"
  by pat_completeness auto
termination
proof (relation "measure (\<lambda>(m, s, w). weight (sock_in w))", goal_cases)
  case 1
  show ?case by simp
next
  case (2 m s w x1 w1 n r w2 e)
  have s: "sock_in w1 = sock_in w"
    using 2(2) by (auto simp: is_set_def split: list.splits)
  from 2 obtain q where q: "recv (nat n) (sock_in w) = (Inl SocketTimeout, q)" "sock_in w2 = q"
    by (auto simp: s sock_recv_def split: prod.splits)
  from q(1) have "weight q < weight (sock_in w)"
    by (cases "(nat n, sock_in w)" rule: recv.cases) (auto split: if_splits)
  then show ?case using q(2) by simp
next
  case (3 m s w x1 w1 n r w2 chunk h)
  have s: "sock_in w1 = sock_in w"
    using 3(2) by (auto simp: is_set_def split: list.splits)
  from 3 obtain q where q: "recv (nat n) (sock_in w) = (Inr chunk, q)" "sock_in w2 = q"
      "chunk \<noteq> []" "0 < nat n"
    by (auto simp: s sock_recv_def split: prod.splits)
  from q(1,3,4) have "weight q < weight (sock_in w)"
    by (cases "(nat n, sock_in w)" rule: recv.cases) (auto split: if_splits)
  then show ?case using q(2) by (simp add: file_write_def)
qed

declare receive_loop.simps [simp del]

text \<open>
  What the carry-over buffer holds is written first; the buffer is then emptied, also of
  bytes beyond \<open>filesize\<close>.
\<close>

definition write_initial_buffer :: "str \<Rightarrow> sstate \<Rightarrow> world \<Rightarrow> sstate \<times> world" where
  "write_initial_buffer h s w =
     (if current_remaining_buffer s \<noteq> [] then
        (let bytes_to_write_now =
               min (int (length (current_remaining_buffer s))) (filesize s - received_bytes s)
         in if bytes_to_write_now > 0
            then (s\<lparr>received_bytes := received_bytes s + bytes_to_write_now,
                    current_remaining_buffer := []\<rparr>,
                  file_write h (take (nat bytes_to_write_now) (current_remaining_buffer s)) w)
            else (s\<lparr>current_remaining_buffer := []\<rparr>, w))
      else (s, w))"

text \<open>
  The inner \<^verbatim>\<open>try\<close> with its \<^verbatim>\<open>except Exception\<close> and its \<^verbatim>\<open>finally\<close>, which closes the
  handle and removes an incomplete file. \<open>p\<close> is \<open>file_path\<close>.
\<close>

definition receive_file :: "int \<Rightarrow> str \<Rightarrow> sstate \<Rightarrow> world \<Rightarrow> sstate \<times> world" where
  "receive_file receive_buffer_size p s w =
     (case (if filesize s = 0 then
              (case open_wb p w of
                 Inl e \<Rightarrow> (s\<lparr>is_cancelled_sf := True, transfer_success_sf := False\<rparr>, w)
               | Inr w1 \<Rightarrow> (s\<lparr>transfer_success_sf := True\<rparr>, w1))
            else
              (case open_wb p w of
                 Inl e \<Rightarrow> (s\<lparr>is_cancelled_sf := True, transfer_success_sf := False\<rparr>, w)
               | Inr w1 \<Rightarrow>
                  (case write_initial_buffer p (s\<lparr>file_handle := Some p\<rparr>) w1 of
                     (s1, w2) \<Rightarrow>
                      (case receive_loop receive_buffer_size s1 w2 of
                         (s2, w3) \<Rightarrow>
                          (if \<not> is_cancelled_sf s2 \<and> received_bytes s2 \<ge> filesize s2
                           then s2\<lparr>transfer_success_sf := True\<rparr> else s2, w3))))) of
        (s3, w4) \<Rightarrow>
         (s3\<lparr>file_handle := None\<rparr>,
          if \<not> transfer_success_sf s3 \<and> path_exists w4 p \<and> filesize s3 > 0
             \<and> received_bytes s3 < filesize s3
          then remove_file p w4 else w4))"

text \<open>
  The three status messages before the destination is prepared, with \<^verbatim>\<open>format_bytes\<close>
  of the file size, of the receiver's buffer size and of the sender's hint: the
  exception they raise, if any.
\<close>

definition status_messages :: "pyrt \<Rightarrow> int \<Rightarrow> sstate \<Rightarrow> exn option" where
  "status_messages rt receive_buffer_size s =
     (case format_bytes rt (filesize s) of
        Some e \<Rightarrow> Some e
      | None \<Rightarrow>
         (case format_bytes rt receive_buffer_size of
            Some e \<Rightarrow> Some e
          | None \<Rightarrow> format_bytes rt (current_buffer_size_from_header s)))"

text \<open>
  The handler after the header: the cancel test, the status messages, the destination
  path and the reception of the file. What \<^verbatim>\<open>format_bytes\<close> raises reaches the outer
  \<^verbatim>\<open>except Exception\<close>.
\<close>

definition receive_after_header :: "pyrt \<Rightarrow> int \<Rightarrow> sstate \<Rightarrow> world \<Rightarrow> sstate \<times> world" where
  "receive_after_header rt receive_buffer_size s1 w1 =
     (case is_set w1 of
        (True, w2) \<Rightarrow> (s1\<lparr>is_cancelled_sf := True\<rparr>, w2)
      | (False, w2) \<Rightarrow>
         (case status_messages rt receive_buffer_size s1 of
            Some e \<Rightarrow> (s1\<lparr>is_cancelled_sf := True, transfer_success_sf := False\<rparr>, w2)
          | None \<Rightarrow>
             (case prepare_destination rt s1 w2 of
                (Inl e, w3) \<Rightarrow> (s1\<lparr>is_cancelled_sf := True\<rparr>, w3)
              | (Inr final_file_path, w3) \<Rightarrow>
                 receive_file receive_buffer_size final_file_path
                   (s1\<lparr>file_path := Some final_file_path\<rparr>) w3)))"

text \<open>
  \<^verbatim>\<open>handle_client_connection(client_socket, address, gui_callbacks, cancel_transfer_event,
  receive_buffer_size, initial_buffer)\<close>: the final variables and the final world. Every
  exception is caught; the socket is closed at the end.
\<close>

definition handle_client_connection :: "pyrt \<Rightarrow> int \<Rightarrow> bytes \<Rightarrow> world \<Rightarrow> sstate \<times> world" where
  "handle_client_connection rt receive_buffer_size initial_buffer w =
     (case (case read_single_file_header rt (initial_sstate initial_buffer) w of
              (Some e, s1, w1) \<Rightarrow>
                (s1\<lparr>is_cancelled_sf := True, transfer_success_sf := False\<rparr>, w1)
            | (None, s1, w1) \<Rightarrow> receive_after_header rt receive_buffer_size s1 w1) of
        (s', w') \<Rightarrow> (s', w'\<lparr>sock_closed := True\<rparr>))"

subsection \<open>server.py: the protocol detection of \<^verbatim>\<open>run_tcp_server_task\<close>\<close>

datatype receiver = FolderReceiver | SingleFileReceiver

text \<open>
  What happens to an accepted connection: it is closed and no handler is started, or a
  handler thread is started with \<open>receive_buffer_size\<close> and \<open>initial_buffer\<close>.
\<close>

datatype dispatch = ClosedWithoutHandler | Started receiver int bytes

text \<open>\<^verbatim>\<open>f"{config.FOLDER_PROTOCOL_PREFIX}{config.HEADER_SEPARATOR}".encode('utf-8')\<close>\<close>

definition prefix_check_bytes :: bytes where
  "prefix_check_bytes =
     (case utf8_encode (FOLDER_PROTOCOL_PREFIX @ [of_char HEADER_SEPARATOR]) of
        Some b \<Rightarrow> b | None \<Rightarrow> [])"

text \<open>
  The inner \<^verbatim>\<open>try\<close> of the accept loop: one \<^verbatim>\<open>recv\<close> of \<^verbatim>\<open>BUFFER_SIZE_FOR_HEADER\<close> bytes;
  \<open>None\<close> is \<open>protocol_detection_failed\<close>.
\<close>

definition protocol_detection :: "world \<Rightarrow> (receiver \<times> bytes) option \<times> world" where
  "protocol_detection w =
     (case sock_recv (nat BUFFER_SIZE_FOR_HEADER) w of
        (Inl e, w1) \<Rightarrow> (None, w1)
      | (Inr initial_buffer, w1) \<Rightarrow>
          if initial_buffer = [] then (None, w1)
          else if prefix prefix_check_bytes initial_buffer
          then (Some (FolderReceiver, initial_buffer), w1)
          else (Some (SingleFileReceiver, initial_buffer), w1))"

text \<open>
  The buffer size of the handlers: the answer of \<^verbatim>\<open>get_receive_buffer_size_cb\<close> when it
  is a positive integer (\<open>None\<close>: no callback, an exception, or no integer), else 65536.
\<close>

definition choose_receive_buffer_size :: "int option \<Rightarrow> int" where
  "choose_receive_buffer_size chosen_recv_buffer =
     (case chosen_recv_buffer of
        Some n \<Rightarrow> if n > 0 then n else 65536
      | None \<Rightarrow> 65536)"

text \<open>One accepted connection, up to the start of the handler thread.\<close>

definition accepted_connection :: "int option \<Rightarrow> world \<Rightarrow> dispatch \<times> world" where
  "accepted_connection chosen_recv_buffer w =
     (case protocol_detection w of
        (None, w1) \<Rightarrow> (ClosedWithoutHandler, w1\<lparr>sock_closed := True\<rparr>)
      | (Some (protocol_detected, initial_buffer), w1) \<Rightarrow>
          (Started protocol_detected (choose_receive_buffer_size chosen_recv_buffer)
             initial_buffer, w1))"

subsection \<open>Rounds of the main loop of the folder receiver\<close>

text \<open>
  One round of the main loop that ends without an exception: the loop test passes (the
  cancel event is not set, the handshake is not complete) and the body turns the
  variables \<open>s\<close> and the world \<open>w\<close> into \<open>s'\<close> and \<open>w'\<close>.
\<close>

definition round :: "pyrt \<Rightarrow> int \<Rightarrow> fstate \<times> world \<Rightarrow> fstate \<times> world \<Rightarrow> bool" where
  "round rt receive_buffer_size c c' \<longleftrightarrow>
     (case is_set (snd c) of
        (cancelled, w1) \<Rightarrow>
          \<not> cancelled \<and> current_state (fst c) \<noteq> STATE_HANDSHAKE_COMPLETE
          \<and> loop_body rt receive_buffer_size (fst c) w1 = Some (None, c'))"

text \<open>
  The declared size of the file that a round has finished receiving: the round started
  in \<^verbatim>\<open>RECEIVING_FILE_DATA\<close> and ended in \<^verbatim>\<open>WAITING_FOR_ITEM_HEADER\<close>. (A file of declared
  size 0 is finished at its header and has no such round.)
\<close>

definition admitted :: "fstate \<Rightarrow> fstate \<Rightarrow> int list" where
  "admitted s s' =
     (if current_state s = STATE_RECEIVING_FILE_DATA
         \<and> current_state s' = STATE_WAITING_FOR_ITEM_HEADER
      then [current_file_bytes_expected s'] else [])"

text \<open>
  \<open>session rt n c sizes c'\<close>: rounds of the main loop lead from \<open>c\<close> to \<open>c'\<close>, and \<open>sizes\<close>
  are the declared sizes of the files whose data these rounds have received in full,
  oldest first.
\<close>

inductive session ::
  "pyrt \<Rightarrow> int \<Rightarrow> fstate \<times> world \<Rightarrow> int list \<Rightarrow> fstate \<times> world \<Rightarrow> bool"
  for rt :: pyrt and receive_buffer_size :: int and c :: "fstate \<times> world" where
  start: "session rt receive_buffer_size c [] c"
| step: "session rt receive_buffer_size c sizes c'
         \<Longrightarrow> round rt receive_buffer_size c' c''
         \<Longrightarrow> session rt receive_buffer_size c (sizes @ admitted (fst c') (fst c'')) c''"

text \<open>
  What the inner loop of \<^verbatim>\<open>RECEIVING_FILE_DATA\<close> does to the counters: the total grows by
  what the current file has received, which does not go beyond the expected size; the
  other variables of the verification stay.
\<close>

definition progress :: "fstate \<Rightarrow> fstate \<Rightarrow> bool" where
  "progress s s' \<longleftrightarrow>
     received_bytes_total s' - received_bytes_total s
       = current_file_bytes_received s' - current_file_bytes_received s
     \<and> current_file_bytes_received s \<le> current_file_bytes_received s'
     \<and> (current_file_bytes_received s \<le> current_file_bytes_expected s
          \<longrightarrow> current_file_bytes_received s' \<le> current_file_bytes_expected s')
     \<and> current_file_bytes_expected s' = current_file_bytes_expected s
     \<and> total_expected_items s' = total_expected_items s
     \<and> total_expected_size s' = total_expected_size s
     \<and> items_received_count s' = items_received_count s
     \<and> transfer_success s' = transfer_success s
     \<and> current_state s' = current_state s
     \<and> current_file_handle s' = current_file_handle s"


text \<open>
  The first \<open>k\<close> rounds of the main loop from \<open>c\<close>, computed: the sizes of the files
  received in full (after \<open>sizes\<close>) and where the rounds lead; \<open>None\<close> when one of them
  is not a round that ends without an exception.
\<close>

fun rounds ::
  "nat \<Rightarrow> pyrt \<Rightarrow> int \<Rightarrow> int list \<Rightarrow> fstate \<times> world \<Rightarrow> (int list \<times> fstate \<times> world) option" where
  "rounds 0 rt n sizes c = Some (sizes, c)"
| "rounds (Suc k) rt n sizes c =
     (case is_set (snd c) of
        (cancelled, w1) \<Rightarrow>
          if cancelled \<or> current_state (fst c) = STATE_HANDSHAKE_COMPLETE then None
          else
            (case loop_body rt n (fst c) w1 of
               Some (None, c') \<Rightarrow> rounds k rt n (sizes @ admitted (fst c) (fst c')) c'
             | _ \<Rightarrow> None))"

subsection \<open>Concrete values for the examples\<close>

text \<open>
  A world with the socket queue \<open>q\<close>, where nothing is cancelled, no deadline passes
  and every send succeeds; the working directory is \<^verbatim>\<open>/srv\<close>.
\<close>

definition quiet_world :: "recv_ev list \<Rightarrow> world" where
  "quiet_world q =
     \<lparr>sock_in = q, recv_log = [], sock_out = [], sock_closed = False, send_q = [], cancel_q = [],
      deadline_q = [], now = 0, cwd = ustr ''/srv'', dirs = {ustr ''/srv''},
      files = Map.empty\<rparr>"

text \<open>
  The ASCII part of the interpreter's tables: letters and digits, and decimal numerals;
  and the exact value of \<open>\<lfloor>log\<^sub>1\<^sub>0\<^sub>2\<^sub>4 n\<rfloor>\<close>, which the floating-point computation
  gives for the numbers of the examples.
\<close>

function exact_log_1024 :: "int \<Rightarrow> int" where
  "exact_log_1024 n = (if n < 1024 then 0 else 1 + exact_log_1024 (n div 1024))"
  by pat_completeness auto
termination
  by (relation "measure nat") auto

declare exact_log_1024.simps [simp del]

fun ascii_nat :: "str \<Rightarrow> int \<Rightarrow> int option" where
  "ascii_nat [] acc = Some acc"
| "ascii_nat (c # cs) acc =
     (if 48 \<le> c \<and> c \<le> 57 then ascii_nat cs (acc * 10 + int (c - 48)) else None)"

definition ascii_int :: "str \<Rightarrow> int option" where
  "ascii_int s =
     (case s of
        [] \<Rightarrow> None
      | c # cs \<Rightarrow>
          if c = 45 then (if cs = [] then None else map_option uminus (ascii_nat cs 0))
          else ascii_nat s 0)"

definition ascii_rt :: pyrt where
  "ascii_rt =
     \<lparr>isalnum = (\<lambda>c. (48 \<le> c \<and> c \<le> 57) \<or> (65 \<le> c \<and> c \<le> 90) \<or> (97 \<le> c \<and> c \<le> 122)),
      py_int = ascii_int, floor_log_1024 = exact_log_1024\<rparr>"

text \<open>
  A receiver that waits for an item header, with the carry-over buffer \<open>buf\<close>, the
  expected totals \<open>ei\<close> and \<open>es\<close>, and \<open>n\<close> items and \<open>b\<close> bytes received so far.
\<close>

definition waiting_for_item :: "bytes \<Rightarrow> int option \<Rightarrow> int option \<Rightarrow> int \<Rightarrow> int \<Rightarrow> fstate" where
  "waiting_for_item buf ei es n b =
     (initial_fstate buf)
       \<lparr>current_save_dir := Some (ustr ''/srv/received_folders/photos''),
        session_root_name := Some (ustr ''photos''),
        received_files_base_abs := Some (ustr ''/srv/received_folders''),
        received_bytes_total := b, items_received_count := n,
        total_expected_items := ei, total_expected_size := es,
        current_state := STATE_WAITING_FOR_ITEM_HEADER\<rparr>"


definition served_world :: "recv_ev list \<Rightarrow> world" where
  "served_world q = (quiet_world q)\<lparr>dirs := {ustr ''/srv'', ustr ''/srv/received_folders''}\<rparr>"

text \<open>A receiver that waits for \<^verbatim>\<open>TOTAL_INFO\<close> after the root header.\<close>

definition waiting_for_total_info :: "bytes \<Rightarrow> fstate" where
  "waiting_for_total_info buf =
     (waiting_for_item buf None None 1 0)\<lparr>current_state := STATE_WAITING_FOR_TOTAL_INFO_HEADER\<rparr>"

section \<open>Properties\<close>

subsection \<open>The codec: decoding inverts encoding\<close>

lemma radix64_2: "(x::nat) * 64 + y = z \<Longrightarrow> z * 64 + w = c \<Longrightarrow> x * 4096 + y * 64 + w = c"
  by auto

lemma radix64_3:
  "(x::nat) * 64 + y = z \<Longrightarrow> z * 64 + w = u \<Longrightarrow> u * 64 + v = c
   \<Longrightarrow> x * 262144 + y * 4096 + w * 64 + v = c"
  by auto

lemma split_cp3: "(cp::nat) div 4096 * 4096 + cp div 64 mod 64 * 64 + cp mod 64 = cp"
proof -
  have c: "cp div 4096 = cp div 64 div 64" by (simp add: div_mult2_eq)
  have a: "cp div 64 div 64 * 64 + cp div 64 mod 64 = cp div 64" by (rule div_mult_mod_eq)
  have b: "cp div 64 * 64 + cp mod 64 = cp" by (rule div_mult_mod_eq)
  show ?thesis unfolding c by (rule radix64_2[OF a b])
qed

lemma split_cp4:
  "(cp::nat) div 262144 * 262144 + cp div 4096 mod 64 * 4096 + cp div 64 mod 64 * 64
     + cp mod 64 = cp"
proof -
  have c1: "cp div 262144 = cp div 64 div 64 div 64" by (simp add: div_mult2_eq)
  have c2: "cp div 4096 = cp div 64 div 64" by (simp add: div_mult2_eq)
  have a: "cp div 64 div 64 div 64 * 64 + cp div 64 div 64 mod 64 = cp div 64 div 64"
    by (rule div_mult_mod_eq)
  have b: "cp div 64 div 64 * 64 + cp div 64 mod 64 = cp div 64" by (rule div_mult_mod_eq)
  have d: "cp div 64 * 64 + cp mod 64 = cp" by (rule div_mult_mod_eq)
  show ?thesis unfolding c1 c2 by (rule radix64_3[OF a b d])
qed

lemma decode_encode_cp:
  assumes "encode_cp cp = Some b"
  shows "utf8_decode (b @ r) = map_option ((#) cp) (utf8_decode r)"
proof -
  consider (a) "cp < 128" | (b) "128 \<le> cp" "cp < 2048"
    | (c) "2048 \<le> cp" "cp < 65536" "\<not> (55296 \<le> cp \<and> cp < 57344)"
    | (d) "65536 \<le> cp" "cp < 1114112"
    using assms by (auto simp: encode_cp_def split: if_splits)
  then show ?thesis
  proof cases
    case a
    with assms show ?thesis by (auto simp: encode_cp_def)
  next
    case b
    have 1: "192 + cp div 64 < 256" "128 + cp mod 64 < 256" "2 \<le> cp div 64" "cp div 64 < 32"
      using b by auto
    have 2: "cp div 64 * 64 + cp mod 64 = cp" by simp
    from assms b have "b = [char_of (192 + cp div 64), char_of (128 + cp mod 64)]"
      by (auto simp: encode_cp_def)
    then show ?thesis using 1 2 by (simp add: cont_def Let_def)
  next
    case c
    have 1: "224 + cp div 4096 < 256" "128 + cp div 64 mod 64 < 256" "128 + cp mod 64 < 256"
      "cp div 4096 < 16"
      using c by auto
    note 2 = split_cp3[of cp]
    from assms c have "b = [char_of (224 + cp div 4096), char_of (128 + cp div 64 mod 64),
        char_of (128 + cp mod 64)]"
      by (auto simp: encode_cp_def)
    then show ?thesis using 1 2 c by (simp add: cont_def Let_def)
  next
    case d
    have 1: "240 + cp div 262144 < 256" "128 + cp div 4096 mod 64 < 256"
      "128 + cp div 64 mod 64 < 256" "128 + cp mod 64 < 256" "cp div 262144 < 5"
      using d by auto
    note 2 = split_cp4[of cp]
    from assms d have "b = [char_of (240 + cp div 262144), char_of (128 + cp div 4096 mod 64),
        char_of (128 + cp div 64 mod 64), char_of (128 + cp mod 64)]"
      by (auto simp: encode_cp_def)
    then show ?thesis using 1 2 d by (simp add: cont_def Let_def)
  qed
qed

lemma utf8_roundtrip: "utf8_encode s = Some b \<Longrightarrow> utf8_decode b = Some s"
proof (induction s arbitrary: b)
  case Nil
  then show ?case by simp
next
  case (Cons cp s)
  then obtain b1 bs where e: "encode_cp cp = Some b1" "utf8_encode s = Some bs" "b = b1 @ bs"
    by (auto split: option.splits)
  with Cons.IH[of bs] show ?case by (simp add: decode_encode_cp)
qed

lemma encode_cp_sep:
  assumes "encode_cp cp = Some b"
  shows "CHR ''|'' \<in> set b \<longleftrightarrow> cp = 124"
proof -
  have k: "\<And>n::nat. n < 256 \<Longrightarrow> (char_of n = CHR ''|'') = (n = 124)"
  proof -
    fix n :: nat assume "n < 256"
    then have "(of_char (char_of n) :: nat) = n" by simp
    moreover have "(of_char CHR ''|'' :: nat) = 124" by simp
    ultimately show "(char_of n = CHR ''|'') = (n = 124)"
      using of_char_eq_iff[of "char_of n" "CHR ''|''", where ?'a = nat] by simp
  qed
  consider (a) "cp < 128" | (b) "128 \<le> cp" "cp < 2048"
    | (c) "2048 \<le> cp" "cp < 65536" "\<not> (55296 \<le> cp \<and> cp < 57344)"
    | (d) "65536 \<le> cp" "cp < 1114112"
    using assms by (auto simp: encode_cp_def split: if_splits)
  then show ?thesis
  proof cases
    case a
    with assms show ?thesis using k[of cp] by (auto simp: encode_cp_def)
  next
    case b
    have 1: "192 + cp div 64 < 256" "128 + cp mod 64 < 256"
      using b by auto
    from assms b have "b = [char_of (192 + cp div 64), char_of (128 + cp mod 64)]"
      by (auto simp: encode_cp_def)
    then show ?thesis using b k[OF 1(1)] k[OF 1(2)] by auto
  next
    case c
    have 1: "224 + cp div 4096 < 256" "128 + cp div 64 mod 64 < 256" "128 + cp mod 64 < 256"
      using c by auto
    from assms c have "b = [char_of (224 + cp div 4096), char_of (128 + cp div 64 mod 64),
        char_of (128 + cp mod 64)]"
      by (auto simp: encode_cp_def)
    then show ?thesis using c k[OF 1(1)] k[OF 1(2)] k[OF 1(3)] by auto
  next
    case d
    have 1: "240 + cp div 262144 < 256" "128 + cp div 4096 mod 64 < 256"
      "128 + cp div 64 mod 64 < 256" "128 + cp mod 64 < 256"
      using d by auto
    from assms d have "b = [char_of (240 + cp div 262144), char_of (128 + cp div 4096 mod 64),
        char_of (128 + cp div 64 mod 64), char_of (128 + cp mod 64)]"
      by (auto simp: encode_cp_def)
    then show ?thesis using d k[OF 1(1)] k[OF 1(2)] k[OF 1(3)] k[OF 1(4)] by auto
  qed
qed

lemma utf8_encode_sep:
  "utf8_encode s = Some b \<Longrightarrow> CHR ''|'' \<in> set b \<longleftrightarrow> 124 \<in> set s"
proof (induction s arbitrary: b)
  case Nil
  then show ?case by simp
next
  case (Cons cp s)
  then obtain b1 bs where e: "encode_cp cp = Some b1" "utf8_encode s = Some bs" "b = b1 @ bs"
    by (auto split: option.splits)
  with Cons.IH[of bs] encode_cp_sep[OF e(1)] show ?case by auto
qed

subsection \<open>Reading one header\<close>

lemma bfind_notin: "c \<notin> set b \<Longrightarrow> bfind b c = -1"
  by (induction b) (auto simp: Let_def)

lemma bfind_ge: "- 1 \<le> bfind b c"
  by (induction b) (auto simp: Let_def)

lemma bfind_in: "c \<in> set b \<Longrightarrow> bfind b c \<noteq> -1"
proof (induction b)
  case Nil
  then show ?case by simp
next
  case (Cons x b)
  show ?case
  proof (cases "x = c")
    case True
    then show ?thesis by simp
  next
    case False
    with Cons have "bfind b c \<noteq> -1" by simp
    moreover have "- 1 \<le> bfind b c" by (rule bfind_ge)
    ultimately show ?thesis using False by (simp add: Let_def)
  qed
qed

lemma bfind_first: "c \<notin> set a \<Longrightarrow> bfind (a @ c # r) c = int (length a)"
  by (induction a) (auto simp: Let_def)

lemma extract_header_at:
  assumes "utf8_decode tb = Some tok"
  shows "extract_header (tb @ c # left) (int (length tb)) w = (Inr (tok, left), w)"
  using assms by (simp add: extract_header_def Let_def nat_add_distrib)

lemma stream_split:
  assumes "a @ p = t @ c # r" and "c \<notin> set t"
  shows "(c \<in> set a \<longrightarrow> (\<exists>x. a = t @ c # x \<and> r = x @ p)) \<and> (c \<notin> set a \<longrightarrow> length a \<le> length t)"
proof -
  from assms(1) consider (l) us where "a = t @ us" "us @ p = c # r"
    | (r) us where "a @ us = t" "p = us @ c # r"
    by (auto simp: append_eq_append_conv2)
  then show ?thesis
  proof cases
    case l
    show ?thesis
    proof (cases us)
      case Nil
      with l assms(2) show ?thesis by auto
    next
      case (Cons u us')
      with l have "u = c" "r = us' @ p" by auto
      with l Cons assms(2) show ?thesis by auto
    qed
  next
    case r
    then have "length a \<le> length t" by (metis length_append le_add1)
    moreover from r assms(2) have "c \<notin> set a" by auto
    ultimately show ?thesis by simp
  qed
qed

text \<open>A queue free of failures and of the end-of-stream marker.\<close>

lemma in_time_quiet:
  assumes "False \<notin> set (deadline_q w)"
  shows "\<exists>w1. in_time w = (True, w1) \<and> sock_in w1 = sock_in w \<and> cancel_q w1 = cancel_q w
           \<and> False \<notin> set (deadline_q w1)"
  using assms by (cases "deadline_q w") (auto simp: in_time_def)

lemma is_set_quiet:
  assumes "True \<notin> set (cancel_q w)"
  shows "\<exists>w1. is_set w = (False, w1) \<and> sock_in w1 = sock_in w \<and> deadline_q w1 = deadline_q w
           \<and> True \<notin> set (cancel_q w1)"
  using assms by (cases "cancel_q w") (auto simp: is_set_def)

lemma recv_chunk:
  assumes "0 < n" and "b \<noteq> []"
  shows "\<exists>q'. recv n (Chunk b # q) = (Inr (take n b), q') \<and> take n b \<noteq> []
           \<and> pending q' = drop n b @ pending q \<and> weight q' < weight (Chunk b # q)
           \<and> set q' \<subseteq> insert (Chunk (drop n b)) (set q) \<and> (length b \<le> n \<longrightarrow> q' = q)"
  using assms by (cases b) auto

lemma read_header_loop_step:
  assumes "in_time w = (True, w1)" and "is_set w1 = (False, w2)"
    and "n = (if length hb = 0 then min BUFFER_SIZE_FOR_HEADER max_buffer
              else min 4096 (max_buffer - int (length hb)))"
    and "0 < n"
  shows "read_header_loop max_buffer hb w =
      (case sock_recv (nat n) w2 of
         (Inl e, w3) \<Rightarrow>
           if e = SocketTimeout then read_header_loop max_buffer hb w3
           else (Inl GenericException, w3)
       | (Inr chunk, w3) \<Rightarrow>
           if chunk = [] then
             (if length hb = 0 then (Inl ConnectionResetError, w3)
              else (Inl ValueError, w3))
           else
             (let hb' = hb @ chunk; idx = bfind hb' HEADER_SEPARATOR
              in if idx \<noteq> -1 then extract_header hb' idx w3
                 else if int (length hb') > max_buffer then (Inl ValueError, w3)
                 else read_header_loop max_buffer hb' w3))"
  using assms(4) unfolding assms(3)
  by (subst read_header_loop.simps) (simp add: assms(1,2) Let_def)

lemma read_header_loop_complete:
  assumes "HEADER_SEPARATOR \<notin> set hb"
    and "hb @ pending (sock_in w) = tb @ HEADER_SEPARATOR # rest"
    and "HEADER_SEPARATOR \<notin> set tb"
    and "utf8_decode tb = Some tok"
    and "int (length tb) < max_buffer"
    and "RecvFail \<notin> set (sock_in w)" and "Chunk [] \<notin> set (sock_in w)"
    and "True \<notin> set (cancel_q w)" and "False \<notin> set (deadline_q w)"
  shows "\<exists>left w'. read_header_loop max_buffer hb w = (Inr (tok, left), w')
           \<and> left @ pending (sock_in w') = rest"
  using assms
proof (induction "weight (sock_in w)" arbitrary: hb w rule: less_induct)
  case less
  obtain w1 where w1: "in_time w = (True, w1)" "sock_in w1 = sock_in w"
      "cancel_q w1 = cancel_q w" "False \<notin> set (deadline_q w1)"
    using in_time_quiet[OF less.prems(9)] by blast
  obtain w2 where w2: "is_set w1 = (False, w2)" "sock_in w2 = sock_in w1"
      "deadline_q w2 = deadline_q w1" "True \<notin> set (cancel_q w2)"
    using is_set_quiet[of w1] less.prems(8) w1(3) by auto
  define n where "n = (if length hb = 0 then min BUFFER_SIZE_FOR_HEADER max_buffer
                       else min 4096 (max_buffer - int (length hb)))"
  have hb_le: "length hb \<le> length tb"
    using stream_split[OF less.prems(2,3)] less.prems(1) by simp
  have npos: "0 < n"
    using hb_le less.prems(5) by (auto simp: n_def BUFFER_SIZE_FOR_HEADER_def)
  note unfold = read_header_loop_step[OF w1(1) w2(1) n_def npos]
  have w2s: "sock_in w2 = sock_in w" using w1(2) w2(2) by simp
  show ?case
  proof (cases "sock_in w")
    case Nil
    with less.prems(1,2) show ?thesis by auto
  next
    case (Cons ev q)
    show ?thesis
    proof (cases ev)
      case (Chunk b)
      with Cons less.prems(7) have bne: "b \<noteq> []" by auto
      from npos have "0 < nat n" by simp
      from recv_chunk[OF this bne, of q] obtain q' where
        q': "recv (nat n) (Chunk b # q) = (Inr (take (nat n) b), q')" "take (nat n) b \<noteq> []"
          "pending q' = drop (nat n) b @ pending q" "weight q' < weight (Chunk b # q)"
          "set q' \<subseteq> insert (Chunk (drop (nat n) b)) (set q)" "length b \<le> nat n \<longrightarrow> q' = q"
        by blast
      let ?hb = "hb @ take (nat n) b"
      let ?w = "w2\<lparr>sock_in := q', recv_log := recv_log w2 @ [nat n]\<rparr>"
      have rv: "sock_recv (nat n) w2 = (Inr (take (nat n) b), ?w)"
        using q'(1) Cons Chunk w2s by (simp add: sock_recv_def)
      have stream: "?hb @ pending q' = tb @ HEADER_SEPARATOR # rest"
      proof -
        have "?hb @ pending q' = hb @ (take (nat n) b @ drop (nat n) b) @ pending q"
          using q'(3) by simp
        also have "\<dots> = hb @ b @ pending q" by (simp only: append_take_drop_id)
        finally show ?thesis using less.prems(2) Cons Chunk by simp
      qed
      have good: "RecvFail \<notin> set q'" "Chunk [] \<notin> set q'"
        using q'(5,6) less.prems(6,7) Cons Chunk by (auto simp: not_le)
      show ?thesis
      proof (cases "HEADER_SEPARATOR \<in> set ?hb")
        case True
        with stream_split[OF stream less.prems(3)] obtain x where
          x: "?hb = tb @ HEADER_SEPARATOR # x" "rest = x @ pending q'" by blast
        have "bfind ?hb HEADER_SEPARATOR = int (length tb)"
          unfolding x(1) by (rule bfind_first[OF less.prems(3)])
        moreover have "extract_header ?hb (int (length tb)) ?w = (Inr (tok, x), ?w)"
          unfolding x(1) by (rule extract_header_at[OF less.prems(4)])
        ultimately have "read_header_loop max_buffer hb w = (Inr (tok, x), ?w)"
          unfolding unfold using rv q'(2) by (simp add: Let_def)
        with x(2) show ?thesis by simp
      next
        case False
        then have nf: "bfind ?hb HEADER_SEPARATOR = -1" by (rule bfind_notin)
        have "length ?hb \<le> length tb"
          using stream_split[OF stream less.prems(3)] False by simp
        with less.prems(5) have fits: "\<not> int (length ?hb) > max_buffer" by simp
        have step: "read_header_loop max_buffer hb w = read_header_loop max_buffer ?hb ?w"
          unfolding unfold using rv q'(2) nf fits by (simp add: Let_def)
        have "\<exists>left w'. read_header_loop max_buffer ?hb ?w = (Inr (tok, left), w')
               \<and> left @ pending (sock_in w') = rest"
        proof (rule less.hyps)
          show "weight (sock_in ?w) < weight (sock_in w)" using q'(4) Cons Chunk by simp
        qed (use False stream less.prems(3,4,5) good w2 w1 in simp_all)
        with step show ?thesis by simp
      qed
    next
      case RecvTimeout
      let ?w = "w2\<lparr>sock_in := q, recv_log := recv_log w2 @ [nat n]\<rparr>"
      have step: "read_header_loop max_buffer hb w = read_header_loop max_buffer hb ?w"
        unfolding unfold using Cons RecvTimeout w2s by (simp add: sock_recv_def)
      have "\<exists>left w'. read_header_loop max_buffer hb ?w = (Inr (tok, left), w')
             \<and> left @ pending (sock_in w') = rest"
      proof (rule less.hyps)
        show "weight (sock_in ?w) < weight (sock_in w)" using Cons RecvTimeout by simp
      qed (use less.prems Cons RecvTimeout w2 w1 in simp_all)
      with step show ?thesis by simp
    next
      case RecvFail
      with Cons less.prems(6) show ?thesis by simp
    qed
  qed
qed

lemma read_header_from_socket_complete:
  assumes "initial @ pending (sock_in w) = tb @ HEADER_SEPARATOR # rest"
    and "HEADER_SEPARATOR \<notin> set tb"
    and "utf8_decode tb = Some tok"
    and "int (length tb) < max_buffer"
    and "RecvFail \<notin> set (sock_in w)" and "Chunk [] \<notin> set (sock_in w)"
    and "True \<notin> set (cancel_q w)" and "False \<notin> set (deadline_q w)"
  shows "\<exists>left w'. read_header_from_socket w initial max_buffer = (Inr (tok, left), w')
           \<and> left @ pending (sock_in w') = rest"
proof (cases "HEADER_SEPARATOR \<in> set initial")
  case True
  with stream_split[OF assms(1,2)] obtain x where
    x: "initial = tb @ HEADER_SEPARATOR # x" "rest = x @ pending (sock_in w)" by blast
  have "bfind initial HEADER_SEPARATOR = int (length tb)"
    unfolding x(1) by (rule bfind_first[OF assms(2)])
  moreover have "extract_header initial (int (length tb)) w = (Inr (tok, x), w)"
    unfolding x(1) by (rule extract_header_at[OF assms(3)])
  ultimately have "read_header_from_socket w initial max_buffer = (Inr (tok, x), w)"
    by (simp add: read_header_from_socket_def Let_def)
  with x(2) show ?thesis by simp
next
  case False
  then have "bfind initial HEADER_SEPARATOR = -1" by (rule bfind_notin)
  then have "read_header_from_socket w initial max_buffer = read_header_loop max_buffer initial w"
    by (simp add: read_header_from_socket_def Let_def)
  with read_header_loop_complete[OF False assms] show ?thesis by simp
qed

lemma read_header_loop_full:
  assumes "HEADER_SEPARATOR \<notin> set hb" and "max_buffer \<le> int (length hb)" and "hb \<noteq> []"
    and "cancel_q w = []" and "deadline_q w = []"
  shows "read_header_loop max_buffer hb w = (Inl GenericException, w)"
  using assms by (subst read_header_loop.simps) (simp add: in_time_def is_set_def Let_def)


text \<open>
  Claim C3, as the specification states it: for every byte stream \<open>token + '|' + rest\<close>
  whose token is the encoding of a string without \<open>'|'\<close>, the reader returns the token
  and leaves exactly \<open>rest\<close>, however the stream is cut into the initial buffer and the
  chunks of the socket. This fails for a long token: the buffer is limited to
  \<open>max_buffer\<close> bytes (8192 for every caller), and a token of 8192 bytes that arrives
  through the socket is refused.
\<close>

theorem read_header_long_token_counterexample:
  "fst (read_header_from_socket
          (quiet_world [Chunk (replicate 8192 CHR ''a'' @ ''|'')]) [] max_buffer_default)
     = Inl GenericException"
  apply (simp add: read_header_from_socket_def max_buffer_default_def BUFFER_SIZE_FOR_HEADER_def)
  apply (subst read_header_loop.simps)
  apply (simp add: quiet_world_def in_time_def is_set_def sock_recv_def Let_def
      BUFFER_SIZE_FOR_HEADER_def bfind_notin HEADER_SEPARATOR_def)
  apply (subst read_header_loop.simps)
  apply (simp add: quiet_world_def in_time_def is_set_def sock_recv_def Let_def
      BUFFER_SIZE_FOR_HEADER_def bfind_notin HEADER_SEPARATOR_def)
  apply (subst read_header_loop.simps)
  apply (simp add: quiet_world_def in_time_def is_set_def sock_recv_def Let_def
      BUFFER_SIZE_FOR_HEADER_def bfind_notin HEADER_SEPARATOR_def)
  apply (subst read_header_loop.simps)
  apply (simp add: quiet_world_def in_time_def is_set_def sock_recv_def Let_def
      BUFFER_SIZE_FOR_HEADER_def bfind_notin HEADER_SEPARATOR_def)
  done

text \<open>
  Claim C3, amended: let \<open>tok\<close> be a string without \<open>'|'\<close> whose encoding \<open>tb\<close> is shorter
  than \<open>max_buffer\<close>, and let the initial buffer followed by the bytes still in the
  socket be \<open>tb + '|' + rest\<close>, cut in any way into the initial buffer and chunks (with
  timeouts of single reads anywhere between them). If no read fails, the peer does not
  close before the bytes have arrived, nothing is cancelled and the deadline does not
  pass, then \<^verbatim>\<open>read_header_from_socket\<close> returns \<open>tok\<close>, and the returned carry-over
  buffer followed by the bytes left in the socket is exactly \<open>rest\<close>: no byte is
  dropped or read twice.
\<close>

theorem read_header_round_trip:
  assumes "utf8_encode tok = Some tb" and "124 \<notin> set tok"
    and "initial @ pending (sock_in w) = tb @ HEADER_SEPARATOR # rest"
    and "int (length tb) < max_buffer"
    and "RecvFail \<notin> set (sock_in w)" and "Chunk [] \<notin> set (sock_in w)"
    and "True \<notin> set (cancel_q w)" and "False \<notin> set (deadline_q w)"
  shows "\<exists>left w'. read_header_from_socket w initial max_buffer = (Inr (tok, left), w')
           \<and> left @ pending (sock_in w') = rest"
proof -
  have "HEADER_SEPARATOR \<notin> set tb"
    using utf8_encode_sep[OF assms(1)] assms(2) by (simp add: HEADER_SEPARATOR_def)
  moreover have "utf8_decode tb = Some tok"
    by (rule utf8_roundtrip[OF assms(1)])
  ultimately show ?thesis
    using assms(3-8) by (intro read_header_from_socket_complete)
qed

theorem read_header_round_trip_witness:
  "utf8_encode (ustr ''FDR_V1'') = Some ''FDR_V1'' \<and> 124 \<notin> set (ustr ''FDR_V1'')
   \<and> ''FD'' @ pending (sock_in (quiet_world [Chunk ''R_'', RecvTimeout, Chunk ''V1|FOLDER|x'']))
       = ''FDR_V1'' @ HEADER_SEPARATOR # ''FOLDER|x''
   \<and> int (length ''FDR_V1'') < 8192
   \<and> (\<exists>left w'.
         read_header_from_socket
           (quiet_world [Chunk ''R_'', RecvTimeout, Chunk ''V1|FOLDER|x'']) ''FD'' 8192
           = (Inr (ustr ''FDR_V1'', left), w')
         \<and> left @ pending (sock_in w') = ''FOLDER|x'')"
  using read_header_round_trip[where tok = "ustr ''FDR_V1''" and tb = "''FDR_V1''"
      and initial = "''FD''" and rest = "''FOLDER|x''" and max_buffer = 8192
      and w = "quiet_world [Chunk ''R_'', RecvTimeout, Chunk ''V1|FOLDER|x'']"]
  by (simp add: ustr_def encode_cp_def char_of_def bit_0 quiet_world_def HEADER_SEPARATOR_def)

subsection \<open>The dispatcher\<close>

lemma prefix_check_bytes_eq: "prefix_check_bytes = ''FDR_V1|''"
  by (simp add: prefix_check_bytes_def FOLDER_PROTOCOL_PREFIX_def HEADER_SEPARATOR_def ustr_def
      encode_cp_def char_of_def bit_0)

lemma recv_length: "recv n q = (Inr b, q') \<Longrightarrow> length b \<le> n"
  by (cases "(n, q)" rule: recv.cases) (auto split: if_splits)

text \<open>
  Claim C7: for an accepted connection the dispatcher makes one read of at most
  \<open>BUFFER_SIZE_FOR_HEADER = 2048\<close> bytes. When the read returns bytes, a handler is
  started with these bytes as its initial buffer: the folder receiver if and only if
  they begin with \<^verbatim>\<open>FDR_V1|\<close>, the single-file receiver otherwise, and the dispatcher
  leaves the socket open. When the read fails (a timeout or another socket error) or
  returns nothing, the socket is closed and no handler is started.
\<close>

theorem dispatch_by_sniffed_prefix:
  assumes "sock_recv (nat BUFFER_SIZE_FOR_HEADER) w = (r, w1)"
  shows "(\<forall>b. r = Inr b \<and> b \<noteq> [] \<longrightarrow>
            length b \<le> 2048
            \<and> accepted_connection chosen w =
                (Started (if prefix ''FDR_V1|'' b then FolderReceiver else SingleFileReceiver)
                   (choose_receive_buffer_size chosen) b, w1)
            \<and> sock_closed w1 = sock_closed w)
       \<and> ((r = Inr [] \<or> (\<exists>e. r = Inl e)) \<longrightarrow>
            accepted_connection chosen w = (ClosedWithoutHandler, w1\<lparr>sock_closed := True\<rparr>))"
proof -
  have len: "\<And>b. r = Inr b \<Longrightarrow> length b \<le> 2048"
    using assms recv_length[of 2048 "sock_in w"]
    by (auto simp: sock_recv_def BUFFER_SIZE_FOR_HEADER_def split: prod.splits)
  have closed: "sock_closed w1 = sock_closed w"
    using assms by (auto simp: sock_recv_def split: prod.splits)
  show ?thesis
    using assms len closed
    by (auto simp: accepted_connection_def protocol_detection_def prefix_check_bytes_eq)
qed

theorem dispatch_by_sniffed_prefix_witness:
  "accepted_connection None (quiet_world [Chunk ''FDR_V1|FOLDER|a/|''])
     = (Started FolderReceiver 65536 ''FDR_V1|FOLDER|a/|'',
        (quiet_world [])\<lparr>recv_log := [2048]\<rparr>)
   \<and> accepted_connection (Some 4096) (quiet_world [Chunk ''a.txt|3|4096|abc''])
     = (Started SingleFileReceiver 4096 ''a.txt|3|4096|abc'',
        (quiet_world [])\<lparr>recv_log := [2048]\<rparr>)
   \<and> accepted_connection None (quiet_world [RecvTimeout])
     = (ClosedWithoutHandler, (quiet_world [])\<lparr>recv_log := [2048], sock_closed := True\<rparr>)
   \<and> accepted_connection None (quiet_world [])
     = (ClosedWithoutHandler, (quiet_world [])\<lparr>recv_log := [2048], sock_closed := True\<rparr>)"
  using
    dispatch_by_sniffed_prefix[of "quiet_world [Chunk ''FDR_V1|FOLDER|a/|'']"
      "Inr ''FDR_V1|FOLDER|a/|''" "(quiet_world [])\<lparr>recv_log := [2048]\<rparr>" None]
    dispatch_by_sniffed_prefix[of "quiet_world [Chunk ''a.txt|3|4096|abc'']"
      "Inr ''a.txt|3|4096|abc''" "(quiet_world [])\<lparr>recv_log := [2048]\<rparr>" "Some 4096"]
    dispatch_by_sniffed_prefix[of "quiet_world [RecvTimeout]"
      "Inl SocketTimeout" "(quiet_world [])\<lparr>recv_log := [2048]\<rparr>" None]
    dispatch_by_sniffed_prefix[of "quiet_world []"
      "Inr []" "(quiet_world [])\<lparr>recv_log := [2048]\<rparr>" None]
  by (simp add: sock_recv_def quiet_world_def BUFFER_SIZE_FOR_HEADER_def
      choose_receive_buffer_size_def)

subsection \<open>The folder receiver: verification and handshake\<close>

lemma next_header_frame:
  assumes "next_header s w = (r, s', w')"
  shows "s' = s\<lparr>received_buffer := received_buffer s'\<rparr>"
  using assms by (auto simp: next_header_def split: prod.splits sum.splits)

lemma verification_passed_iff:
  "verification_passed s \<longleftrightarrow>
     (\<exists>expected_count expected_size.
        total_expected_items s = Some expected_count \<and> total_expected_size s = Some expected_size
        \<and> 0 \<le> expected_count \<and> 0 \<le> expected_size
        \<and> items_received_count s = expected_count \<and> received_bytes_total s = expected_size)"
  by (auto simp: verification_passed_def split: option.splits)

lemma is_handshake_request_prefix: "is_handshake_request FOLDER_PROTOCOL_PREFIX = Inr False"
  by (simp add: is_handshake_request_def FOLDER_PROTOCOL_PREFIX_def ustr_def encode_cp_def
      char_of_def bit_0 strip_while_def rstrip_while_def bspace_def HANDSHAKE_REQUEST_SIGNAL_def)

lemma item_header_end_transfer:
  assumes "next_header s w = (Inr FOLDER_PROTOCOL_PREFIX, s1, w1)"
    and "next_header s1 w1 = (Inr FOLDER_HEADER_TYPE_END_TRANSFER, s2, w2)"
  shows "item_header rt s w = end_transfer rt s2 w2"
  using assms by (simp add: item_header_def is_handshake_request_prefix)




lemmas header_eval =
  next_header_def read_header_def read_header_from_socket_def extract_header_def
  max_buffer_default_def BUFFER_SIZE_FOR_HEADER_def HEADER_SEPARATOR_def Let_def
  FOLDER_PROTOCOL_PREFIX_def FOLDER_HEADER_TYPE_END_TRANSFER_def
  FOLDER_HEADER_TYPE_FOLDER_def FOLDER_HEADER_TYPE_FILE_def FOLDER_HEADER_TYPE_TOTAL_INFO_def
  ustr_def waiting_for_item_def initial_fstate_def quiet_world_def

lemma format_bytes_small:
  "format_bytes ascii_rt 0 = None" "format_bytes ascii_rt 4 = None"
  "format_bytes ascii_rt 5 = None" "format_bytes ascii_rt 4096 = None"
  "format_bytes ascii_rt 8192 = None" "format_bytes ascii_rt 65536 = None"
  by (simp_all add: format_bytes_def ascii_rt_def exact_log_1024.simps)



text \<open>
  Claim C4 says that after \<^verbatim>\<open>END_TRANSFER\<close> the receiver sends its response only once
  the request \<^verbatim>\<open>IS_TRANSFER_COMPLETE?\<close> has arrived. The docstring of
  \<^verbatim>\<open>perform_folder_handshake_server\<close> says the same of its caller ("Sends the
  verification response after the handshake request is received (handled by caller)"),
  and the state is named \<^verbatim>\<open>STATE_WAITING_FOR_HANDSHAKE_REQUEST\<close>. The handler does not do
  it: here the sender's stream ends with \<^verbatim>\<open>END_TRANSFER\<close>, no request has been sent and
  the next read of the socket would time out; the receiver makes no read at all and
  sends \<^verbatim>\<open>TRANSFER_COMPLETE_OK\<close>.
\<close>

theorem handshake_response_without_request:
  "map_option (\<lambda>(s, w). (sock_out w, recv_log w, sock_in w, current_state s))
     (handle_client_folder_transfer ascii_rt 65536
        ''FDR_V1|FOLDER|photos/|FDR_V1|TOTAL_INFO|1,0|FDR_V1|END_TRANSFER|''
        (quiet_world [RecvTimeout]))
   = Some ([''TRANSFER_COMPLETE_OK''], [], [RecvTimeout], STATE_HANDSHAKE_COMPLETE)"
  by code_simp

subsection \<open>What the rounds of the folder receiver change\<close>

text \<open>What a round without file data leaves unchanged.\<close>

lemma next_header_fields:
  assumes "next_header s w = (r, s', w')"
  shows "received_bytes_total s' = received_bytes_total s"
    and "total_expected_items s' = total_expected_items s"
    and "total_expected_size s' = total_expected_size s"
    and "transfer_success s' = transfer_success s"
    and "current_state s' = current_state s"
    and "items_received_count s' = items_received_count s"
    and "current_file_bytes_received s' = current_file_bytes_received s"
    and "current_file_bytes_expected s' = current_file_bytes_expected s"
    and "current_file_handle s' = current_file_handle s"
    and "current_file_path s' = current_file_path s"
    and "current_save_dir s' = current_save_dir s"
    and "session_root_name s' = session_root_name s"
  using assms by (auto simp: next_header_def split: prod.splits sum.splits)

lemma prepare_file_frame:
  assumes "prepare_file rt p sz s w = (None, s', w')"
  shows "received_bytes_total s' = received_bytes_total s"
    and "total_expected_items s' = total_expected_items s"
    and "total_expected_size s' = total_expected_size s"
    and "transfer_success s' = transfer_success s"
    and "current_file_bytes_received s' = current_file_bytes_received s"
    and "current_file_bytes_expected s' = current_file_bytes_expected s"
    and "items_received_count s' = items_received_count s + 1"
    and "current_state s' = (if sz = 0 then STATE_WAITING_FOR_ITEM_HEADER
                             else STATE_RECEIVING_FILE_DATA)"
    and "sz \<noteq> 0 \<Longrightarrow> current_file_handle s' \<noteq> None"
  using assms
  by (auto simp: prepare_file_def Let_def close_current_file_def
      split: option.splits prod.splits sum.splits if_splits)


lemma folder_item_frame:
  assumes "folder_item rt p s w = (None, s', w')"
  shows "s' = s\<lparr>items_received_count := items_received_count s + 1\<rparr>"
  using assms
  by (auto simp: folder_item_def Let_def split: option.splits prod.splits sum.splits if_splits)

lemma file_item_frame:
  assumes "file_item rt p s w = (None, s', w')"
  shows "received_bytes_total s' = received_bytes_total s"
    and "total_expected_items s' = total_expected_items s"
    and "total_expected_size s' = total_expected_size s"
    and "transfer_success s' = transfer_success s"
    and "current_file_bytes_received s' = 0"
    and "0 \<le> current_file_bytes_expected s'"
    and "items_received_count s' = items_received_count s + 1"
    and "current_state s' = (if current_file_bytes_expected s' = 0
                             then STATE_WAITING_FOR_ITEM_HEADER else STATE_RECEIVING_FILE_DATA)"
    and "current_file_bytes_expected s' \<noteq> 0 \<Longrightarrow> current_file_handle s' \<noteq> None"
proof -
  from assms obtain seg s1 w1 sz where
    h: "next_header s w = (Inr seg, s1, w1)" and z: "parse_size rt seg = Inr sz"
    and pf: "prepare_file rt
               (if suffix [SLASH] p then rstrip_while (\<lambda>c. c = SLASH) p else p) sz
               (s1\<lparr>current_file_bytes_received := 0, current_file_bytes_expected := sz\<rparr>) w1
             = (None, s', w')"
    by (auto simp: file_item_def Let_def split: prod.splits sum.splits if_splits)
  have nn: "0 \<le> sz" using z by (auto simp: parse_size_def split: option.splits if_splits)
  note f = prepare_file_frame[OF pf] and n = next_header_fields[OF h]
  show "received_bytes_total s' = received_bytes_total s" using f(1) n(1) by simp
  show "total_expected_items s' = total_expected_items s" using f(2) n(2) by simp
  show "total_expected_size s' = total_expected_size s" using f(3) n(3) by simp
  show "transfer_success s' = transfer_success s" using f(4) n(4) by simp
  show "current_file_bytes_received s' = 0" using f(5) by simp
  show "0 \<le> current_file_bytes_expected s'" using f(6) nn by simp
  show "items_received_count s' = items_received_count s + 1" using f(7) n(6) by simp
  show "current_state s' = (if current_file_bytes_expected s' = 0
                             then STATE_WAITING_FOR_ITEM_HEADER else STATE_RECEIVING_FILE_DATA)"
    using f(6,8) by simp
  show "current_file_bytes_expected s' \<noteq> 0 \<Longrightarrow> current_file_handle s' \<noteq> None"
    using f(6,9) by simp
qed

lemma verification_passed_cong:
  assumes "total_expected_items a = total_expected_items b"
    and "total_expected_size a = total_expected_size b"
    and "items_received_count a = items_received_count b"
    and "received_bytes_total a = received_bytes_total b"
  shows "verification_passed a = verification_passed b"
  using assms by (simp add: verification_passed_iff)

lemma close_current_file_fields:
  "received_bytes_total (close_current_file s) = received_bytes_total s"
  "total_expected_items (close_current_file s) = total_expected_items s"
  "total_expected_size (close_current_file s) = total_expected_size s"
  "items_received_count (close_current_file s) = items_received_count s"
  "current_file_bytes_received (close_current_file s) = current_file_bytes_received s"
  "current_file_bytes_expected (close_current_file s) = current_file_bytes_expected s"
  "current_state (close_current_file s) = current_state s"
  "transfer_success (close_current_file s) = transfer_success s"
  "is_cancelled (close_current_file s) = is_cancelled s"
  "received_buffer (close_current_file s) = received_buffer s"
  "current_file_handle (close_current_file s) = None"
  by (simp_all add: close_current_file_def)

lemma end_transfer_frame:
  assumes "end_transfer rt s w = (None, s', w')"
  shows "w' = w"
    and "received_bytes_total s' = received_bytes_total s"
    and "total_expected_items s' = total_expected_items s"
    and "total_expected_size s' = total_expected_size s"
    and "items_received_count s' = items_received_count s"
    and "current_file_bytes_received s' = current_file_bytes_received s"
    and "current_file_bytes_expected s' = current_file_bytes_expected s"
    and "current_state s' = STATE_WAITING_FOR_HANDSHAKE_REQUEST"
    and "transfer_success s' = verification_passed s"
proof -
  define c where "c = (close_current_file s)\<lparr>current_state := STATE_WAITING_FOR_HANDSHAKE_REQUEST\<rparr>"
  have vp: "verification_passed c = verification_passed s"
    by (rule verification_passed_cong) (simp_all add: c_def close_current_file_fields)
  from assms have r: "w' = w" "s' = c\<lparr>transfer_success := verification_passed c\<rparr>"
    by (auto simp: end_transfer_def Let_def c_def split: option.splits if_splits)
  show "w' = w" by (rule r)
  show "received_bytes_total s' = received_bytes_total s"
    and "total_expected_items s' = total_expected_items s"
    and "total_expected_size s' = total_expected_size s"
    and "items_received_count s' = items_received_count s"
    and "current_file_bytes_received s' = current_file_bytes_received s"
    and "current_file_bytes_expected s' = current_file_bytes_expected s"
    and "current_state s' = STATE_WAITING_FOR_HANDSHAKE_REQUEST"
    by (simp_all add: r(2) c_def close_current_file_fields)
  show "transfer_success s' = verification_passed s" by (simp add: r(2) vp)
qed

text \<open>A round in the state \<^verbatim>\<open>WAITING_FOR_ITEM_HEADER\<close>.\<close>

lemma item_header_frame:
  assumes "item_header rt s w = (None, s', w')"
  shows "received_bytes_total s' = received_bytes_total s"
    and "total_expected_items s' = total_expected_items s"
    and "total_expected_size s' = total_expected_size s"
    and "current_state s' \<in> {current_state s, STATE_WAITING_FOR_ITEM_HEADER,
           STATE_RECEIVING_FILE_DATA, STATE_WAITING_FOR_HANDSHAKE_REQUEST}"
    and "current_state s' = STATE_RECEIVING_FILE_DATA \<Longrightarrow> current_state s \<noteq> STATE_RECEIVING_FILE_DATA
         \<Longrightarrow> current_file_bytes_received s' = 0 \<and> 0 \<le> current_file_bytes_expected s'
             \<and> current_file_handle s' \<noteq> None"
    and "transfer_success s' \<Longrightarrow> transfer_success s \<or> verification_passed s'"
proof -
  have "received_bytes_total s' = received_bytes_total s
    \<and> total_expected_items s' = total_expected_items s
    \<and> total_expected_size s' = total_expected_size s
    \<and> current_state s' \<in> {current_state s, STATE_WAITING_FOR_ITEM_HEADER,
           STATE_RECEIVING_FILE_DATA, STATE_WAITING_FOR_HANDSHAKE_REQUEST}
    \<and> (current_state s' = STATE_RECEIVING_FILE_DATA \<longrightarrow> current_state s \<noteq> STATE_RECEIVING_FILE_DATA
         \<longrightarrow> current_file_bytes_received s' = 0 \<and> 0 \<le> current_file_bytes_expected s'
             \<and> current_file_handle s' \<noteq> None)
    \<and> (transfer_success s' \<longrightarrow> transfer_success s \<or> verification_passed s')"
  proof -
    from assms obtain pre s1 w1 where h1: "next_header s w = (Inr pre, s1, w1)"
      by (auto simp: item_header_def split: prod.splits sum.splits)
    note n1 = next_header_fields[OF h1]
    consider (hs) "is_handshake_request pre = Inr True"
      | (go) "is_handshake_request pre = Inr False"
      using assms h1 by (auto simp: item_header_def split: sum.splits bool.splits)
    then show ?thesis
    proof cases
      case hs
      with assms h1 have "s' = s1\<lparr>current_state := STATE_WAITING_FOR_HANDSHAKE_REQUEST\<rparr>"
        by (simp add: item_header_def)
      with n1 show ?thesis by simp
    next
      case go
      with assms h1 obtain ty s2 w2 where h2: "next_header s1 w1 = (Inr ty, s2, w2)"
        by (auto simp: item_header_def split: prod.splits sum.splits if_splits)
      note n2 = next_header_fields[OF h2]
      have rest: "(if ty = FOLDER_HEADER_TYPE_END_TRANSFER then end_transfer rt s2 w2
            else if ty \<in> set [FOLDER_HEADER_TYPE_FOLDER, FOLDER_HEADER_TYPE_FILE] then
              (case next_header s2 w2 of
                 (Inl e, s3, w3) \<Rightarrow> (Some e, s3, w3)
               | (Inr header_path_segment, s3, w3) \<Rightarrow>
                  (let s4 = s3\<lparr>current_item_path_protocol := header_path_segment\<rparr>
                   in case relative_to_session_root s4 of
                        Inl e \<Rightarrow> (Some e, s4, w3)
                      | Inr rel \<Rightarrow>
                         if ty = FOLDER_HEADER_TYPE_FOLDER
                         then folder_item rt rel s4 w3
                         else file_item rt rel s4 w3))
            else (None, s2, w2)) = (None, s', w')"
        using assms h1 go h2 by (auto simp: item_header_def split: if_splits)
      show ?thesis
      proof (cases "ty = FOLDER_HEADER_TYPE_END_TRANSFER")
        case True
        with rest have e: "end_transfer rt s2 w2 = (None, s', w')" by simp
        note f = end_transfer_frame[OF e]
        have "verification_passed s' = verification_passed s2"
          by (rule verification_passed_cong) (simp_all add: f)
        with f n1 n2 show ?thesis by simp
      next
        case False
        show ?thesis
        proof (cases "ty \<in> set [FOLDER_HEADER_TYPE_FOLDER, FOLDER_HEADER_TYPE_FILE]")
          case False
          with rest \<open>ty \<noteq> FOLDER_HEADER_TYPE_END_TRANSFER\<close> have "s' = s2" by simp
          with n1 n2 show ?thesis by simp
        next
          case True
          with rest False obtain pth s3 w3 rel where
            h3: "next_header s2 w2 = (Inr pth, s3, w3)"
            and it: "(if ty = FOLDER_HEADER_TYPE_FOLDER
                      then folder_item rt rel (s3\<lparr>current_item_path_protocol := pth\<rparr>) w3
                      else file_item rt rel (s3\<lparr>current_item_path_protocol := pth\<rparr>) w3)
                     = (None, s', w')"
            by (auto simp: Let_def split: prod.splits sum.splits if_splits)
          note n3 = next_header_fields[OF h3]
          show ?thesis
          proof (cases "ty = FOLDER_HEADER_TYPE_FOLDER")
            case True
            with it have "s' = (s3\<lparr>current_item_path_protocol := pth\<rparr>)
                \<lparr>items_received_count := items_received_count s3 + 1\<rparr>"
              using folder_item_frame by fastforce
            with n1 n2 n3 show ?thesis by simp
          next
            case False
            with it have fi: "file_item rt rel (s3\<lparr>current_item_path_protocol := pth\<rparr>) w3
                = (None, s', w')" by simp
            note f = file_item_frame[OF fi]
            from f n1 n2 n3 show ?thesis by (auto split: if_splits)
          qed
        qed
      qed
    qed
  qed
  then show "received_bytes_total s' = received_bytes_total s"
    and "total_expected_items s' = total_expected_items s"
    and "total_expected_size s' = total_expected_size s"
    and "current_state s' \<in> {current_state s, STATE_WAITING_FOR_ITEM_HEADER,
           STATE_RECEIVING_FILE_DATA, STATE_WAITING_FOR_HANDSHAKE_REQUEST}"
    and "current_state s' = STATE_RECEIVING_FILE_DATA \<Longrightarrow> current_state s \<noteq> STATE_RECEIVING_FILE_DATA
         \<Longrightarrow> current_file_bytes_received s' = 0 \<and> 0 \<le> current_file_bytes_expected s'
             \<and> current_file_handle s' \<noteq> None"
    and "transfer_success s' \<Longrightarrow> transfer_success s \<or> verification_passed s'"
    by simp_all
qed

lemma progress_refl: "progress s s"
  by (simp add: progress_def)

lemma progress_trans: "progress a b \<Longrightarrow> progress b c \<Longrightarrow> progress a c"
  by (auto simp: progress_def)

lemma progress_buffer: "progress s (s\<lparr>received_buffer := b\<rparr>)"
  by (simp add: progress_def)

lemma progress_cancelled: "progress s (s\<lparr>is_cancelled := True\<rparr>)"
  by (simp add: progress_def)

lemma drain_buffer_progress:
  assumes "drain_buffer s w = (r, s1, w1)"
  shows "progress s s1"
  using assms
  by (auto simp: drain_buffer_def Let_def progress_def split: if_splits option.splits)

lemma receive_file_data_progress_aux:
  assumes "receive_file_data receive_buffer_size s w = Some y"
  shows "progress s (fst (snd y))"
proof (rule receive_file_data.raw_induct[where P = "\<lambda>rbs s w y. progress s (fst (snd y))",
      OF _ assms], goal_cases)
  case (1 f rbs s w y)
  note IH = 1(1)
  show ?case
  proof (cases "current_file_bytes_received s < current_file_bytes_expected s")
    case False
    with 1(2) have "y = (None, s, w)" by simp
    then show ?thesis by (simp add: progress_refl)
  next
    case True
    obtain c w1 where c: "is_set w = (c, w1)" by (cases "is_set w")
    show ?thesis
    proof (cases c)
      case True
      with 1(2) \<open>current_file_bytes_received s < current_file_bytes_expected s\<close> c
      have "y = (None, s\<lparr>is_cancelled := True\<rparr>, w1)" by simp
      then show ?thesis by (simp add: progress_cancelled)
    next
      case False
      obtain r s1 w2 where d: "drain_buffer s w1 = (r, s1, w2)" by (cases "drain_buffer s w1")
      note p1 = drain_buffer_progress[OF d]
      have pb: "\<And>b. progress s (s1\<lparr>received_buffer := b\<rparr>)"
        using p1 progress_buffer progress_trans by blast
      from 1(2) \<open>current_file_bytes_received s < current_file_bytes_expected s\<close> False
      consider (stop3) w3 e where "y = (e, s1, w3)"
        | (rec) w3 where "f rbs s1 w3 = Some y"
        | (rec2) w3 chunk where "f rbs (s1\<lparr>received_buffer := received_buffer s1 @ chunk\<rparr>) w3 = Some y"
        by (auto simp: c d Let_def split: option.splits if_splits prod.splits sum.splits)
      then show ?thesis
      proof cases
        case stop3
        with p1 show ?thesis by simp
      next
        case rec
        from IH[OF rec] p1 show ?thesis by (rule progress_trans[rotated])
      next
        case rec2
        from IH[OF rec2] pb show ?thesis by (rule progress_trans[rotated])
      qed
    qed
  qed
qed

lemma receive_file_data_progress:
  "receive_file_data receive_buffer_size s w = Some (r, s', w') \<Longrightarrow> progress s s'"
  using receive_file_data_progress_aux by fastforce




lemma receiving_file_data_frame:
  assumes "receiving_file_data receive_buffer_size s w = Some (None, s', w')"
  shows "received_bytes_total s' - received_bytes_total s
           = current_file_bytes_received s' - current_file_bytes_received s"
    and "current_file_bytes_received s \<le> current_file_bytes_received s'"
    and "total_expected_items s' = total_expected_items s"
    and "total_expected_size s' = total_expected_size s"
    and "transfer_success s' = transfer_success s"
    and "current_file_bytes_expected s' = current_file_bytes_expected s"
    and "current_state s' = STATE_WAITING_FOR_ITEM_HEADER
         \<and> current_file_bytes_received s' = current_file_bytes_expected s'
         \<or> current_state s' = current_state s"
proof -
  from assms obtain s1 where r: "receive_file_data receive_buffer_size s w = Some (None, s1, w')"
    and s': "s' = (if current_file_bytes_received s1 = current_file_bytes_expected s1
               then (close_current_file s1)\<lparr>current_state := STATE_WAITING_FOR_ITEM_HEADER\<rparr>
               else s1)"
    by (auto simp: receiving_file_data_def split: option.splits prod.splits if_splits)
  note p = receive_file_data_progress[OF r, unfolded progress_def]
  show "received_bytes_total s' - received_bytes_total s
           = current_file_bytes_received s' - current_file_bytes_received s"
    and "current_file_bytes_received s \<le> current_file_bytes_received s'"
    and "total_expected_items s' = total_expected_items s"
    and "total_expected_size s' = total_expected_size s"
    and "transfer_success s' = transfer_success s"
    and "current_file_bytes_expected s' = current_file_bytes_expected s"
    and "current_state s' = STATE_WAITING_FOR_ITEM_HEADER
         \<and> current_file_bytes_received s' = current_file_bytes_expected s'
         \<or> current_state s' = current_state s"
    using p by (simp_all add: s' close_current_file_fields)
qed

text \<open>The cases of a round.\<close>

lemma round_cases:
  assumes "round rt n (s, w) (s', w')"
  obtains
    (root) w1 where "current_state s = STATE_WAITING_FOR_ROOT_FOLDER_HEADER"
      "root_folder_header rt s w1 = (None, s', w')"
  | (total) w1 where "current_state s = STATE_WAITING_FOR_TOTAL_INFO_HEADER"
      "total_info_header rt s w1 = (None, s', w')"
  | (item) w1 where "current_state s = STATE_WAITING_FOR_ITEM_HEADER"
      "item_header rt s w1 = (None, s', w')"
  | (data) w1 where "current_state s = STATE_RECEIVING_FILE_DATA"
      "receiving_file_data n s w1 = Some (None, s', w')"
  | (idle) "current_state s = STATE_RECEIVING_FILE_DATA" "s' = s"
  | (handshake) w1 where "current_state s = STATE_WAITING_FOR_HANDSHAKE_REQUEST"
      "handshake_state s w1 = (None, s', w')"
  using assms
  by (cases "current_state s")
     (auto simp: round_def loop_body_def split: prod.splits if_splits)


lemma rounds_session:
  assumes "rounds k rt n sizes c' = Some (sizes', c'')" and "session rt n c sizes c'"
  shows "session rt n c sizes' c''"
  using assms
proof (induction k arbitrary: sizes c')
  case 0
  then show ?case by simp
next
  case (Suc k)
  from Suc.prems(1) obtain w1 d where
    a: "is_set (snd c') = (False, w1)" "current_state (fst c') \<noteq> STATE_HANDSHAKE_COMPLETE"
       "loop_body rt n (fst c') w1 = Some (None, d)"
       "rounds k rt n (sizes @ admitted (fst c') (fst d)) d = Some (sizes', c'')"
    by (auto split: prod.splits if_splits option.splits)
  from a(1,2,3) have "round rt n c' d" by (simp add: round_def)
  from session.step[OF Suc.prems(2) this] have "session rt n c (sizes @ admitted (fst c') (fst d)) d" .
  from Suc.IH[OF a(4) this] show ?case .
qed

subsection \<open>The running total of the folder receiver\<close>








subsection \<open>A session without \<^verbatim>\<open>TOTAL_INFO\<close>\<close>

lemma read_header_buffered:
  assumes "HEADER_SEPARATOR \<notin> set tb" and "utf8_decode tb = Some tok"
  shows "read_header w (tb @ HEADER_SEPARATOR # rest) = (Inr (tok, rest), w)"
  using bfind_first[OF assms(1), of rest] extract_header_at[OF assms(2), of HEADER_SEPARATOR rest w]
  by (simp add: read_header_def read_header_from_socket_def Let_def)

lemma next_header_buffered:
  assumes "utf8_encode tok = Some tb" and "124 \<notin> set tok"
    and "received_buffer s = tb @ HEADER_SEPARATOR # rest"
  shows "next_header s w = (Inr tok, s\<lparr>received_buffer := rest\<rparr>, w)"
proof -
  have "HEADER_SEPARATOR \<notin> set tb"
    using utf8_encode_sep[OF assms(1)] assms(2) by (simp add: HEADER_SEPARATOR_def)
  from read_header_buffered[OF this utf8_roundtrip[OF assms(1)]] assms(3)
  show ?thesis by (simp add: next_header_def)
qed

lemma encode_prefix: "utf8_encode FOLDER_PROTOCOL_PREFIX = Some ''FDR_V1''"
  by (simp add: FOLDER_PROTOCOL_PREFIX_def ustr_def encode_cp_def char_of_def bit_0)

lemma encode_types:
  "utf8_encode FOLDER_HEADER_TYPE_FOLDER = Some ''FOLDER''"
  "utf8_encode FOLDER_HEADER_TYPE_FILE = Some ''FILE''"
  "utf8_encode FOLDER_HEADER_TYPE_END_TRANSFER = Some ''END_TRANSFER''"
  by (simp_all add: FOLDER_HEADER_TYPE_FOLDER_def FOLDER_HEADER_TYPE_FILE_def
      FOLDER_HEADER_TYPE_END_TRANSFER_def ustr_def encode_cp_def char_of_def bit_0)

lemma types_no_sep:
  "124 \<notin> set FOLDER_PROTOCOL_PREFIX"
  "124 \<notin> set FOLDER_HEADER_TYPE_FOLDER"
  "124 \<notin> set FOLDER_HEADER_TYPE_FILE"
  "124 \<notin> set FOLDER_HEADER_TYPE_END_TRANSFER"
  by (simp_all add: FOLDER_PROTOCOL_PREFIX_def FOLDER_HEADER_TYPE_FOLDER_def
      FOLDER_HEADER_TYPE_FILE_def FOLDER_HEADER_TYPE_END_TRANSFER_def ustr_def)

lemma types_distinct:
  "FOLDER_HEADER_TYPE_FOLDER \<noteq> FOLDER_HEADER_TYPE_TOTAL_INFO"
  "FOLDER_HEADER_TYPE_FILE \<noteq> FOLDER_HEADER_TYPE_TOTAL_INFO"
  "FOLDER_HEADER_TYPE_END_TRANSFER \<noteq> FOLDER_HEADER_TYPE_TOTAL_INFO"
  by (simp_all add: FOLDER_HEADER_TYPE_FOLDER_def FOLDER_HEADER_TYPE_FILE_def
      FOLDER_HEADER_TYPE_END_TRANSFER_def FOLDER_HEADER_TYPE_TOTAL_INFO_def ustr_def)

text \<open>Without \<^verbatim>\<open>TOTAL_INFO\<close> the expected totals stay at \<open>-1\<close> and the verification fails.\<close>

lemma round_totals_missing:
  assumes "round rt n (s, w) (s', w')"
    and "total_expected_items s = Some (- 1)" and "total_expected_size s = Some (- 1)"
    and "\<not> transfer_success s"
    and "current_state s \<noteq> STATE_WAITING_FOR_ROOT_FOLDER_HEADER"
    and "current_state s \<noteq> STATE_WAITING_FOR_TOTAL_INFO_HEADER"
  shows "total_expected_items s' = Some (- 1) \<and> total_expected_size s' = Some (- 1)
       \<and> \<not> transfer_success s'
       \<and> current_state s' \<noteq> STATE_WAITING_FOR_ROOT_FOLDER_HEADER
       \<and> current_state s' \<noteq> STATE_WAITING_FOR_TOTAL_INFO_HEADER"
  using assms(1)
proof (cases rule: round_cases)
  case (root w1)
  with assms(5) show ?thesis by simp
next
  case (total w1)
  with assms(6) show ?thesis by simp
next
  case (item w1)
  note f = item_header_frame[OF item(2)]
  have "\<not> verification_passed s'"
    using f(2,3) assms(2,3) by (simp add: verification_passed_iff)
  with f assms item(1) show ?thesis by auto
next
  case (data w1)
  note f = receiving_file_data_frame[OF data(2)]
  from f(3,4,5,7) assms data(1) show ?thesis by auto
next
  case idle
  with assms show ?thesis by simp
next
  case (handshake w1)
  with assms show ?thesis by (auto simp: handshake_state_def)
qed

lemma session_totals_missing:
  assumes "session rt n c sizes c'"
    and "total_expected_items (fst c) = Some (- 1)" and "total_expected_size (fst c) = Some (- 1)"
    and "\<not> transfer_success (fst c)"
    and "current_state (fst c) \<noteq> STATE_WAITING_FOR_ROOT_FOLDER_HEADER"
    and "current_state (fst c) \<noteq> STATE_WAITING_FOR_TOTAL_INFO_HEADER"
  shows "total_expected_items (fst c') = Some (- 1) \<and> total_expected_size (fst c') = Some (- 1)
       \<and> \<not> transfer_success (fst c')
       \<and> current_state (fst c') \<noteq> STATE_WAITING_FOR_ROOT_FOLDER_HEADER
       \<and> current_state (fst c') \<noteq> STATE_WAITING_FOR_TOTAL_INFO_HEADER"
  using assms
proof (induction rule: session.induct)
  case start
  then show ?case by simp
next
  case (step sizes c' c'')
  from step(2) have r: "round rt n (fst c', snd c') (fst c'', snd c'')" by simp
  from step(3)[OF step(4-8)] round_totals_missing[OF r] show ?case by blast
qed

text \<open>
  Claim C5: let the receiver wait for \<^verbatim>\<open>TOTAL_INFO\<close> (with \<open>transfer_success\<close> still unset)
  and read the frame \<^verbatim>\<open>FDR_V1\<close> and then the type \<^verbatim>\<open>FOLDER\<close>, \<^verbatim>\<open>FILE\<close> or
  \<^verbatim>\<open>END_TRANSFER\<close>. The round ends without an exception: both expected totals are set
  to \<open>-1\<close>, the state becomes \<^verbatim>\<open>WAITING_FOR_ITEM_HEADER\<close>, and the two frames are put
  back in front of the carry-over buffer, so that the next two reads return them again
  without touching the socket and leave the buffer as it was after the type. Whatever
  rounds follow, the verification fails, \<open>transfer_success\<close> stays unset, and the round
  of the handshake sends \<^verbatim>\<open>TRANSFER_ERROR\<close>.
\<close>

theorem total_info_skipped:
  assumes "current_state s = STATE_WAITING_FOR_TOTAL_INFO_HEADER"
    and "\<not> transfer_success s"
    and "next_header s w = (Inr FOLDER_PROTOCOL_PREFIX, s1, w1)"
    and "next_header s1 w1 = (Inr ty, s2, w2)"
    and "ty \<in> {FOLDER_HEADER_TYPE_FOLDER, FOLDER_HEADER_TYPE_FILE, FOLDER_HEADER_TYPE_END_TRANSFER}"
  shows "\<exists>s3. loop_body rt receive_buffer_size s w = Some (None, s3, w2)
           \<and> total_expected_items s3 = Some (- 1) \<and> total_expected_size s3 = Some (- 1)
           \<and> current_state s3 = STATE_WAITING_FOR_ITEM_HEADER
           \<and> (\<exists>sa. next_header s3 w2 = (Inr FOLDER_PROTOCOL_PREFIX, sa, w2)
                  \<and> next_header sa w2 = (Inr ty, s3\<lparr>received_buffer := received_buffer s2\<rparr>, w2))
           \<and> (\<forall>sizes s4 w4.
                 session rt receive_buffer_size (s3, w2) sizes (s4, w4) \<longrightarrow>
                   \<not> verification_passed s4 \<and> \<not> transfer_success s4
                   \<and> (current_state s4 = STATE_WAITING_FOR_HANDSHAKE_REQUEST \<longrightarrow>
                        loop_body rt receive_buffer_size s4 w4
                          = Some (None, s4\<lparr>current_state := STATE_HANDSHAKE_COMPLETE\<rparr>,
                                  snd (sendall HANDSHAKE_ERROR_SIGNAL w4))))"
proof -
  obtain tb where tb: "utf8_encode ty = Some tb" and nosep: "124 \<notin> set ty"
    and nti: "ty \<noteq> FOLDER_HEADER_TYPE_TOTAL_INFO"
    using assms(5) encode_types types_no_sep types_distinct by auto
  define buf where "buf = ''FDR_V1'' @ [HEADER_SEPARATOR] @ tb @ [HEADER_SEPARATOR] @ received_buffer s2"
  define s3 where "s3 = s2\<lparr>received_buffer := buf, current_state := STATE_WAITING_FOR_ITEM_HEADER,
      total_expected_items := Some (- 1), total_expected_size := Some (- 1)\<rparr>"
  have body: "loop_body rt receive_buffer_size s w = Some (None, s3, w2)"
    using assms(1,3,4,5) tb nti
    by (auto simp: loop_body_def total_info_header_def is_handshake_request_prefix encode_prefix
        s3_def buf_def)
  define sa where "sa = s3\<lparr>received_buffer := tb @ HEADER_SEPARATOR # received_buffer s2\<rparr>"
  have r1: "next_header s3 w2 = (Inr FOLDER_PROTOCOL_PREFIX, sa, w2)"
    unfolding sa_def
    by (rule next_header_buffered[OF encode_prefix types_no_sep(1)]) (simp add: s3_def buf_def)
  have r2: "next_header sa w2 = (Inr ty, s3\<lparr>received_buffer := received_buffer s2\<rparr>, w2)"
    using next_header_buffered[OF tb nosep, of sa "received_buffer s2" w2]
    by (simp add: sa_def)
  have ts3: "\<not> transfer_success s3"
    using assms(2) next_header_fields(4)[OF assms(3)] next_header_fields(4)[OF assms(4)]
    by (simp add: s3_def)
  have later: "\<not> verification_passed s4 \<and> \<not> transfer_success s4
        \<and> (current_state s4 = STATE_WAITING_FOR_HANDSHAKE_REQUEST \<longrightarrow>
             loop_body rt receive_buffer_size s4 w4
               = Some (None, s4\<lparr>current_state := STATE_HANDSHAKE_COMPLETE\<rparr>,
                       snd (sendall HANDSHAKE_ERROR_SIGNAL w4)))"
    if "session rt receive_buffer_size (s3, w2) sizes (s4, w4)" for sizes s4 w4
  proof -
    from session_totals_missing[OF that] ts3
    have i: "total_expected_items s4 = Some (- 1)" "total_expected_size s4 = Some (- 1)"
      "\<not> transfer_success s4"
      by (simp_all add: s3_def)
    then have "\<not> verification_passed s4" by (simp add: verification_passed_iff)
    with i(3) show ?thesis
      by (simp add: loop_body_def handshake_state_def perform_folder_handshake_server_def)
  qed
  show ?thesis
    using body r1 r2 later by (intro exI[of _ s3]) (simp add: s3_def)
qed

theorem total_info_skipped_witness:
  "current_state (waiting_for_total_info ''FDR_V1|END_TRANSFER|'')
     = STATE_WAITING_FOR_TOTAL_INFO_HEADER
   \<and> \<not> transfer_success (waiting_for_total_info ''FDR_V1|END_TRANSFER|'')
   \<and> next_header (waiting_for_total_info ''FDR_V1|END_TRANSFER|'') (quiet_world [])
     = (Inr FOLDER_PROTOCOL_PREFIX, waiting_for_total_info ''END_TRANSFER|'', quiet_world [])
   \<and> next_header (waiting_for_total_info ''END_TRANSFER|'') (quiet_world [])
     = (Inr FOLDER_HEADER_TYPE_END_TRANSFER, waiting_for_total_info [], quiet_world [])
   \<and> loop_body ascii_rt 65536 (waiting_for_total_info ''FDR_V1|END_TRANSFER|'') (quiet_world [])
     = Some (None, waiting_for_item ''FDR_V1|END_TRANSFER|'' (Some (- 1)) (Some (- 1)) 1 0,
             quiet_world [])
   \<and> session ascii_rt 65536
       (waiting_for_item ''FDR_V1|END_TRANSFER|'' (Some (- 1)) (Some (- 1)) 1 0, quiet_world [])
       []
       ((waiting_for_item [] (Some (- 1)) (Some (- 1)) 1 0)
          \<lparr>current_state := STATE_WAITING_FOR_HANDSHAKE_REQUEST\<rparr>, quiet_world [])
   \<and> loop_body ascii_rt 65536
       ((waiting_for_item [] (Some (- 1)) (Some (- 1)) 1 0)
          \<lparr>current_state := STATE_WAITING_FOR_HANDSHAKE_REQUEST\<rparr>) (quiet_world [])
     = Some (None,
             (waiting_for_item [] (Some (- 1)) (Some (- 1)) 1 0)
               \<lparr>current_state := STATE_HANDSHAKE_COMPLETE\<rparr>,
             (quiet_world [])\<lparr>sock_out := [''TRANSFER_ERROR'']\<rparr>)"
proof -
  let ?sT = "waiting_for_total_info ''FDR_V1|END_TRANSFER|''"
  let ?s3 = "waiting_for_item ''FDR_V1|END_TRANSFER|'' (Some (- 1)) (Some (- 1)) 1 0"
  let ?s4 = "(waiting_for_item [] (Some (- 1)) (Some (- 1)) 1 0)
      \<lparr>current_state := STATE_WAITING_FOR_HANDSHAKE_REQUEST\<rparr>"
  let ?w = "quiet_world []"
  have h1: "current_state ?sT = STATE_WAITING_FOR_TOTAL_INFO_HEADER"
    and h2: "\<not> transfer_success ?sT"
    by (simp_all add: waiting_for_total_info_def waiting_for_item_def initial_fstate_def)
  have h3: "next_header ?sT ?w
      = (Inr FOLDER_PROTOCOL_PREFIX, waiting_for_total_info ''END_TRANSFER|'', ?w)"
    by (simp add: header_eval waiting_for_total_info_def)
  have h4: "next_header (waiting_for_total_info ''END_TRANSFER|'') ?w
      = (Inr FOLDER_HEADER_TYPE_END_TRANSFER, waiting_for_total_info [], ?w)"
    by (simp add: header_eval waiting_for_total_info_def)
  have h5: "FOLDER_HEADER_TYPE_END_TRANSFER
      \<in> {FOLDER_HEADER_TYPE_FOLDER, FOLDER_HEADER_TYPE_FILE, FOLDER_HEADER_TYPE_END_TRANSFER}"
    by simp
  have n1: "next_header ?s3 ?w
      = (Inr FOLDER_PROTOCOL_PREFIX,
         waiting_for_item ''END_TRANSFER|'' (Some (- 1)) (Some (- 1)) 1 0, ?w)"
    by (simp add: header_eval)
  have n2: "next_header (waiting_for_item ''END_TRANSFER|'' (Some (- 1)) (Some (- 1)) 1 0) ?w
      = (Inr FOLDER_HEADER_TYPE_END_TRANSFER,
         waiting_for_item [] (Some (- 1)) (Some (- 1)) 1 0, ?w)"
    by (simp add: header_eval)
  have c: "cancel_q ?w = []" and st3: "current_state ?s3 = STATE_WAITING_FOR_ITEM_HEADER"
    by (simp_all add: quiet_world_def waiting_for_item_def)
  have b3: "loop_body ascii_rt 65536 ?s3 ?w = Some (None, ?s4, ?w)"
    unfolding loop_body_def st3 using item_header_end_transfer[OF n1 n2, of ascii_rt]
    by (simp add: end_transfer_def close_current_file_def verification_passed_def
        waiting_for_item_def initial_fstate_def)
  have r: "rounds 1 ascii_rt 65536 [] (?s3, ?w) = Some ([], ?s4, ?w)"
    using b3 c st3
    by (simp add: is_set_def admitted_def)
  have sess: "session ascii_rt 65536 (?s3, ?w) [] (?s4, ?w)"
    by (rule rounds_session[OF r session.start])
  from total_info_skipped[OF h1 h2 h3 h4 h5, of ascii_rt 65536] obtain s3 where
    b: "loop_body ascii_rt 65536 ?sT ?w = Some (None, s3, ?w)"
    and t: "total_expected_items s3 = Some (- 1)" "total_expected_size s3 = Some (- 1)"
      "current_state s3 = STATE_WAITING_FOR_ITEM_HEADER"
    and later: "\<And>sizes s4 w4. session ascii_rt 65536 (s3, ?w) sizes (s4, w4) \<Longrightarrow>
        current_state s4 = STATE_WAITING_FOR_HANDSHAKE_REQUEST \<Longrightarrow>
        loop_body ascii_rt 65536 s4 w4
          = Some (None, s4\<lparr>current_state := STATE_HANDSHAKE_COMPLETE\<rparr>,
                  snd (sendall HANDSHAKE_ERROR_SIGNAL w4))"
    by blast
  have eq: "s3 = ?s3"
  proof -
    from next_header_frame[OF h3] next_header_frame[OF h4] b h1
    show ?thesis
      by (simp add: loop_body_def total_info_header_def h3 h4 is_handshake_request_prefix
            encode_prefix encode_types types_distinct)
         (simp add: waiting_for_total_info_def waiting_for_item_def initial_fstate_def
            HEADER_SEPARATOR_def)
  qed
  have "loop_body ascii_rt 65536 ?s4 ?w
      = Some (None, ?s4\<lparr>current_state := STATE_HANDSHAKE_COMPLETE\<rparr>,
              snd (sendall HANDSHAKE_ERROR_SIGNAL ?w))"
    by (rule later[OF sess[folded eq]]) simp
  then have l: "loop_body ascii_rt 65536 ?s4 ?w
      = Some (None,
              (waiting_for_item [] (Some (- 1)) (Some (- 1)) 1 0)
                \<lparr>current_state := STATE_HANDSHAKE_COMPLETE\<rparr>,
              ?w\<lparr>sock_out := [''TRANSFER_ERROR'']\<rparr>)"
    by (simp add: sendall_def quiet_world_def HANDSHAKE_ERROR_SIGNAL_def)
  from h1 h2 h3 h4 b[unfolded eq] sess l show ?thesis by blast
qed

subsection \<open>Files of size 0\<close>

lemma unique_path_fresh:
  "unique_path w b e c f = Inr p \<Longrightarrow> \<not> path_exists w p"
proof (induction w b e c f rule: unique_path.induct)
  case (1 w b e c f)
  show ?case
  proof (cases "path_exists w f")
    case False
    with 1(2) show ?thesis by (subst (asm) unique_path.simps) simp
  next
    case True
    with 1(2) have ok: "\<not> c + 1 > 10000"
      and r: "unique_path w b e (c + 1) (b @ UNDERSCORE # digits c @ e) = Inr p"
      by (subst (asm) unique_path.simps, simp add: Let_def split: if_splits)+
    from 1(1)[OF True refl refl ok r] show ?thesis .
  qed
qed

lemma makedirs_frame:
  "makedirs p w = Inr w2 \<Longrightarrow> w2 = w\<lparr>dirs := dirs w2\<rparr>"
  by (auto simp: makedirs_def split: if_splits)

lemma sanitize_path_frame:
  "sanitize_path rt b r w = (x, w1) \<Longrightarrow> w1 = w\<lparr>dirs := dirs w1\<rparr>"
  by (auto simp: sanitize_path_def Let_def dest!: makedirs_frame
      split: if_splits sum.splits)

lemma frame_fields:
  assumes "w1 = w\<lparr>dirs := d\<rparr>"
  shows "sock_in w1 = sock_in w" "recv_log w1 = recv_log w" "files w1 = files w"
    "sock_out w1 = sock_out w" "cancel_q w1 = cancel_q w"
  using assms by simp_all

lemma prepare_file_zero:
  assumes "prepare_file rt path 0 s w = (None, s', w')"
  shows "\<exists>p. current_file_path s' = Some p \<and> files w p = None
             \<and> files w' = (files w)(p \<mapsto> [])"
    and "current_file_handle s' = None"
    and "received_buffer s' = received_buffer s"
    and "sock_in w' = sock_in w" and "recv_log w' = recv_log w"
proof -
  from assms obtain dir where dir: "current_save_dir s = Some dir"
    by (auto simp: prepare_file_def split: option.splits)
  from assms dir obtain sp w1 where sp: "sanitize_path rt dir path w = (Inr sp, w1)"
    by (auto simp: prepare_file_def split: prod.splits sum.splits)
  note f1 = frame_fields[OF sanitize_path_frame[OF sp]]
  from assms dir sp obtain w2 where
    md: "(if dirname sp \<noteq> [] \<and> \<not> path_exists w1 (dirname sp)
          then makedirs (dirname sp) w1 else Inr w1) = Inr w2"
    by (auto simp: prepare_file_def Let_def split: sum.splits if_splits)
  have "w2 = w1\<lparr>dirs := dirs w2\<rparr>"
    using md makedirs_frame by (auto split: if_splits)
  note f2 = frame_fields[OF this]
  from assms dir sp md obtain fp where
    up: "(case splitext sp of (base, ext) \<Rightarrow> unique_path w2 base ext 1 sp) = Inr fp"
    by (auto simp: prepare_file_def Let_def split: sum.splits if_splits)
  then have fresh: "\<not> path_exists w2 fp"
    by (auto split: prod.splits dest: unique_path_fresh)
  from assms dir sp md up obtain w3 where
    h: "current_file_handle s = None" and o: "open_wb fp w2 = Inr w3"
    and r: "s' = s\<lparr>current_file_path := Some fp,
                    items_received_count := items_received_count s + 1,
                    current_state := STATE_WAITING_FOR_ITEM_HEADER\<rparr>" "w' = w3"
    by (auto simp: prepare_file_def Let_def close_current_file_def
        split: sum.splits if_splits option.splits)
  from o have w3: "w3 = w2\<lparr>files := (files w2)(fp \<mapsto> [])\<rparr>"
    by (auto simp: open_wb_def split: if_splits)
  from fresh have "files w fp = None" by (simp add: path_exists_def f1 f2)
  then show "\<exists>p. current_file_path s' = Some p \<and> files w p = None
             \<and> files w' = (files w)(p \<mapsto> [])"
    by (simp add: r w3 f1 f2)
  show "current_file_handle s' = None" by (simp add: r h)
  show "received_buffer s' = received_buffer s" by (simp add: r)
  show "sock_in w' = sock_in w" "recv_log w' = recv_log w" by (simp_all add: r w3 f1 f2)
qed

lemma prepare_destination_frame:
  assumes "prepare_destination rt s w = (Inr p, w')"
  shows "sock_in w' = sock_in w" "recv_log w' = recv_log w" "files w' = files w"
    "\<not> path_exists w' p"
proof -
  let ?b = "abspath w (ustr ''received_files'')"
  from assms obtain w1 where
    md: "(if \<not> path_exists w ?b then makedirs ?b w else Inr w) = Inr w1"
    by (auto simp: prepare_destination_def Let_def split: sum.splits)
  have "w1 = w\<lparr>dirs := dirs w1\<rparr>" using md makedirs_frame by (auto split: if_splits)
  note f1 = frame_fields[OF this]
  from assms md obtain fb where
    sp: "sanitize_path rt ?b (basename (filename_from_header s)) w1 = (Inr fb, w')"
    and up: "(case splitext fb of (base, ext) \<Rightarrow> unique_path w' base ext 1 fb) = Inr p"
    by (auto simp: prepare_destination_def Let_def split: sum.splits prod.splits)
  note f2 = frame_fields[OF sanitize_path_frame[OF sp]]
  show "sock_in w' = sock_in w" "recv_log w' = recv_log w" "files w' = files w"
    by (simp_all add: f1 f2)
  from up show "\<not> path_exists w' p" by (auto split: prod.splits dest: unique_path_fresh)
qed

lemma is_set_frame:
  assumes "is_set w = (c, w1)"
  shows "sock_in w1 = sock_in w" "recv_log w1 = recv_log w" "files w1 = files w"
    "dirs w1 = dirs w"
  using assms by (auto simp: is_set_def split: list.splits)

lemma file_type_distinct:
  "FOLDER_HEADER_TYPE_FILE \<noteq> FOLDER_HEADER_TYPE_END_TRANSFER"
  "FOLDER_HEADER_TYPE_FILE \<noteq> FOLDER_HEADER_TYPE_FOLDER"
  by (simp_all add: FOLDER_HEADER_TYPE_FOLDER_def FOLDER_HEADER_TYPE_FILE_def
      FOLDER_HEADER_TYPE_END_TRANSFER_def ustr_def)

lemma parse_size_zero: "py_int rt seg = Some 0 \<Longrightarrow> parse_size rt seg = Inr 0"
  by (simp add: parse_size_def TEST_FILE_SIZE_def)

lemma folder_zero_size_file:
  assumes "current_state s = STATE_WAITING_FOR_ITEM_HEADER"
    and "next_header s w = (Inr FOLDER_PROTOCOL_PREFIX, s1, w1)"
    and "next_header s1 w1 = (Inr FOLDER_HEADER_TYPE_FILE, s2, w2)"
    and "next_header s2 w2 = (Inr path, s3, w3)"
    and "next_header s3 w3 = (Inr size_segment, s4, w4)"
    and "py_int rt size_segment = Some 0"
    and "loop_body rt receive_buffer_size s w = Some (None, s', w')"
  shows "current_state s' = STATE_WAITING_FOR_ITEM_HEADER
       \<and> items_received_count s' = items_received_count s + 1
       \<and> current_file_handle s' = None
       \<and> current_file_bytes_expected s' = 0
       \<and> received_bytes_total s' = received_bytes_total s
       \<and> received_buffer s' = received_buffer s4
       \<and> sock_in w' = sock_in w4 \<and> recv_log w' = recv_log w4
       \<and> (\<exists>p. current_file_path s' = Some p \<and> files w4 p = None
                \<and> files w' = (files w4)(p \<mapsto> []))
       \<and> loop_body rt receive_buffer_size s' w' = Some (item_header rt s' w')"
proof -
  let ?s3 = "s3\<lparr>current_item_path_protocol := path\<rparr>"
  note n1 = next_header_fields[OF assms(2)] and n2 = next_header_fields[OF assms(3)]
    and n3 = next_header_fields[OF assms(4)] and n4 = next_header_fields[OF assms(5)]
  from assms(1,7) have ih: "item_header rt s w = (None, s', w')"
    by (simp add: loop_body_def)
  then obtain rel where rel: "relative_to_session_root ?s3 = Inr rel"
    and fi: "file_item rt rel ?s3 w3 = (None, s', w')"
    by (auto simp: item_header_def assms(2,3,4) is_handshake_request_prefix file_type_distinct
        Let_def split: sum.splits)
  have nh: "next_header ?s3 w3 = (Inr size_segment, s4\<lparr>current_item_path_protocol := path\<rparr>, w4)"
    using assms(5) by (auto simp: next_header_def split: prod.splits sum.splits)
  let ?p = "if suffix [SLASH] rel then rstrip_while (\<lambda>c. c = SLASH) rel else rel"
  let ?s4 = "s4\<lparr>current_item_path_protocol := path, current_file_bytes_received := 0,
                 current_file_bytes_expected := 0\<rparr>"
  from fi have pf: "prepare_file rt ?p 0 ?s4 w4 = (None, s', w')"
    by (auto simp: file_item_def Let_def nh parse_size_zero[OF assms(6)] split: if_splits)
  note z = prepare_file_zero[OF pf] and f = prepare_file_frame[OF pf]
  have st: "current_state s' = STATE_WAITING_FOR_ITEM_HEADER" using f(8) by simp
  have cnt: "items_received_count s' = items_received_count s + 1"
    using f(7) n1 n2 n3 n4 by simp
  have tot: "received_bytes_total s' = received_bytes_total s"
    using f(1) n1 n2 n3 n4 by simp
  have ex: "current_file_bytes_expected s' = 0" using f(6) by simp
  have nx: "loop_body rt receive_buffer_size s' w' = Some (item_header rt s' w')"
    by (simp add: loop_body_def st)
  from z st cnt tot ex nx show ?thesis by simp
qed

lemma single_zero_size_file:
  assumes "read_single_file_header rt (initial_sstate initial_buffer) v = (None, t1, v1)"
    and "filesize t1 = 0"
    and "format_bytes rt receive_buffer_size = None"
    and "format_bytes rt (current_buffer_size_from_header t1) = None"
    and "is_set v1 = (False, v2)"
    and "prepare_destination rt t1 v2 = (Inr p, v3)"
    and "open_wb p v3 = Inr v4"
  shows "handle_client_connection rt receive_buffer_size initial_buffer v
           = (t1\<lparr>file_path := Some p, transfer_success_sf := True, file_handle := None\<rparr>,
              v4\<lparr>sock_closed := True\<rparr>)
       \<and> files v3 p = None \<and> files v4 = (files v3)(p \<mapsto> [])
       \<and> sock_in v4 = sock_in v1 \<and> recv_log v4 = recv_log v1"
proof -
  note d = prepare_destination_frame[OF assms(6)] and c = is_set_frame[OF assms(5)]
  from assms(7) have v4: "v4 = v3\<lparr>files := (files v3)(p \<mapsto> [])\<rparr>"
    by (auto simp: open_wb_def split: if_splits)
  have "format_bytes rt 0 = None" by (simp add: format_bytes_def)
  then have m: "status_messages rt receive_buffer_size t1 = None"
    by (simp add: status_messages_def assms(2,3,4))
  have "receive_file receive_buffer_size p (t1\<lparr>file_path := Some p\<rparr>) v3
      = (t1\<lparr>file_path := Some p, transfer_success_sf := True, file_handle := None\<rparr>, v4)"
    by (simp add: receive_file_def assms(2,7))
  then have "handle_client_connection rt receive_buffer_size initial_buffer v
           = (t1\<lparr>file_path := Some p, transfer_success_sf := True, file_handle := None\<rparr>,
              v4\<lparr>sock_closed := True\<rparr>)"
    by (simp add: handle_client_connection_def receive_after_header_def assms(1,5,6) m)
  moreover from d(4) have "files v3 p = None" by (simp add: path_exists_def)
  ultimately show ?thesis using d c by (simp add: v4)
qed

text \<open>
  A declared size of 0, when nothing in the way raises.
  \<^item> Folder receiver: let the receiver wait for an item header and read the frames
    \<^verbatim>\<open>FDR_V1\<close>, \<^verbatim>\<open>FILE\<close>, a path and a size segment that \<^verbatim>\<open>int\<close> reads as 0, and let the
    round raise nothing. Then the round has created a file that did not exist, with empty
    content, and no handle is left open; it has made no \<^verbatim>\<open>recv\<close> after the header and
    has left the carry-over buffer and \<open>received_bytes_total\<close> as they were;
    \<open>items_received_count\<close> is one more; the state is still \<^verbatim>\<open>WAITING_FOR_ITEM_HEADER\<close>,
    so that the next round reads an item header.
  \<^item> Single-file receiver: let the header give the size 0, let \<^verbatim>\<open>format_bytes\<close> return for
    the receiver's buffer size and for the sender's hint (the status messages before the
    destination is prepared), let nothing be cancelled, the destination path be found
    and \<^verbatim>\<open>open\<close> succeed. Then the handler ends with \<open>transfer_success\<close> set, the
    destination is a new file with empty content, and no \<^verbatim>\<open>recv\<close> was made after the
    header.
\<close>

theorem zero_size_file:
  "(current_state s = STATE_WAITING_FOR_ITEM_HEADER
      \<and> next_header s w = (Inr FOLDER_PROTOCOL_PREFIX, s1, w1)
      \<and> next_header s1 w1 = (Inr FOLDER_HEADER_TYPE_FILE, s2, w2)
      \<and> next_header s2 w2 = (Inr path, s3, w3)
      \<and> next_header s3 w3 = (Inr size_segment, s4, w4)
      \<and> py_int rt size_segment = Some 0
      \<and> loop_body rt receive_buffer_size s w = Some (None, s', w')
    \<longrightarrow> current_state s' = STATE_WAITING_FOR_ITEM_HEADER
        \<and> items_received_count s' = items_received_count s + 1
        \<and> current_file_handle s' = None
        \<and> current_file_bytes_expected s' = 0
        \<and> received_bytes_total s' = received_bytes_total s
        \<and> received_buffer s' = received_buffer s4
        \<and> sock_in w' = sock_in w4 \<and> recv_log w' = recv_log w4
        \<and> (\<exists>p. current_file_path s' = Some p \<and> files w4 p = None
                 \<and> files w' = (files w4)(p \<mapsto> []))
        \<and> loop_body rt receive_buffer_size s' w' = Some (item_header rt s' w'))
   \<and> (read_single_file_header rt (initial_sstate initial_buffer) v = (None, t1, v1)
      \<and> filesize t1 = 0
      \<and> format_bytes rt receive_buffer_size = None
      \<and> format_bytes rt (current_buffer_size_from_header t1) = None
      \<and> is_set v1 = (False, v2)
      \<and> prepare_destination rt t1 v2 = (Inr p, v3)
      \<and> open_wb p v3 = Inr v4
    \<longrightarrow> handle_client_connection rt receive_buffer_size initial_buffer v
          = (t1\<lparr>file_path := Some p, transfer_success_sf := True, file_handle := None\<rparr>,
             v4\<lparr>sock_closed := True\<rparr>)
        \<and> files v3 p = None \<and> files v4 = (files v3)(p \<mapsto> [])
        \<and> sock_in v4 = sock_in v1 \<and> recv_log v4 = recv_log v1)"
  using folder_zero_size_file[of s w s1 w1 s2 w2 path s3 w3 size_segment s4 w4 rt
      receive_buffer_size s' w']
    single_zero_size_file[where rt = rt and initial_buffer = initial_buffer and v = v
      and ?t1.0 = t1 and ?v1.0 = v1 and ?v2.0 = v2 and p = p and ?v3.0 = v3 and ?v4.0 = v4
      and receive_buffer_size = receive_buffer_size]
  by blast


lemma folder_zero_example:
  "map_option (\<lambda>(e, s, w). (e, current_file_path s))
     (loop_body ascii_rt 65536
        (waiting_for_item ''FDR_V1|FILE|photos/empty.txt|0|'' (Some 2) (Some 0) 1 0)
        (served_world []))
   = Some (None, Some (ustr ''/srv/received_folders/photos/empty.txt''))"
  by code_simp

lemma single_zero_example:
  "(case read_single_file_header ascii_rt (initial_sstate ''empty.txt|0|4096|'') (quiet_world [])
    of (e, t1, v1) \<Rightarrow>
      (case is_set v1 of (c, v2) \<Rightarrow>
        (case prepare_destination ascii_rt t1 v2 of (r, v3) \<Rightarrow>
          (e, filesize t1, current_buffer_size_from_header t1, c, r,
           (case r of Inr p \<Rightarrow> (case open_wb p v3 of Inr _ \<Rightarrow> True | Inl _ \<Rightarrow> False)
            | Inl _ \<Rightarrow> False),
           recv_log v1))))
   = (None, 0, 4096, False, Inr (ustr ''/srv/received_files/empty.txt''), True, [])"
  by code_simp

theorem zero_size_file_witness:
  "(\<exists>s' w'. loop_body ascii_rt 65536
               (waiting_for_item ''FDR_V1|FILE|photos/empty.txt|0|'' (Some 2) (Some 0) 1 0)
               (served_world []) = Some (None, s', w')
        \<and> current_state s' = STATE_WAITING_FOR_ITEM_HEADER \<and> items_received_count s' = 2
        \<and> recv_log w' = []
        \<and> files w' (ustr ''/srv/received_folders/photos/empty.txt'') = Some [])
   \<and> (\<exists>t u. handle_client_connection ascii_rt 65536 ''empty.txt|0|4096|'' (quiet_world [])
               = (t, u)
        \<and> transfer_success_sf t \<and> recv_log u = []
        \<and> files u (ustr ''/srv/received_files/empty.txt'') = Some [])"
proof -
  let ?s = "\<lambda>buf. waiting_for_item buf (Some 2) (Some 0) 1 0"
  let ?w = "served_world []"
  from folder_zero_example obtain s' w' where
    lb: "loop_body ascii_rt 65536 (?s ''FDR_V1|FILE|photos/empty.txt|0|'') ?w = Some (None, s', w')"
    and cp: "current_file_path s' = Some (ustr ''/srv/received_folders/photos/empty.txt'')"
    by (auto split: prod.splits)
  have h0: "current_state (?s ''FDR_V1|FILE|photos/empty.txt|0|'') = STATE_WAITING_FOR_ITEM_HEADER"
    by (simp add: waiting_for_item_def)
  have h1: "next_header (?s ''FDR_V1|FILE|photos/empty.txt|0|'') ?w
      = (Inr FOLDER_PROTOCOL_PREFIX, ?s ''FILE|photos/empty.txt|0|'', ?w)"
    by (simp add: header_eval served_world_def)
  have h2: "next_header (?s ''FILE|photos/empty.txt|0|'') ?w
      = (Inr FOLDER_HEADER_TYPE_FILE, ?s ''photos/empty.txt|0|'', ?w)"
    by (simp add: header_eval served_world_def)
  have h3: "next_header (?s ''photos/empty.txt|0|'') ?w
      = (Inr (ustr ''photos/empty.txt''), ?s ''0|'', ?w)"
    by (simp add: header_eval served_world_def)
  have h4: "next_header (?s ''0|'') ?w = (Inr (ustr ''0''), ?s [], ?w)"
    by (simp add: header_eval served_world_def)
  have h5: "py_int ascii_rt (ustr ''0'') = Some 0"
    by (simp add: ascii_rt_def ascii_int_def ustr_def)
  from zero_size_file[THEN conjunct1, THEN mp, OF conjI[OF h0 conjI[OF h1 conjI[OF h2
        conjI[OF h3 conjI[OF h4 conjI[OF h5 lb]]]]]]] cp
  have a: "current_state s' = STATE_WAITING_FOR_ITEM_HEADER \<and> items_received_count s' = 2
      \<and> recv_log w' = []
      \<and> files w' (ustr ''/srv/received_folders/photos/empty.txt'') = Some []"
    by (auto simp: waiting_for_item_def served_world_def quiet_world_def)
  let ?p = "ustr ''/srv/received_files/empty.txt''"
  from single_zero_example obtain t1 v1 v2 v3 v4 where
    r: "read_single_file_header ascii_rt (initial_sstate ''empty.txt|0|4096|'') (quiet_world [])
        = (None, t1, v1)"
    and z: "filesize t1 = 0" and hint: "current_buffer_size_from_header t1 = 4096"
    and c: "is_set v1 = (False, v2)"
    and d: "prepare_destination ascii_rt t1 v2 = (Inr ?p, v3)"
    and ow: "open_wb ?p v3 = Inr v4" and lg: "recv_log v1 = []"
    by (auto split: prod.splits sum.splits)
  have fb: "format_bytes ascii_rt 65536 = None"
    and fh: "format_bytes ascii_rt (current_buffer_size_from_header t1) = None"
    by (simp_all add: hint format_bytes_small)
  from zero_size_file[THEN conjunct2, THEN mp, OF conjI[OF r conjI[OF z conjI[OF fb
        conjI[OF fh conjI[OF c conjI[OF d ow]]]]]]] lg
  have b: "\<exists>t u. handle_client_connection ascii_rt 65536 ''empty.txt|0|4096|'' (quiet_world [])
               = (t, u)
        \<and> transfer_success_sf t \<and> recv_log u = []
        \<and> files u ?p = Some []"
    by simp
  from lb a b show ?thesis by blast
qed
text \<open>
  Claim C9 says that a declared size of 0 makes the single-file receiver create the empty
  file and report success. The header \<^verbatim>\<open>empty.txt|0|10000000000000000000000000000|\<close>
  declares the size 0 and a valid hint of \<open>10\<^sup>2\<^sup>8\<close>: \<^verbatim>\<open>format_bytes\<close> of the hint raises
  \<^verbatim>\<open>IndexError\<close> in the status message, the handler ends without success, no destination
  path has been chosen and no file has been created.
\<close>

theorem zero_size_file_large_hint_aborts:
  "(case handle_client_connection ascii_rt 65536
           ''empty.txt|0|10000000000000000000000000000|'' (quiet_world [])
    of (s', w') \<Rightarrow>
      (filesize s', current_buffer_size_from_header s', transfer_success_sf s',
       is_cancelled_sf s', file_path s', files w' (ustr ''/srv/received_files/empty.txt'')))
   = (0, 10000000000000000000000000000, False, True, None, None)"
  by code_simp

subsection \<open>The single-file receiver: the receive loop\<close>

text \<open>The cases of one turn of the receive loop, as a proof rule.\<close>

lemma receive_loop_cases:
  assumes "\<And>s w. \<not> received_bytes s < filesize s \<Longrightarrow> P s w (s, w)"
    and "\<And>s w w1. received_bytes s < filesize s \<Longrightarrow> is_set w = (True, w1)
           \<Longrightarrow> P s w (s\<lparr>is_cancelled_sf := True\<rparr>, w1)"
    and "\<And>s w w1. received_bytes s < filesize s \<Longrightarrow> is_set w = (False, w1)
           \<Longrightarrow> min m (filesize s - received_bytes s) \<le> 0 \<Longrightarrow> P s w (s, w1)"
    and "\<And>s w w1 w2. received_bytes s < filesize s \<Longrightarrow> is_set w = (False, w1)
           \<Longrightarrow> 0 < min m (filesize s - received_bytes s)
           \<Longrightarrow> sock_recv (nat (min m (filesize s - received_bytes s))) w1
                 = (Inl SocketTimeout, w2)
           \<Longrightarrow> P s w2 (receive_loop m s w2) \<Longrightarrow> P s w (receive_loop m s w2)"
    and "\<And>s w w1 w2 e. received_bytes s < filesize s \<Longrightarrow> is_set w = (False, w1)
           \<Longrightarrow> 0 < min m (filesize s - received_bytes s)
           \<Longrightarrow> sock_recv (nat (min m (filesize s - received_bytes s))) w1 = (Inl e, w2)
           \<Longrightarrow> e \<noteq> SocketTimeout \<Longrightarrow> P s w (s\<lparr>is_cancelled_sf := True\<rparr>, w2)"
    and "\<And>s w w1 w2. received_bytes s < filesize s \<Longrightarrow> is_set w = (False, w1)
           \<Longrightarrow> 0 < min m (filesize s - received_bytes s)
           \<Longrightarrow> sock_recv (nat (min m (filesize s - received_bytes s))) w1 = (Inr [], w2)
           \<Longrightarrow> P s w (s\<lparr>is_cancelled_sf := True\<rparr>, w2)"
    and "\<And>s w w1 w2 b. received_bytes s < filesize s \<Longrightarrow> is_set w = (False, w1)
           \<Longrightarrow> 0 < min m (filesize s - received_bytes s)
           \<Longrightarrow> sock_recv (nat (min m (filesize s - received_bytes s))) w1 = (Inr b, w2)
           \<Longrightarrow> b \<noteq> [] \<Longrightarrow> file_handle s = None
           \<Longrightarrow> P s w (s\<lparr>is_cancelled_sf := True\<rparr>, w2)"
    and "\<And>s w w1 w2 b h. received_bytes s < filesize s \<Longrightarrow> is_set w = (False, w1)
           \<Longrightarrow> 0 < min m (filesize s - received_bytes s)
           \<Longrightarrow> sock_recv (nat (min m (filesize s - received_bytes s))) w1 = (Inr b, w2)
           \<Longrightarrow> b \<noteq> [] \<Longrightarrow> file_handle s = Some h
           \<Longrightarrow> P (s\<lparr>received_bytes := received_bytes s + int (length b)\<rparr>)
                 (file_write h b w2)
                 (receive_loop m (s\<lparr>received_bytes := received_bytes s + int (length b)\<rparr>)
                    (file_write h b w2))
           \<Longrightarrow> P s w (receive_loop m (s\<lparr>received_bytes := received_bytes s + int (length b)\<rparr>)
                        (file_write h b w2))"
  shows "P s w (receive_loop m s w)"
proof -
  have "mm = m \<Longrightarrow> P s w (receive_loop mm s w)" for mm
  proof (induction mm s w rule: receive_loop.induct)
  case (1 mm s w)
  from "1.prems" have mm: "mm = m" .
  note IH = "1.IH"[unfolded mm]
  note R = receive_loop.simps[of m s w]
  have "P s w (receive_loop m s w)"
  proof (cases "received_bytes s < filesize s")
    case False
    with assms(1)[OF False] show ?thesis by (simp add: R)
  next
    case lt: True
    obtain c w1 where c: "is_set w = (c, w1)" by (cases "is_set w")
    show ?thesis
    proof (cases c)
      case True
      with c have ct: "is_set w = (True, w1)" by simp
      with assms(2)[OF lt ct] lt show ?thesis by (simp add: R)
    next
      case nc: False
      from c nc have c': "is_set w = (False, w1)" by simp
      from nc have cf: "c = False" by simp
      define n where "n = min m (filesize s - received_bytes s)"
      note R = R[folded n_def]
      show ?thesis
      proof (cases "n \<le> 0")
        case True
        with assms(3)[OF lt c' True[unfolded n_def]] lt c' show ?thesis by (simp add: R Let_def)
      next
        case False
        then have pos: "0 < min m (filesize s - received_bytes s)" unfolding n_def by linarith
        obtain r w2 where r: "sock_recv (nat n) w1 = (r, w2)" by (cases "sock_recv (nat n) w1")
        note r' = r[unfolded n_def]
        show ?thesis
        proof (cases r)
          case (Inl e)
          show ?thesis
          proof (cases "e = SocketTimeout")
            case True
            have ih: "P s w2 (receive_loop m s w2)"
              using IH(1)[OF _ c[symmetric] cf n_def False r[symmetric] Inl True refl] lt by simp
            from assms(4)[OF lt c' pos r'[unfolded Inl True] ih] lt c' False r Inl True
            show ?thesis by (simp add: R Let_def)
          next
            case ne: False
            from assms(5)[OF lt c' pos r'[unfolded Inl] ne] lt c' False r Inl ne
            show ?thesis by (simp add: R Let_def)
          qed
        next
          case (Inr b)
          show ?thesis
          proof (cases "b = []")
            case True
            from assms(6)[OF lt c' pos r'[unfolded Inr True]] lt c' False r Inr True
            show ?thesis by (simp add: R Let_def)
          next
            case nb: False
            show ?thesis
            proof (cases "file_handle s")
              case None
              from assms(7)[OF lt c' pos r'[unfolded Inr] nb None] lt c' False r Inr nb None
              show ?thesis by (simp add: R Let_def)
            next
              case (Some h)
              have ih: "P (s\<lparr>received_bytes := received_bytes s + int (length b)\<rparr>)
                 (file_write h b w2)
                 (receive_loop m (s\<lparr>received_bytes := received_bytes s + int (length b)\<rparr>)
                    (file_write h b w2))"
                using IH(2)[OF _ c[symmetric] cf n_def False r[symmetric] Inr nb Some refl] lt
                by simp
              from assms(8)[OF lt c' pos r'[unfolded Inr] nb Some ih] lt c' False r Inr nb Some
              show ?thesis by (simp add: R Let_def)
            qed
          qed
        qed
      qed
    qed
  qed
  then show ?case by (simp add: mm)
  qed
  then show ?thesis by simp
qed



lemma recv_pending:
  "recv n q = (r, q') \<Longrightarrow> pending q = (case r of Inr b \<Rightarrow> b | Inl e \<Rightarrow> []) @ pending q'"
  by (cases "(n, q)" rule: recv.cases) (auto split: if_splits)

lemma sock_recv_fields:
  assumes "sock_recv n w = (r, w')"
  shows "recv_log w' = recv_log w @ [n]" "files w' = files w" "dirs w' = dirs w"
    "pending (sock_in w) = (case r of Inr b \<Rightarrow> b | Inl e \<Rightarrow> []) @ pending (sock_in w')"
  using assms by (auto simp: sock_recv_def split: prod.splits dest: recv_pending)

lemma file_write_fields:
  "recv_log (file_write h b w) = recv_log w" "sock_in (file_write h b w) = sock_in w"
  "dirs (file_write h b w) = dirs w"
  "files (file_write h b w) p \<noteq> None \<longleftrightarrow> p = h \<or> files w p \<noteq> None"
  by (auto simp: file_write_def)


text \<open>What the receive loop keeps, and how far \<open>received_bytes\<close> can go.\<close>

lemma receive_loop_frame:
  "filesize (fst (receive_loop m s w)) = filesize s
   \<and> transfer_success_sf (fst (receive_loop m s w)) = transfer_success_sf s
   \<and> file_handle (fst (receive_loop m s w)) = file_handle s
   \<and> received_bytes s \<le> received_bytes (fst (receive_loop m s w))
   \<and> received_bytes (fst (receive_loop m s w))
       \<le> received_bytes s + int (length (pending (sock_in w)))
   \<and> dirs (snd (receive_loop m s w)) = dirs w
   \<and> (\<forall>p. files w p \<noteq> None \<longrightarrow> files (snd (receive_loop m s w)) p \<noteq> None)"
proof (rule receive_loop_cases[where m = m and P = "\<lambda>s w r.
    filesize (fst r) = filesize s
    \<and> transfer_success_sf (fst r) = transfer_success_sf s
    \<and> file_handle (fst r) = file_handle s
    \<and> received_bytes s \<le> received_bytes (fst r)
    \<and> received_bytes (fst r) \<le> received_bytes s + int (length (pending (sock_in w)))
    \<and> dirs (snd r) = dirs w
    \<and> (\<forall>p. files w p \<noteq> None \<longrightarrow> files (snd r) p \<noteq> None)"], goal_cases)
  case (1 s w)
  then show ?case by simp
next
  case (2 s w w1)
  then show ?case by (simp add: is_set_frame)
next
  case (3 s w w1)
  then show ?case by (simp add: is_set_frame)
next
  case (4 s w w1 w2)
  with sock_recv_fields[OF 4(4)] is_set_frame[OF 4(2)] show ?case by simp
next
  case (5 s w w1 w2 e)
  with sock_recv_fields[OF 5(4)] is_set_frame[OF 5(2)] show ?case by simp
next
  case (6 s w w1 w2)
  with sock_recv_fields[OF 6(4)] is_set_frame[OF 6(2)] show ?case by simp
next
  case (7 s w w1 w2 b)
  with sock_recv_fields[OF 7(4)] is_set_frame[OF 7(2)] show ?case by simp
next
  case (8 s w w1 w2 b h)
  have "files (file_write h b w2) p \<noteq> None" if "files w p \<noteq> None" for p
    using that sock_recv_fields(2)[OF 8(4)] is_set_frame(3)[OF 8(2)]
    by (auto simp: file_write_def)
  with 8 sock_recv_fields[OF 8(4)] is_set_frame[OF 8(2)] show ?case
    by (simp add: file_write_fields(1-3))
qed

lemma prepare_destination_world:
  assumes "prepare_destination rt s w = (r, w')"
  shows "sock_in w' = sock_in w" "recv_log w' = recv_log w" "files w' = files w"
proof -
  let ?b = "abspath w (ustr ''received_files'')"
  have "sock_in w' = sock_in w \<and> recv_log w' = recv_log w \<and> files w' = files w"
  proof (cases "if \<not> path_exists w ?b then makedirs ?b w else Inr w")
    case (Inl e)
    with assms show ?thesis by (simp add: prepare_destination_def Let_def)
  next
    case (Inr w1)
    then have "w1 = w\<lparr>dirs := dirs w1\<rparr>" using makedirs_frame by (auto split: if_splits)
    note f1 = frame_fields[OF this]
    obtain x w2 where sp: "sanitize_path rt ?b (basename (filename_from_header s)) w1 = (x, w2)"
      by (cases "sanitize_path rt ?b (basename (filename_from_header s)) w1")
    note f2 = frame_fields[OF sanitize_path_frame[OF sp]]
    from assms Inr sp have "w' = w2"
      by (auto simp: prepare_destination_def Let_def split: sum.splits prod.splits)
    then show ?thesis by (simp add: f1 f2)
  qed
  then show "sock_in w' = sock_in w" "recv_log w' = recv_log w" "files w' = files w"
    by simp_all
qed












subsection \<open>The buffer-size hint of the single-file header\<close>




text \<open>
  Why the valid hint of the comparison must be one that \<^verbatim>\<open>format_bytes\<close> can show: the same
  stream with the invalid hint \<^verbatim>\<open>abc\<close> and with the valid hint \<open>10\<^sup>2\<^sup>8\<close>. The first run
  receives the file; in the second one \<^verbatim>\<open>format_bytes\<close> of the hint raises \<^verbatim>\<open>IndexError\<close>
  in the status message, nothing is read and no file is created.
\<close>

lemma valid_large_hint_aborts:
  "(case handle_client_connection ascii_rt 65536 ''a.txt|5|abc|hel'' (quiet_world [Chunk ''lo''])
    of (s', w') \<Rightarrow>
      (transfer_success_sf s', current_buffer_size_from_header s', recv_log w',
       files w' (ustr ''/srv/received_files/a.txt'')))
   = (True, 4096, [2], Some ''hello'')
   \<and> py_int ascii_rt (ustr ''10000000000000000000000000000'')
     = Some 10000000000000000000000000000
   \<and> (case handle_client_connection ascii_rt 65536
             ''a.txt|5|10000000000000000000000000000|hel'' (quiet_world [Chunk ''lo''])
      of (s', w') \<Rightarrow>
        (transfer_success_sf s', current_buffer_size_from_header s', recv_log w',
         files w' (ustr ''/srv/received_files/a.txt'')))
     = (False, 10000000000000000000000000000, [], None)"
  by code_simp

subsection \<open>The single-file receiver: incomplete files\<close>

lemma receive_loop_cancel:
  "is_cancelled_sf (fst (receive_loop m s w))
   \<longrightarrow> is_cancelled_sf s \<or> received_bytes (fst (receive_loop m s w)) < filesize s"
proof (rule receive_loop_cases[where m = m and P = "\<lambda>s w r.
    is_cancelled_sf (fst r) \<longrightarrow> is_cancelled_sf s \<or> received_bytes (fst r) < filesize s"],
    goal_cases)
qed simp_all

lemma write_initial_buffer_fields:
  assumes "write_initial_buffer p s w = (s1, w1)"
  shows "filesize s1 = filesize s" "is_cancelled_sf s1 = is_cancelled_sf s"
    "transfer_success_sf s1 = transfer_success_sf s" "file_handle s1 = file_handle s"
    "received_bytes s \<le> received_bytes s1"
    "received_bytes s1 \<le> received_bytes s + int (length (current_remaining_buffer s))"
    "sock_in w1 = sock_in w" "dirs w1 = dirs w"
    "files w p \<noteq> None \<Longrightarrow> files w1 p \<noteq> None"
  using assms
  by (auto simp: write_initial_buffer_def Let_def file_write_def split: if_splits)

lemma receive_file_outcome:
  assumes "open_wb p w = Inr w1" and "0 < filesize s" and "received_bytes s = 0"
    and "\<not> transfer_success_sf s" and "\<not> is_cancelled_sf s"
    and "receive_file n p s w = (s', w')"
  shows "filesize s' = filesize s"
    and "received_bytes s'
         \<le> int (length (current_remaining_buffer s)) + int (length (pending (sock_in w)))"
    and "transfer_success_sf s' \<longleftrightarrow> filesize s \<le> received_bytes s'"
    and "files w' p = None \<longleftrightarrow> received_bytes s' < filesize s"
proof -
  from assms(1) have w1: "w1 = w\<lparr>files := (files w)(p \<mapsto> [])\<rparr>"
    by (auto simp: open_wb_def split: if_splits)
  obtain s1 w2 where wi: "write_initial_buffer p (s\<lparr>file_handle := Some p\<rparr>) w1 = (s1, w2)"
    by (cases "write_initial_buffer p (s\<lparr>file_handle := Some p\<rparr>) w1")
  note a = write_initial_buffer_fields[OF wi]
  obtain s2 w3 where rl: "receive_loop n s1 w2 = (s2, w3)" by (cases "receive_loop n s1 w2")
  from receive_loop_frame[of n s1 w2] rl
  have b: "filesize s2 = filesize s1" "transfer_success_sf s2 = transfer_success_sf s1"
    "received_bytes s1 \<le> received_bytes s2"
    "received_bytes s2 \<le> received_bytes s1 + int (length (pending (sock_in w2)))"
    "\<And>q. files w2 q \<noteq> None \<Longrightarrow> files w3 q \<noteq> None"
    by simp_all
  from receive_loop_cancel[of n s1 w2] rl
  have c: "is_cancelled_sf s2 \<Longrightarrow> is_cancelled_sf s1 \<or> received_bytes s2 < filesize s1"
    by simp
  have ex: "files w3 p \<noteq> None"
    using b(5)[of p] a(9) by (simp add: w1)
  define s3 where "s3 = (if \<not> is_cancelled_sf s2 \<and> filesize s2 \<le> received_bytes s2
                         then s2\<lparr>transfer_success_sf := True\<rparr> else s2)"
  have r: "receive_file n p s w
      = (s3\<lparr>file_handle := None\<rparr>,
         if \<not> transfer_success_sf s3 \<and> path_exists w3 p \<and> filesize s3 > 0
             \<and> received_bytes s3 < filesize s3
         then remove_file p w3 else w3)"
    using assms(2) by (simp add: receive_file_def assms(1) wi rl s3_def)
  have f: "filesize s3 = filesize s" "received_bytes s3 = received_bytes s2"
    using a b by (simp_all add: s3_def)
  have t: "transfer_success_sf s3 \<longleftrightarrow> filesize s \<le> received_bytes s2"
    using a b c assms(4,5) by (auto simp: s3_def)
  from r assms(6) have s': "s' = s3\<lparr>file_handle := None\<rparr>"
    and w': "w' = (if \<not> transfer_success_sf s3 \<and> path_exists w3 p \<and> filesize s3 > 0
             \<and> received_bytes s3 < filesize s3
         then remove_file p w3 else w3)"
    by simp_all
  show "filesize s' = filesize s" by (simp add: s' f)
  show "received_bytes s'
         \<le> int (length (current_remaining_buffer s)) + int (length (pending (sock_in w)))"
    using a(6,7) b(4) assms(3) by (simp add: s' f w1)
  show "transfer_success_sf s' \<longleftrightarrow> filesize s \<le> received_bytes s'"
    by (simp add: s' t f)
  show "files w' p = None \<longleftrightarrow> received_bytes s' < filesize s"
    using ex assms(2) by (auto simp: w' s' t f path_exists_def remove_file_def)
qed

lemma read_single_file_header_fields:
  assumes "read_single_file_header rt (initial_sstate initial_buffer) w = (None, s1, w1)"
  shows "received_bytes s1 = 0" "\<not> transfer_success_sf s1" "\<not> is_cancelled_sf s1"
    "0 \<le> filesize s1"
  using assms
  by (auto simp: read_single_file_header_def initial_sstate_def Let_def
      split: prod.splits sum.splits option.splits if_splits)

text \<open>
  Claim C8: let the single-file handler read its header with a size that is not 0, let
  nothing be cancelled before the destination \<open>p\<close> is found, and let \<^verbatim>\<open>open\<close> succeed.
  \<^item> If the carry-over buffer and the bytes the peer sends before it closes the
    connection are fewer than \<open>filesize\<close>, the handler ends with \<open>transfer_success\<close> not
    set, with fewer than \<open>filesize\<close> bytes received, and the file \<open>p\<close> does not exist.
  \<^item> Whenever it ends with fewer than \<open>filesize\<close> bytes received, \<open>transfer_success\<close> is
    not set and the file \<open>p\<close> does not exist.
  \<^item> Whenever it ends with \<open>filesize\<close> bytes received, \<open>transfer_success\<close> is set and the
    file \<open>p\<close> exists: the cleanup has not removed it.
  The socket is closed in every case.
\<close>

theorem early_close_deletes_partial_file:
  assumes "read_single_file_header rt (initial_sstate initial_buffer) w = (None, s1, w1)"
    and "is_set w1 = (False, w2)"
    and "prepare_destination rt s1 w2 = (Inr p, w3)"
    and "open_wb p w3 = Inr w4"
    and "0 < filesize s1"
    and "handle_client_connection rt receive_buffer_size initial_buffer w = (s', w')"
  shows "(int (length (current_remaining_buffer s1)) + int (length (pending (sock_in w1)))
            < filesize s1
          \<longrightarrow> \<not> transfer_success_sf s' \<and> received_bytes s' < filesize s'
              \<and> files w' p = None)
       \<and> (received_bytes s' < filesize s'
          \<longrightarrow> \<not> transfer_success_sf s' \<and> files w' p = None)
       \<and> (filesize s' \<le> received_bytes s'
          \<longrightarrow> transfer_success_sf s' \<and> files w' p \<noteq> None)
       \<and> filesize s' = filesize s1 \<and> sock_closed w'"
proof (cases "status_messages rt receive_buffer_size s1")
  case (Some e)
  note h = read_single_file_header_fields[OF assms(1)]
  note d = prepare_destination_frame[OF assms(3)]
  have "handle_client_connection rt receive_buffer_size initial_buffer w
      = (s1\<lparr>is_cancelled_sf := True, transfer_success_sf := False\<rparr>,
         w2\<lparr>sock_closed := True\<rparr>)"
    by (simp add: handle_client_connection_def receive_after_header_def assms(1,2) Some)
  with assms(6) have e: "s' = s1\<lparr>is_cancelled_sf := True, transfer_success_sf := False\<rparr>"
    "w' = w2\<lparr>sock_closed := True\<rparr>" by simp_all
  from d have "files w2 p = None" by (simp add: path_exists_def)
  then show ?thesis using assms(5) h by (simp add: e)
next
  case None
  note h = read_single_file_header_fields[OF assms(1)]
  note c = is_set_frame[OF assms(2)] and d = prepare_destination_world[OF assms(3)]
  obtain s2 w5 where
    rf: "receive_file receive_buffer_size p (s1\<lparr>file_path := Some p\<rparr>) w3 = (s2, w5)"
    by (cases "receive_file receive_buffer_size p (s1\<lparr>file_path := Some p\<rparr>) w3")
  have hc: "handle_client_connection rt receive_buffer_size initial_buffer w
      = (s2, w5\<lparr>sock_closed := True\<rparr>)"
    by (simp add: handle_client_connection_def receive_after_header_def assms(1,2,3) rf None)
  with assms(6) have e: "s' = s2" "w' = w5\<lparr>sock_closed := True\<rparr>" by simp_all
  have o: "filesize s2 = filesize s1"
    "received_bytes s2
       \<le> int (length (current_remaining_buffer s1)) + int (length (pending (sock_in w3)))"
    "transfer_success_sf s2 \<longleftrightarrow> filesize s1 \<le> received_bytes s2"
    "files w5 p = None \<longleftrightarrow> received_bytes s2 < filesize s1"
    using receive_file_outcome[OF assms(4) _ _ _ _ rf] assms(5) h by simp_all
  have sk: "sock_in w3 = sock_in w1" by (simp add: c d)
  show ?thesis using o by (auto simp: e sk)
qed


lemma early_close_example:
  "(case read_single_file_header ascii_rt (initial_sstate ''a.txt|5|4096|hel'')
           (quiet_world [Chunk ''l''])
    of (e, s1, w1) \<Rightarrow>
      (case is_set w1 of (c, w2) \<Rightarrow>
        (case prepare_destination ascii_rt s1 w2 of (r, w3) \<Rightarrow>
          (e, filesize s1, current_remaining_buffer s1, pending (sock_in w1), c, r,
           (case r of Inr p \<Rightarrow> (case open_wb p w3 of Inr _ \<Rightarrow> True | Inl _ \<Rightarrow> False)
            | Inl _ \<Rightarrow> False)))))
   = (None, 5, ''hel'', ''l'', False, Inr (ustr ''/srv/received_files/a.txt''), True)"
  by code_simp

lemma early_close_run:
  "(case handle_client_connection ascii_rt 65536 ''a.txt|5|4096|hel'' (quiet_world [Chunk ''l''])
    of (s', w') \<Rightarrow> (received_bytes s', is_cancelled_sf s', recv_log w'))
   = (4, True, [2, 1])"
  by code_simp

theorem early_close_deletes_partial_file_witness:
  "\<exists>s1 w1 w2 w3 w4 s' w'.
     read_single_file_header ascii_rt (initial_sstate ''a.txt|5|4096|hel'')
       (quiet_world [Chunk ''l'']) = (None, s1, w1)
     \<and> is_set w1 = (False, w2)
     \<and> prepare_destination ascii_rt s1 w2 = (Inr (ustr ''/srv/received_files/a.txt''), w3)
     \<and> open_wb (ustr ''/srv/received_files/a.txt'') w3 = Inr w4
     \<and> filesize s1 = 5 \<and> current_remaining_buffer s1 = ''hel''
     \<and> pending (sock_in w1) = ''l''
     \<and> handle_client_connection ascii_rt 65536 ''a.txt|5|4096|hel'' (quiet_world [Chunk ''l''])
         = (s', w')
     \<and> received_bytes s' = 4 \<and> is_cancelled_sf s' \<and> recv_log w' = [2, 1]
     \<and> \<not> transfer_success_sf s'
     \<and> files w' (ustr ''/srv/received_files/a.txt'') = None"
proof -
  let ?p = "ustr ''/srv/received_files/a.txt''"
  from early_close_example obtain s1 w1 w2 w3 w4 where
    r: "read_single_file_header ascii_rt (initial_sstate ''a.txt|5|4096|hel'')
          (quiet_world [Chunk ''l'']) = (None, s1, w1)"
    and c: "is_set w1 = (False, w2)"
    and d: "prepare_destination ascii_rt s1 w2 = (Inr ?p, w3)"
    and ow: "open_wb ?p w3 = Inr w4"
    and z: "filesize s1 = 5" "current_remaining_buffer s1 = ''hel''" "pending (sock_in w1) = ''l''"
    by (auto split: prod.splits sum.splits)
  from early_close_run obtain s' w' where
    hc: "handle_client_connection ascii_rt 65536 ''a.txt|5|4096|hel'' (quiet_world [Chunk ''l''])
         = (s', w')"
    and v: "received_bytes s' = 4" "is_cancelled_sf s'" "recv_log w' = [2, 1]"
    by (auto split: prod.splits)
  have pos: "0 < filesize s1" by (simp add: z)
  from early_close_deletes_partial_file[OF r c d ow pos hc] z
  have "\<not> transfer_success_sf s' \<and> files w' ?p = None" by simp
  with r c d ow z hc v show ?thesis by blast
qed


end
